(* ===== verification/Prelude.thy ===== *)
theory Prelude
  imports Main "HOL-Library.Word" "HOL-Library.Product_Lexorder" "HOL-Library.Sublist"
begin

text \<open>
  Shared vocabulary of the development: identifiers and time stamps, fixed-width Go integers,
  the error monad in which the bodies of the database transactions are written, the row-by-row
  semantics of the SQL statements \<open>UPDATE ... WHERE\<close> and \<open>INSERT\<close> that every repository
  issues, Go's \<open>strings.TrimSpace\<close>, decimal rendering and the big-endian length prefix, and
  the list lemmas the components share.
\<close>

section \<open>Identifiers, time and machine integers\<close>

text \<open>
  A UUID is its 16 bytes; the numerical order of the word is the byte order PostgreSQL sorts
  by, and the zero word is Go's zero \<open>uuid.UUID{}\<close>. Time stamps and durations are integers
  in one common unit. Strings are Go's byte strings.
\<close>

type_synonym uuid = "128 word"
type_synonym time = int
type_synonym bytes = string

named_theorems sql_simps \<open>what the SQL statements do to a table\<close>
named_theorems txn_simps \<open>unfolding of the transaction bodies\<close>

text \<open>Go's \<open>int32\<close> arithmetic wraps around; \<open>i32\<close> is applied to each such result.\<close>

definition max_int32 :: int where "max_int32 = 2147483647"
definition min_int32 :: int where "min_int32 = - 2147483648"
definition max_int64 :: int where "max_int64 = 9223372036854775807"
definition max_uint32 :: nat where "max_uint32 = 4294967295"

definition i32 :: "int \<Rightarrow> int" where
  "i32 x = (x + 2147483648) mod 4294967296 - 2147483648"

definition i64 :: "int \<Rightarrow> int" where
  "i64 x = (x + 9223372036854775808) mod 18446744073709551616 - 9223372036854775808"

lemma i32_id: "min_int32 \<le> x \<Longrightarrow> x \<le> max_int32 \<Longrightarrow> i32 x = x"
  by (simp add: i32_def min_int32_def max_int32_def)

lemma i32_add_left: "i32 (i32 x + y) = i32 (x + y)"
  unfolding i32_def by (simp add: mod_simps algebra_simps)

lemma i64_id: "- 9223372036854775808 \<le> x \<Longrightarrow> x \<le> max_int64 \<Longrightarrow> i64 x = x"
  by (simp add: i64_def max_int64_def)

text \<open>A successor that does not wrap to a negative number is exact.\<close>

lemma i64_next:
  assumes "0 \<le> i64 (x + 1)" and "0 \<le> x" and "x \<le> max_int64"
  shows "i64 (x + 1) = x + 1"
proof -
  have "x \<noteq> max_int64" using assms(1) by (auto simp: i64_def max_int64_def)
  then show ?thesis using assms(2,3) by (intro i64_id) auto
qed

section \<open>The error monad of a transaction body\<close>

text \<open>
  A body either fails (\<open>Inl\<close>, and the deferred \<open>tx.Rollback()\<close> undoes it) or continues.
  \<open>bindE\<close> is the Go idiom \<open>if err != nil { return err }\<close>.
\<close>

definition bindE :: "'e + 'a \<Rightarrow> ('a \<Rightarrow> 'e + 'b) \<Rightarrow> 'e + 'b" where
  "bindE m f = (case m of Inl e \<Rightarrow> Inl e | Inr x \<Rightarrow> f x)"

lemma bindE_simps [simp]:
  "bindE (Inl e) f = Inl e"
  "bindE (Inr x) f = f x"
  by (simp_all add: bindE_def)

lemma bindE_eq_Inr [simp]: "bindE m f = Inr y \<longleftrightarrow> (\<exists>x. m = Inr x \<and> f x = Inr y)"
  by (cases m) auto

lemma bindE_eq_Inl: "bindE m f = Inl e \<longleftrightarrow> m = Inl e \<or> (\<exists>x. m = Inr x \<and> f x = Inl e)"
  by (cases m) auto

lemma bindE_assoc: "bindE (bindE m f) g = bindE m (\<lambda>x. bindE (f x) g)"
  by (cases m) auto

lemma bindE_Inr_right [simp]: "bindE m Inr = m"
  by (cases m) auto

definition guardE :: "bool \<Rightarrow> 'e \<Rightarrow> 'e + unit" where
  "guardE b e = (if b then Inr () else Inl e)"

lemma guardE_simps [simp]:
  "guardE b e = Inr u \<longleftrightarrow> b"
  "guardE b e = Inl e' \<longleftrightarrow> \<not> b \<and> e' = e"
  "guardE True e = Inr ()"
  "guardE False e = Inl e"
  by (auto simp: guardE_def)

section \<open>SQL statements on a table\<close>

text \<open>
  A table is the list of its rows. A constraint function \<open>viol\<close> names the constraint a new
  version of a row would violate against the other rows, \<open>None\<close> when it violates none.
  \<open>UPDATE\<close> visits the rows that satisfy its \<open>WHERE\<close> clause one after the other, checks each
  new version against all the other rows as they are at that moment (PostgreSQL's immediate,
  non-deferrable constraints) and reports the number of rows it changed. The first violation
  aborts the statement.
\<close>

type_synonym 'r constraint_check = "'r \<Rightarrow> 'r list \<Rightarrow> string option"

fun sql_update_from ::
  "'r constraint_check \<Rightarrow> ('r \<Rightarrow> bool) \<Rightarrow> ('r \<Rightarrow> 'r) \<Rightarrow> 'r list \<Rightarrow> 'r list \<Rightarrow> string + ('r list \<times> nat)" where
  "sql_update_from viol P f seen [] = Inr (rev seen, 0)"
| "sql_update_from viol P f seen (r # rs) =
     (if P r then
        (case viol (f r) (rev seen @ rs) of
           Some c \<Rightarrow> Inl c
         | None \<Rightarrow> bindE (sql_update_from viol P f (f r # seen) rs) (\<lambda>(t, n). Inr (t, Suc n)))
      else sql_update_from viol P f (r # seen) rs)"

definition sql_update ::
  "'r constraint_check \<Rightarrow> ('r \<Rightarrow> bool) \<Rightarrow> ('r \<Rightarrow> 'r) \<Rightarrow> 'r list \<Rightarrow> string + ('r list \<times> nat)" where
  "sql_update viol P f table = sql_update_from viol P f [] table"

definition sql_insert :: "'r constraint_check \<Rightarrow> 'r \<Rightarrow> 'r list \<Rightarrow> string + 'r list" where
  "sql_insert viol r table = (case viol r table of Some c \<Rightarrow> Inl c | None \<Rightarrow> Inr (table @ [r]))"

lemma sql_update_from_Inr:
  "sql_update_from viol P f seen rs = Inr (t, n) \<Longrightarrow>
     t = rev seen @ map (\<lambda>r. if P r then f r else r) rs \<and> n = length (filter P rs)"
  by (induction viol P f seen rs arbitrary: t n rule: sql_update_from.induct)
     (auto split: if_splits option.splits)

lemma sql_update_Inr [sql_simps]:
  assumes "sql_update viol P f table = Inr (t, n)"
  shows "t = map (\<lambda>r. if P r then f r else r) table" and "n = length (filter P table)"
  using sql_update_from_Inr [of viol P f "[]" table t n] assms
  by (simp_all add: sql_update_def)

lemma sql_update_from_ok:
  assumes "\<And>pre r post. rs = pre @ r # post \<Longrightarrow> P r \<Longrightarrow>
           viol (f r) (rev seen @ map (\<lambda>r. if P r then f r else r) pre @ post) = None"
  shows "\<exists>t n. sql_update_from viol P f seen rs = Inr (t, n)"
  using assms
proof (induction rs arbitrary: seen)
  case Nil
  then show ?case by simp
next
  case (Cons r rs)
  let ?s = "if P r then f r # seen else r # seen"
  have "\<exists>t n. sql_update_from viol P f ?s rs = Inr (t, n)"
  proof (rule Cons.IH)
    fix pre r' post
    assume "rs = pre @ r' # post" and "P r'"
    then show "viol (f r') (rev ?s @ map (\<lambda>r. if P r then f r else r) pre @ post) = None"
      using Cons.prems [of "r # pre" r' post] by (auto split: if_splits)
  qed
  then show ?case using Cons.prems [of "[]" r rs] by (auto split: if_splits)
qed

lemma sql_update_ok:
  assumes "\<And>pre r post. table = pre @ r # post \<Longrightarrow> P r \<Longrightarrow>
             viol (f r) (map (\<lambda>r. if P r then f r else r) pre @ post) = None"
  shows "sql_update viol P f table =
           Inr (map (\<lambda>r. if P r then f r else r) table, length (filter P table))"
proof -
  have "\<exists>t n. sql_update_from viol P f [] table = Inr (t, n)"
    by (rule sql_update_from_ok) (auto simp: assms)
  then show ?thesis using sql_update_from_Inr [of viol P f "[]" table]
    by (fastforce simp: sql_update_def)
qed

text \<open>The case of every statement of the program: at most one row satisfies the clause.\<close>

lemma sql_update_from_skip:
  "\<forall>x\<in>set pre. \<not> P x \<Longrightarrow>
     sql_update_from viol P f seen (pre @ rs) = sql_update_from viol P f (rev pre @ seen) rs"
  by (induction pre arbitrary: seen) auto

lemma sql_update_none:
  "\<forall>x\<in>set table. \<not> P x \<Longrightarrow> sql_update viol P f table = Inr (table, 0)"
  using sql_update_from_skip [of table P viol f "[]" "[]"] by (simp add: sql_update_def)

lemma sql_update_one:
  assumes "P r" and "\<forall>x\<in>set pre \<union> set post. \<not> P x"
  shows "sql_update viol P f (pre @ r # post) =
    (case viol (f r) (pre @ post) of Some c \<Rightarrow> Inl c | None \<Rightarrow> Inr (pre @ f r # post, 1))"
  using assms sql_update_from_skip [of pre P viol f "[]" "r # post"]
    sql_update_from_skip [of post P viol f "f r # rev pre" "[]"]
  by (auto simp: sql_update_def split: option.split)

text \<open>A \<open>WHERE\<close> clause on a key: at most one row changes.\<close>

lemma sql_update_key:
  assumes keys: "distinct (map key table)" and P: "\<And>r. P r \<Longrightarrow> key r = k"
    and upd: "sql_update viol P f table = Inr (t, n)"
  shows "n = 0 \<and> t = table \<or>
    n = Suc 0 \<and> (\<exists>pre r post. table = pre @ r # post \<and> P r \<and> t = pre @ f r # post \<and>
      viol (f r) (pre @ post) = None)"
proof (cases "\<exists>r\<in>set table. P r")
  case False
  then show ?thesis using upd sql_update_none [of table P viol f] by auto
next
  case True
  then obtain r pre post where r: "P r" "table = pre @ r # post" by (auto simp: in_set_conv_decomp)
  have "key r \<notin> key ` (set pre \<union> set post)" using keys unfolding r(2) by (auto simp: image_Un)
  then have "\<forall>x\<in>set pre \<union> set post. \<not> P x" using P r(1) by (metis imageI)
  then have "t = pre @ f r # post \<and> n = Suc 0 \<and> viol (f r) (pre @ post) = None"
    using upd r by (auto simp: sql_update_one split: option.splits)
  then show ?thesis using r by blast
qed

lemma sorted_wrt_neq: "sorted_wrt (\<lambda>x y. f x \<noteq> f y) xs \<longleftrightarrow> distinct (map f xs)"
  by (induction xs) auto

lemma sorted_wrt_weaken: "sorted_wrt P xs \<Longrightarrow> (\<And>x y. P x y \<Longrightarrow> Q x y) \<Longrightarrow> sorted_wrt Q xs"
  by (induction xs) auto

lemma length_filter_cong_set:
  assumes "distinct xs" and "distinct ys" and "{x \<in> set xs. P x} = {y \<in> set ys. Q y}"
  shows "length (filter P xs) = length (filter Q ys)"
proof -
  have "length (filter P xs) = card {x \<in> set xs. P x}"
    using assms(1) by (metis distinct_card distinct_filter set_filter)
  also have "\<dots> = card {y \<in> set ys. Q y}" by (simp add: assms(3))
  also have "\<dots> = length (filter Q ys)"
    using assms(2) by (metis distinct_card distinct_filter set_filter)
  finally show ?thesis .
qed

lemma find_in_set: "find P xs = Some x \<Longrightarrow> x \<in> set xs \<and> P x"
  by (auto simp: find_Some_iff)

lemma find_unique:
  assumes "distinct (map f xs)" and "x \<in> set xs"
  shows "find (\<lambda>y. f y = f x) xs = Some x"
  using assms by (induction xs) auto

lemma list_ex_key: "list_ex (\<lambda>y. f y = f x) xs \<longleftrightarrow> f x \<in> f ` set xs"
  by (induction xs) auto

lemma sql_insert_Inr: "sql_insert viol r table = Inr t \<longleftrightarrow> viol r table = None \<and> t = table @ [r]"
  by (auto simp: sql_insert_def split: option.splits)

section \<open>Tables that only move forward\<close>

text \<open>
  \<open>forward R t t'\<close>: the rows of \<open>t\<close> are still there, in place, each related to its new
  version by \<open>R\<close>, and new rows may follow.
\<close>

definition forward :: "('r \<Rightarrow> 'r \<Rightarrow> bool) \<Rightarrow> 'r list \<Rightarrow> 'r list \<Rightarrow> bool" where
  "forward R t t' \<longleftrightarrow> (\<exists>u new. t' = u @ new \<and> list_all2 R t u)"

lemma forwardI: "list_all2 R t u \<Longrightarrow> forward R t (u @ new)"
  unfolding forward_def by blast

lemma forward_same: "list_all2 R t u \<Longrightarrow> forward R t u"
  using forwardI [of R t u "[]"] by simp

lemma forward_refl: "(\<And>r. R r r) \<Longrightarrow> forward R t t"
  by (rule forward_same) (rule list_all2_refl)

lemma forward_append: "(\<And>r. R r r) \<Longrightarrow> forward R t (t @ new)"
  by (rule forwardI) (rule list_all2_refl)

lemma forward_replace: "(\<And>r. R r r) \<Longrightarrow> R a b \<Longrightarrow> forward R (pre @ a # post) (pre @ b # post)"
  by (rule forward_same) (simp add: list_all2_appendI list_all2_refl)

lemma forward_trans:
  assumes R: "\<And>a b c. R a b \<Longrightarrow> R b c \<Longrightarrow> R a c" and "forward R s t" and "forward R t u"
  shows "forward R s u"
proof -
  obtain t1 t2 where t: "t = t1 @ t2" and st: "list_all2 R s t1"
    using assms(2) by (auto simp: forward_def)
  obtain u1 u2 where u: "u = u1 @ u2" and tu: "list_all2 R (t1 @ t2) u1"
    using assms(3) t by (auto simp: forward_def)
  obtain v1 v2 where v: "u1 = v1 @ v2" and tv: "list_all2 R t1 v1"
    using tu by (auto simp: list_all2_append1)
  have "list_all2 R s v1" by (rule list_all2_trans [OF R st tv])
  from forwardI [OF this, of "v2 @ u2"] show ?thesis using u v by simp
qed

lemma forward_row:
  assumes "forward R t t'" and "a \<in> set t"
  obtains b where "b \<in> set t'" and "R a b"
proof -
  obtain u new where u: "t' = u @ new" "list_all2 R t u"
    using assms(1) by (auto simp: forward_def)
  obtain i where i: "i < length t" "t ! i = a" using assms(2) by (auto simp: in_set_conv_nth)
  show thesis
    by (rule that [of "u ! i"]) (use u i in \<open>auto simp: list_all2_conv_all_nth\<close>)
qed

end
