(* ===== verification/Go_Strings.thy ===== *)
theory Go_Strings
  imports Prelude
begin

text \<open>
  The parts of Go's standard library that the domain code applies to strings, on byte strings:
  \<open>strings.TrimSpace\<close>, \<open>strings.ToLower\<close> on ASCII, \<open>strconv.FormatInt\<close> in base ten,
  \<open>binary.BigEndian.PutUint32\<close>, \<open>bytes.Contains\<close>, and the length-prefixed framing of a
  list of fields that both canonical hashes of the program feed to SHA-256. The main result is
  that the framing is injective: no two field lists share a byte stream.
\<close>

section \<open>Byte classes\<close>

definition byte_of :: "char \<Rightarrow> nat" where "byte_of c = of_char c"

definition is_digit :: "char \<Rightarrow> bool" where "is_digit c \<longleftrightarrow> 48 \<le> byte_of c \<and> byte_of c \<le> 57"
definition is_upper :: "char \<Rightarrow> bool" where "is_upper c \<longleftrightarrow> 65 \<le> byte_of c \<and> byte_of c \<le> 90"
definition is_lower :: "char \<Rightarrow> bool" where "is_lower c \<longleftrightarrow> 97 \<le> byte_of c \<and> byte_of c \<le> 122"
definition is_alnum :: "char \<Rightarrow> bool" where "is_alnum c \<longleftrightarrow> is_digit c \<or> is_upper c \<or> is_lower c"

definition to_lower :: "string \<Rightarrow> string" where
  "to_lower s = map (\<lambda>c. if is_upper c then char_of (byte_of c + 32) else c) s"

text \<open>
  \<open>strings.ToLower\<close> up to the letters that a comparison with an ASCII word can see: the ASCII
  capitals, the Kelvin sign (a lower-case k) and the capital I with a dot (a lower-case i).
\<close>

fun lower_to_ascii :: "string \<Rightarrow> string" where
  "lower_to_ascii (a # b # c # s) =
     (if [a, b, c] = [CHR 0xE2, CHR 0x84, CHR 0xAA] then CHR ''k'' # lower_to_ascii s
      else if [a, b] = [CHR 0xC4, CHR 0xB0] then CHR ''i'' # lower_to_ascii (c # s)
      else to_lower [a] @ lower_to_ascii (b # c # s))"
| "lower_to_ascii [a, b] = (if [a, b] = [CHR 0xC4, CHR 0xB0] then ''i'' else to_lower [a, b])"
| "lower_to_ascii [a] = to_lower [a]"
| "lower_to_ascii [] = []"

section \<open>strings.TrimSpace\<close>

text \<open>
  The UTF-8 encodings of the runes \<open>unicode.IsSpace\<close> accepts: the six ASCII ones, U+0085,
  U+00A0, U+1680, U+2000 to U+200A, U+2028, U+2029, U+202F, U+205F and U+3000.
\<close>

definition space_runes :: "string list" where
  "space_runes = map (map char_of)
     ([[9], [10], [11], [12], [13], [32], [0xC2, 0x85], [0xC2, 0xA0], [0xE1, 0x9A, 0x80],
       [0xE2, 0x80, 0xA8], [0xE2, 0x80, 0xA9], [0xE2, 0x80, 0xAF], [0xE2, 0x81, 0x9F],
       [0xE3, 0x80, 0x80]] @ map (\<lambda>k. [0xE2, 0x80, 0x80 + k]) [0..<11] :: nat list list)"

lemma space_runes_code [code]:
  "space_runes = [[CHR 0x09], [CHR 0x0A], [CHR 0x0B], [CHR 0x0C], [CHR 0x0D], [CHR 0x20],
     [CHR 0xC2, CHR 0x85], [CHR 0xC2, CHR 0xA0], [CHR 0xE1, CHR 0x9A, CHR 0x80],
     [CHR 0xE2, CHR 0x80, CHR 0xA8], [CHR 0xE2, CHR 0x80, CHR 0xA9], [CHR 0xE2, CHR 0x80, CHR 0xAF],
     [CHR 0xE2, CHR 0x81, CHR 0x9F], [CHR 0xE3, CHR 0x80, CHR 0x80],
     [CHR 0xE2, CHR 0x80, CHR 0x80], [CHR 0xE2, CHR 0x80, CHR 0x81], [CHR 0xE2, CHR 0x80, CHR 0x82],
     [CHR 0xE2, CHR 0x80, CHR 0x83], [CHR 0xE2, CHR 0x80, CHR 0x84], [CHR 0xE2, CHR 0x80, CHR 0x85],
     [CHR 0xE2, CHR 0x80, CHR 0x86], [CHR 0xE2, CHR 0x80, CHR 0x87], [CHR 0xE2, CHR 0x80, CHR 0x88],
     [CHR 0xE2, CHR 0x80, CHR 0x89], [CHR 0xE2, CHR 0x80, CHR 0x8A]]"
  by (simp add: space_runes_def upt_rec char_of_def bit_0 bit_numeral_rec)

function drop_runes :: "string list \<Rightarrow> string \<Rightarrow> string" where
  "drop_runes ws s =
     (case find (\<lambda>w. w \<noteq> [] \<and> prefix w s) ws of
        None \<Rightarrow> s
      | Some w \<Rightarrow> drop_runes ws (drop (length w) s))"
  by pat_completeness auto
termination
  by (relation "measure (\<lambda>(ws, s). length s)")
     (auto simp: find_Some_iff prefix_def)

declare drop_runes.simps [simp del]

definition trim_left :: "string \<Rightarrow> string" where "trim_left s = drop_runes space_runes s"
definition trim_right :: "string \<Rightarrow> string" where
  "trim_right s = rev (drop_runes (map rev space_runes) (rev s))"
definition trim_space :: "string \<Rightarrow> string" where "trim_space s = trim_right (trim_left s)"

definition no_rune_prefix :: "string list \<Rightarrow> string \<Rightarrow> bool" where
  "no_rune_prefix ws s \<longleftrightarrow> (\<forall>w\<in>set ws. w \<noteq> [] \<longrightarrow> \<not> prefix w s)"

lemma drop_runes_clean: "no_rune_prefix ws (drop_runes ws s)"
proof (induction ws s rule: drop_runes.induct)
  case (1 ws s)
  then show ?case
    by (subst drop_runes.simps)
       (auto simp: no_rune_prefix_def find_None_iff split: option.split)
qed

lemma drop_runes_id: "no_rune_prefix ws s \<Longrightarrow> drop_runes ws s = s"
  by (subst drop_runes.simps) (auto simp: no_rune_prefix_def find_Some_iff split: option.split)

lemma drop_runes_suffix: "suffix (drop_runes ws s) s"
proof (induction ws s rule: drop_runes.induct)
  case (1 ws s)
  then show ?case
    by (subst drop_runes.simps)
       (auto split: option.split intro: suffix_order.trans suffix_drop)
qed

lemma trim_right_prefix: "prefix (trim_right s) s"
  using drop_runes_suffix [of "map rev space_runes" "rev s"]
  by (simp add: trim_right_def suffix_to_prefix)

lemma trim_space_length: "length (trim_space s) \<le> length s"
proof -
  have "length (trim_space s) \<le> length (trim_left s)"
    unfolding trim_space_def by (rule prefix_length_le [OF trim_right_prefix])
  also have "\<dots> \<le> length s"
    unfolding trim_left_def by (rule suffix_length_le [OF drop_runes_suffix])
  finally show ?thesis .
qed

lemma trim_space_idem [simp]: "trim_space (trim_space s) = trim_space s"
proof -
  let ?t = "trim_space s"
  have "no_rune_prefix space_runes (trim_left s)"
    by (simp add: trim_left_def drop_runes_clean)
  then have "no_rune_prefix space_runes ?t"
    unfolding no_rune_prefix_def trim_space_def
    using trim_right_prefix prefix_order.trans by blast
  then have left: "trim_left ?t = ?t"
    by (simp add: trim_left_def drop_runes_id)
  have "no_rune_prefix (map rev space_runes) (rev ?t)"
    by (simp add: trim_space_def trim_right_def drop_runes_clean)
  then have "trim_right ?t = ?t"
    by (simp add: trim_right_def drop_runes_id)
  with left show ?thesis by (simp add: trim_space_def)
qed

section \<open>Searching\<close>

fun bytes_contains :: "bytes \<Rightarrow> bytes \<Rightarrow> bool" where
  "bytes_contains [] sub = (sub = [])"
| "bytes_contains (c # cs) sub = (prefix sub (c # cs) \<or> bytes_contains cs sub)"

lemma bytes_contains_iff: "bytes_contains s sub \<longleftrightarrow> sublist sub s"
  by (induction s sub rule: bytes_contains.induct) (auto simp: sublist_Cons_right)

section \<open>Decimal rendering\<close>

fun show_nat :: "nat \<Rightarrow> string" where
  "show_nat n = (if n < 10 then [char_of (48 + n)]
                 else show_nat (n div 10) @ [char_of (48 + n mod 10)])"

declare show_nat.simps [simp del]

definition show_int :: "int \<Rightarrow> string" where
  "show_int i = (if i < 0 then CHR ''-'' # show_nat (nat (- i)) else show_nat (nat i))"

definition read_nat :: "string \<Rightarrow> nat" where
  "read_nat s = foldl (\<lambda>n c. 10 * n + (byte_of c - 48)) 0 s"

lemma read_show_nat [simp]: "read_nat (show_nat n) = n"
proof (induction n rule: show_nat.induct)
  case (1 n)
  show ?case
  proof (cases "n < 10")
    case True
    then show ?thesis
      by (subst show_nat.simps) (simp add: read_nat_def byte_of_def)
  next
    case False
    with 1 have "read_nat (show_nat (n div 10)) = n div 10" by simp
    with False show ?thesis
      by (subst show_nat.simps) (simp add: read_nat_def byte_of_def)
  qed
qed

lemma show_nat_digits: "\<forall>c\<in>set (show_nat n). is_digit c"
proof (induction n rule: show_nat.induct)
  case (1 n)
  show ?case
  proof (cases "n < 10")
    case True
    then show ?thesis by (subst show_nat.simps) (simp add: is_digit_def byte_of_def)
  next
    case False
    with 1 have "\<forall>c\<in>set (show_nat (n div 10)). is_digit c" by simp
    with False show ?thesis
      by (subst show_nat.simps) (auto simp: is_digit_def byte_of_def)
  qed
qed

lemma show_nat_not_Nil [simp]: "show_nat n \<noteq> []"
  by (subst show_nat.simps) simp

lemma show_nat_inj: "show_nat m = show_nat n \<longleftrightarrow> m = n"
  by (metis read_show_nat)

lemma show_nat_no_minus: "show_nat n \<noteq> CHR ''-'' # s"
  using show_nat_digits [of n] by (auto simp: is_digit_def byte_of_def)

lemma show_int_inj: "show_int i = show_int j \<longleftrightarrow> i = j"
  by (auto simp: show_int_def show_nat_inj show_nat_no_minus show_nat_no_minus [symmetric])

section \<open>Length-prefixed framing\<close>

text \<open>\<open>PutUint32\<close>: four bytes, most significant first.\<close>

definition put_uint32 :: "nat \<Rightarrow> bytes" where
  "put_uint32 n = map char_of [n div 16777216 mod 256, n div 65536 mod 256, n div 256 mod 256, n mod 256]"

lemma put_uint32_code [code]:
  "put_uint32 n = map (\<lambda>k. char_of (nat (int n div k mod 256))) [16777216, 65536, 256, 1]"
  by (simp add: put_uint32_def nat_mod_distrib nat_div_distrib zdiv_int [symmetric])

lemma length_put_uint32 [simp]: "length (put_uint32 n) = 4"
  by (simp add: put_uint32_def)

lemma base256_expand:
  "a = 256 * b + c \<Longrightarrow> d = 256 * a + e \<Longrightarrow> k = 256 * d + f \<Longrightarrow>
     (k::nat) = (b * 256 + c) * 65536 + e * 256 + f"
  by simp

lemma put_uint32_inj:
  assumes "put_uint32 m = put_uint32 n" and "m \<le> max_uint32" and "n \<le> max_uint32"
  shows "m = n"
proof -
  have bytes: "m div 16777216 mod 256 = n div 16777216 mod 256"
    "m div 65536 mod 256 = n div 65536 mod 256" "m div 256 mod 256 = n div 256 mod 256"
    "m mod 256 = n mod 256"
    using assms(1) by (simp_all add: put_uint32_def char_of_eq_iff take_bit_eq_mod)
  have split: "k = ((k div 16777216 mod 256) * 256 + k div 65536 mod 256) * 65536
      + (k div 256 mod 256) * 256 + k mod 256" if "k \<le> max_uint32" for k :: nat
  proof -
    have top: "k div 16777216 mod 256 = k div 16777216"
      using that by (simp add: max_uint32_def)
    have "k div 65536 = 256 * (k div 16777216 mod 256) + k div 65536 mod 256"
      using mult_div_mod_eq [of 256 "k div 65536"] by (simp add: div_mult2_eq [symmetric] top)
    moreover have "k div 256 = 256 * (k div 65536) + k div 256 mod 256"
      using mult_div_mod_eq [of 256 "k div 256"] by (simp add: div_mult2_eq [symmetric])
    moreover have "k = 256 * (k div 256) + k mod 256" by simp
    ultimately show ?thesis by (rule base256_expand)
  qed
  show ?thesis using split [OF assms(2)] split [OF assms(3)] bytes by metis
qed

definition frame_field :: "bytes \<Rightarrow> bytes" where
  "frame_field s = put_uint32 (length s) @ s"

definition frame_fields :: "bytes list \<Rightarrow> bytes" where
  "frame_fields fields = concat (map frame_field fields)"

definition frameable :: "bytes list \<Rightarrow> bool" where
  "frameable fields \<longleftrightarrow> (\<forall>s\<in>set fields. length s \<le> max_uint32)"

lemma frameable_code [code]: "frameable fs \<longleftrightarrow> list_all (\<lambda>s. int (length s) \<le> 4294967295) fs"
  by (auto simp: frameable_def list_all_iff max_uint32_def)

lemma frameable_Cons [simp]: "frameable (s # ss) \<longleftrightarrow> length s \<le> max_uint32 \<and> frameable ss"
  by (simp add: frameable_def)

lemma frame_field_append_inj:
  assumes "frame_field s @ x = frame_field t @ y"
    and "length s \<le> max_uint32" and "length t \<le> max_uint32"
  shows "s = t \<and> x = y"
proof -
  from assms(1) have "put_uint32 (length s) = put_uint32 (length t)" and rest: "s @ x = t @ y"
    by (simp_all add: frame_field_def)
  then have "length s = length t"
    using put_uint32_inj assms(2,3) by blast
  with rest show ?thesis by simp
qed

lemma frame_fields_inj:
  "frame_fields xs = frame_fields ys \<Longrightarrow> frameable xs \<Longrightarrow> frameable ys \<Longrightarrow> xs = ys"
proof (induction xs arbitrary: ys)
  case Nil
  then show ?case
    by (cases ys) (auto simp: frame_fields_def frame_field_def put_uint32_def)
next
  case (Cons x xs)
  show ?case
  proof (cases ys)
    case Nil
    with Cons.prems show ?thesis
      by (auto simp: frame_fields_def frame_field_def put_uint32_def)
  next
    case (Cons y ys')
    with Cons.prems have "x = y \<and> frame_fields xs = frame_fields ys'"
      by (intro frame_field_append_inj) (simp_all add: frame_fields_def)
    with Cons Cons.prems Cons.IH show ?thesis by auto
  qed
qed

end
