(* ===== verification/Domain.thy ===== *)
theory Domain
  imports Go_Strings
begin

text \<open>
  The domain package (\<open>internal/pkg/domain\<close>): the error sentinels and \<open>errors.Is\<close>, the
  queue-attempt states and the attempt record, the commands with the parsers that validate
  them, the waiting capacity and the queue sequence. Code outside the repository
  (\<open>google/uuid\<close> and SHA-256) is a field of the record \<open>externals\<close>, a parameter of the
  definitions that use it.
\<close>

section \<open>Errors\<close>

datatype sentinel =
    ErrNotImplemented | ErrNotFound | ErrConflict | ErrInvalidInput | ErrInvalidIdentity
  | ErrOutOfStock | ErrInvitationExpired | ErrCheckoutExpired | ErrPaymentFailed
  | ErrQueueSequenceExhausted | ErrStaleClaim | ErrPaymentClaimIntegrity | ErrInternal
  | ErrQueueDisabled | ErrAlreadyPurchased | ErrQueueFull | ErrAttemptNotFound
  | ErrInvalidTransition | ErrAttemptGone | ErrAdjustmentConflict | ErrStockBelowReserved
  | ErrStockBelowZero | ErrStockOverflow | ErrReservedInvariant | ErrMetricsUnavailable

fun sentinel_message :: "sentinel \<Rightarrow> string" where
  "sentinel_message ErrNotImplemented = ''not implemented''"
| "sentinel_message ErrNotFound = ''not found''"
| "sentinel_message ErrConflict = ''conflict''"
| "sentinel_message ErrInvalidInput = ''invalid input''"
| "sentinel_message ErrInvalidIdentity = ''invalid identity''"
| "sentinel_message ErrOutOfStock = ''out of stock''"
| "sentinel_message ErrInvitationExpired = ''invitation expired''"
| "sentinel_message ErrCheckoutExpired = ''checkout expired''"
| "sentinel_message ErrPaymentFailed = ''payment failed''"
| "sentinel_message ErrQueueSequenceExhausted = ''queue sequence exhausted''"
| "sentinel_message ErrStaleClaim = ''stale worker claim''"
| "sentinel_message ErrPaymentClaimIntegrity = ''payment claim integrity violation''"
| "sentinel_message ErrInternal = ''internal error''"
| "sentinel_message ErrQueueDisabled = ''queue disabled''"
| "sentinel_message ErrAlreadyPurchased = ''already purchased''"
| "sentinel_message ErrQueueFull = ''queue full''"
| "sentinel_message ErrAttemptNotFound = ''queue attempt not found''"
| "sentinel_message ErrInvalidTransition = ''invalid queue transition''"
| "sentinel_message ErrAttemptGone = ''queue attempt expired or sold out''"
| "sentinel_message ErrAdjustmentConflict = ''stock adjustment idempotency conflict''"
| "sentinel_message ErrStockBelowReserved = ''stock cannot be below reserved''"
| "sentinel_message ErrStockBelowZero = ''stock cannot be below zero''"
| "sentinel_message ErrStockOverflow = ''stock exceeds supported range''"
| "sentinel_message ErrReservedInvariant = ''stored reserved inventory invariant violated''"
| "sentinel_message ErrMetricsUnavailable = ''loadtest metrics unavailable''"

text \<open>
  An error value: a sentinel, a PostgreSQL constraint violation (\<open>pgconn.PgError\<close> with its
  constraint name), a run-time panic (which unwinds through the deferred rollback),
  or \<open>fmt.Errorf\<close> wrapping other errors with \<open>%w\<close>.
\<close>

datatype go_error =
    Sentinel sentinel
  | PgConstraint string
  | Panic
  | Wrapped "go_error list"

fun errors_is :: "go_error \<Rightarrow> sentinel \<Rightarrow> bool" where
  "errors_is (Sentinel s) t = (s = t)"
| "errors_is (PgConstraint c) t = False"
| "errors_is Panic t = False"
| "errors_is (Wrapped es) t = list_ex (\<lambda>e. errors_is e t) es"

fun as_pg_constraint :: "go_error \<Rightarrow> string option" where
  "as_pg_constraint (PgConstraint c) = Some c"
| "as_pg_constraint (Sentinel s) = None"
| "as_pg_constraint Panic = None"
| "as_pg_constraint (Wrapped []) = None"
| "as_pg_constraint (Wrapped (e # es)) =
     (case as_pg_constraint e of Some c \<Rightarrow> Some c | None \<Rightarrow> as_pg_constraint (Wrapped es))"

text \<open>
  Go's \<open>(T, error)\<close> result: no value (\<open>None\<close>) is the zero value of \<open>T\<close>. Both components
  can be present, as for a rejected stock adjustment.
\<close>

type_synonym 'r go_return = "'r option \<times> go_error option"

section \<open>Identity and idempotency keys\<close>

record externals =
  ext_uuid_parse :: "string \<Rightarrow> uuid option"
  ext_uuid_string :: "uuid \<Rightarrow> string"
  ext_sha256 :: "bytes \<Rightarrow> bytes"

type_synonym attempt_id = uuid
type_synonym product_id = uuid
type_synonym user_id = string
type_synonym idempotency_key = string

definition max_idempotency_key_length :: nat where "max_idempotency_key_length = 128"
definition max_external_user_id_length :: nat where "max_external_user_id_length = 255"

definition parse_uuid_id :: "externals \<Rightarrow> string \<Rightarrow> go_error + uuid" where
  "parse_uuid_id ext raw = (case ext_uuid_parse ext raw of
     None \<Rightarrow> Inl (Wrapped [Sentinel ErrInvalidInput]) | Some value \<Rightarrow> Inr value)"

definition parse_attempt_id :: "externals \<Rightarrow> string \<Rightarrow> go_error + attempt_id" where
  "parse_attempt_id ext raw = parse_uuid_id ext raw"

definition parse_product_id :: "externals \<Rightarrow> string \<Rightarrow> go_error + product_id" where
  "parse_product_id ext raw = parse_uuid_id ext raw"

definition key_char :: "char \<Rightarrow> bool" where
  "key_char c \<longleftrightarrow> is_alnum c \<or> c \<in> set ''._:-''"

definition idempotency_key_pattern :: "string \<Rightarrow> bool" where
  "idempotency_key_pattern s = (case s of [] \<Rightarrow> False
     | c # cs \<Rightarrow> is_alnum c \<and> length cs \<le> 127 \<and> list_all key_char cs)"

definition parse_idempotency_key :: "string \<Rightarrow> go_error + idempotency_key" where
  "parse_idempotency_key raw =
     (let trimmed = trim_space raw in
      if length trimmed > max_idempotency_key_length \<or> \<not> idempotency_key_pattern trimmed
      then Inl (Wrapped [Sentinel ErrInvalidInput])
      else Inr trimmed)"

definition parse_external_user_id :: "externals \<Rightarrow> string \<Rightarrow> go_error + user_id" where
  "parse_external_user_id ext raw =
     (if raw = [] \<or> length raw > max_external_user_id_length
      then Inl (Wrapped [Sentinel ErrInvalidIdentity])
      else case ext_uuid_parse ext raw of
        None \<Rightarrow> Inl (Wrapped [Sentinel ErrInvalidIdentity])
      | Some parsed \<Rightarrow> if ext_uuid_string ext parsed \<noteq> raw
          then Inl (Wrapped [Sentinel ErrInvalidIdentity]) else Inr raw)"

section \<open>Queue attempts\<close>

datatype attempt_state =
    Waiting | Invited | Checkout | Purchased | InviteExpired | CheckoutExpired
  | PaymentFailedState | Cancelled | SoldOut

fun state_text :: "attempt_state \<Rightarrow> string" where
  "state_text Waiting = ''waiting''"
| "state_text Invited = ''invited''"
| "state_text Checkout = ''checkout''"
| "state_text Purchased = ''purchased''"
| "state_text InviteExpired = ''invite_expired''"
| "state_text CheckoutExpired = ''checkout_expired''"
| "state_text PaymentFailedState = ''payment_failed''"
| "state_text Cancelled = ''cancelled''"
| "state_text SoldOut = ''sold_out''"

record queue_attempt =
  qa_id :: attempt_id
  qa_product :: product_id
  qa_sequence :: int
  qa_user :: user_id
  qa_key :: idempotency_key
  qa_state :: attempt_state
  qa_created_at :: time
  qa_updated_at :: time
  qa_invited_at :: "time option"
  qa_invitation_deadline :: "time option"
  qa_checkout_started_at :: "time option"
  qa_checkout_deadline :: "time option"
  qa_terminal_at :: "time option"
  qa_purchased_at :: "time option"
  qa_accepted_provider :: "string option"
  qa_accepted_reference :: "string option"
  qa_terminal_reason :: "string option"
  qa_terminal_message :: "string option"
  qa_version :: int

definition is_active_state :: "attempt_state \<Rightarrow> bool" where
  "is_active_state s \<longleftrightarrow> s = Waiting \<or> s = Invited \<or> s = Checkout"

definition is_terminal_state :: "attempt_state \<Rightarrow> bool" where
  "is_terminal_state s \<longleftrightarrow> \<not> is_active_state s \<and> s \<noteq> Purchased"

definition reserves_stock :: "attempt_state \<Rightarrow> bool" where
  "reserves_stock s \<longleftrightarrow> s = Invited \<or> s = Checkout"

lemma reserves_stock_active: "reserves_stock s \<Longrightarrow> is_active_state s"
  by (auto simp: reserves_stock_def is_active_state_def)

record join_queue_command =
  jq_product :: product_id
  jq_user :: user_id
  jq_key :: idempotency_key

text \<open>In \<open>jr_attempt\<close>, \<open>None\<close> is the zero \<open>QueueAttempt\<close> of a refused join.\<close>

record join_queue_result =
  jr_attempt :: "queue_attempt option"
  jr_position_ahead :: int
  jr_total_waiting :: int
  jr_created :: bool

record start_checkout_command =
  sc_attempt :: attempt_id
  sc_user :: user_id

record cancel_queue_command =
  cq_product :: product_id
  cq_user :: user_id

record current_queue_result =
  cr_attempt :: queue_attempt
  cr_position_ahead :: int
  cr_total_waiting :: int

record product =
  prod_id :: product_id
  prod_title :: string
  prod_description :: string
  prod_image_url :: string
  prod_category :: string
  prod_price_cents :: int
  prod_queue_enabled :: bool
  prod_allocatable_stock :: int
  prod_reserved :: int
  prod_next_queue_sequence :: int
  prod_waiting_count :: int
  prod_waiting_capacity :: int

definition free_stock :: "product \<Rightarrow> int" where
  "free_stock p = (if prod_reserved p \<ge> prod_allocatable_stock p then 0
                   else i32 (prod_allocatable_stock p - prod_reserved p))"

section \<open>Waiting capacity and queue sequence\<close>

definition waiting_capacity :: "int \<Rightarrow> int \<Rightarrow> go_error + int" where
  "waiting_capacity stock percent =
     (if stock < 0 \<or> percent < 0 then Inl (Wrapped [Sentinel ErrInvalidInput])
      else if stock \<noteq> 0 \<and> percent > max_int64 div stock
      then Inl (Wrapped [Sentinel ErrInvalidInput])
      else let product = i64 (stock * percent) in
        if product > max_int64 - 99 then Inl (Wrapped [Sentinel ErrInvalidInput])
        else Inr (i64 (product + 99) div 100))"

definition next_queue_sequence :: "int \<Rightarrow> go_error + int" where
  "next_queue_sequence current =
     (if current < 1 then Inl (Wrapped [Sentinel ErrInvalidInput])
      else if current = max_int64 then Inl (Sentinel ErrQueueSequenceExhausted)
      else Inr (current + 1))"

section \<open>Stock adjustments\<close>

definition max_reason_length :: nat where "max_reason_length = 200"
definition max_external_reference_length :: nat where "max_external_reference_length = 200"

record stock_adjustment_command =
  sa_product :: product_id
  sa_key :: idempotency_key
  sa_delta :: int
  sa_reason :: string
  sa_reference :: string

record stock_adjustment_result =
  sr_id :: uuid
  sr_before :: int
  sr_after :: int
  sr_http_status :: int
  sr_body :: bytes
  sr_replayed :: bool

definition parse_stock_adjustment_command ::
  "product_id \<Rightarrow> idempotency_key \<Rightarrow> int \<Rightarrow> string \<Rightarrow> string \<Rightarrow> go_error + stock_adjustment_command" where
  "parse_stock_adjustment_command pid key delta reason reference =
     (if delta = 0 \<or> delta < min_int32 \<or> delta > max_int32
      then Inl (Wrapped [Sentinel ErrInvalidInput])
      else let normalized_reason = trim_space reason in
      if normalized_reason = [] \<or> length normalized_reason > max_reason_length
      then Inl (Wrapped [Sentinel ErrInvalidInput])
      else let normalized_reference = trim_space reference in
      if normalized_reference = [] \<or> length normalized_reference > max_external_reference_length
      then Inl (Wrapped [Sentinel ErrInvalidInput])
      else Inr \<lparr>sa_product = pid, sa_key = key, sa_delta = i32 delta,
                sa_reason = normalized_reason, sa_reference = normalized_reference\<rparr>)"

section \<open>Payments\<close>

datatype payment_outcome = PaymentSucceeded | PaymentFailed

fun outcome_text :: "payment_outcome \<Rightarrow> string" where
  "outcome_text PaymentSucceeded = ''succeeded''"
| "outcome_text PaymentFailed = ''failed''"

definition max_payment_provider_length :: nat where "max_payment_provider_length = 64"
definition max_payment_event_id_length :: nat where "max_payment_event_id_length = 200"
definition max_payment_reference_length :: nat where "max_payment_reference_length = 200"

record payment_command =
  pc_provider :: string
  pc_event_id :: string
  pc_attempt :: attempt_id
  pc_outcome :: payment_outcome
  pc_reference :: string

definition normalize_required_payment_field :: "string \<Rightarrow> nat \<Rightarrow> go_error + string" where
  "normalize_required_payment_field value max_length =
     (let normalized = trim_space value in
      if normalized = [] then Inl (Wrapped [Sentinel ErrInvalidInput])
      else if length normalized > max_length then Inl (Wrapped [Sentinel ErrInvalidInput])
      else Inr normalized)"

definition parse_payment_outcome :: "string \<Rightarrow> payment_outcome option" where
  "parse_payment_outcome raw =
     (let normalized = lower_to_ascii (trim_space raw) in
      if normalized = ''succeeded'' then Some PaymentSucceeded
      else if normalized = ''failed'' then Some PaymentFailed else None)"

definition parse_payment_command ::
  "externals \<Rightarrow> string \<Rightarrow> string \<Rightarrow> string \<Rightarrow> string \<Rightarrow> string \<Rightarrow> go_error + payment_command" where
  "parse_payment_command ext provider event_id attempt outcome reference =
     bindE (normalize_required_payment_field provider max_payment_provider_length) (\<lambda>p.
     bindE (normalize_required_payment_field event_id max_payment_event_id_length) (\<lambda>e.
     bindE (parse_attempt_id ext (trim_space attempt)) (\<lambda>a.
     case parse_payment_outcome outcome of
       None \<Rightarrow> Inl (Wrapped [Sentinel ErrInvalidInput])
     | Some out \<Rightarrow>
         let normalized = (if out = PaymentFailed then [] else trim_space reference) in
         if out = PaymentSucceeded \<and> normalized = [] then Inl (Wrapped [Sentinel ErrInvalidInput])
         else if length normalized > max_payment_reference_length
         then Inl (Wrapped [Sentinel ErrInvalidInput])
         else Inr \<lparr>pc_provider = p, pc_event_id = e, pc_attempt = a, pc_outcome = out,
                   pc_reference = normalized\<rparr>)))"

end
