(* ===== verification/Schema.thy ===== *)
theory Schema
  imports Domain
begin

text \<open>
  The PostgreSQL tables the repositories write (\<open>migrations/00001\<close> to \<open>00011\<close>): their rows,
  the \<open>CHECK\<close> constraints and unique indexes as the functions that name the constraint a row
  would violate, and the guarded \<open>UPDATE\<close> and \<open>INSERT\<close> statements over them. A comparison
  with \<open>NULL\<close> in a \<open>CHECK\<close> is not false, so it does not reject the row (\<open>null_le\<close>,
  \<open>null_less\<close>). Rows of these tables are never deleted by the server, so the foreign keys,
  which always point to a row locked by the same transaction, are not restated.
\<close>

section \<open>Rows\<close>

record product_row =
  pr_id :: product_id
  pr_title :: string
  pr_description :: string
  pr_image_url :: string
  pr_category :: string
  pr_price_cents :: int
  pr_queue_enabled :: bool
  pr_stock :: int
  pr_reserved :: int
  pr_next_sequence :: int
  pr_created_at :: time
  pr_updated_at :: time

text \<open>
  The payloads the server marshals into \<open>notification_outbox.payload\<close>, as the Go structs it
  passes to \<open>json.Marshal\<close>. No other code writes the table.
\<close>

datatype outbox_payload =
    InvitationPayload attempt_id product_id time
  | CompensationPayload uuid string string attempt_id string

datatype outbox_status = OutboxPending | OutboxProcessing | OutboxSent | OutboxFailed

record outbox_row =
  ob_id :: uuid
  ob_attempt :: "attempt_id option"
  ob_event_type :: string
  ob_dedup_key :: string
  ob_payload :: outbox_payload
  ob_payload_hash :: bytes
  ob_status :: outbox_status
  ob_attempt_count :: int
  ob_available_at :: time
  ob_lease_until :: "time option"
  ob_lease_token :: "uuid option"
  ob_lease_generation :: int
  ob_last_error :: "string option"
  ob_created_at :: time
  ob_updated_at :: time
  ob_sent_at :: "time option"

datatype inbox_status = InboxReceived | InboxProcessing | InboxRetry | InboxCompleted | InboxRejected

record inbox_row =
  ib_id :: uuid
  ib_provider :: string
  ib_event_id :: string
  ib_attempt :: attempt_id
  ib_outcome :: payment_outcome
  ib_reference :: "string option"
  ib_payload :: bytes
  ib_payload_hash :: bytes
  ib_status :: inbox_status
  ib_attempt_count :: int
  ib_next_attempt_at :: time
  ib_lease_until :: "time option"
  ib_claim_token :: "uuid option"
  ib_claim_generation :: int
  ib_last_error :: "go_error option"
  ib_response_status :: "int option"
  ib_response_body :: "bytes option"
  ib_created_at :: time
  ib_updated_at :: time
  ib_completed_at :: "time option"

datatype adjustment_status = AdjustmentReceived | AdjustmentApplied | AdjustmentRejected

record adjustment_row =
  ad_id :: uuid
  ad_product :: product_id
  ad_key :: idempotency_key
  ad_delta :: int
  ad_payload_hash :: bytes
  ad_status :: adjustment_status
  ad_before :: "int option"
  ad_after :: "int option"
  ad_response_status :: "int option"
  ad_response_body :: "bytes option"
  ad_completed_at :: "time option"

record db =
  db_products :: "product_row list"
  db_attempts :: "queue_attempt list"
  db_outbox :: "outbox_row list"
  db_inbox :: "inbox_row list"
  db_adjustments :: "adjustment_row list"

section \<open>Constraints of queue_attempts\<close>

fun null_le :: "time option \<Rightarrow> time option \<Rightarrow> bool" where
  "null_le (Some a) (Some b) = (a \<le> b)"
| "null_le _ _ = True"

fun null_less :: "time option \<Rightarrow> time option \<Rightarrow> bool" where
  "null_less (Some a) (Some b) = (a < b)"
| "null_less _ _ = True"

text \<open>\<open>btrim(s) = s\<close>: no leading or trailing space character.\<close>

definition btrimmed :: "string \<Rightarrow> bool" where
  "btrimmed s \<longleftrightarrow> s = [] \<or> (hd s \<noteq> CHR '' '' \<and> last s \<noteq> CHR '' '')"

definition check_identity :: "queue_attempt \<Rightarrow> bool" where
  "check_identity a \<longleftrightarrow>
     1 \<le> qa_sequence a \<and> 1 \<le> qa_version a \<and>
     btrimmed (qa_user a) \<and> 1 \<le> length (qa_user a) \<and> length (qa_user a) \<le> 255 \<and>
     idempotency_key_pattern (qa_key a)"

definition check_timestamps :: "queue_attempt \<Rightarrow> bool" where
  "check_timestamps a \<longleftrightarrow>
     qa_created_at a \<le> qa_updated_at a \<and>
     null_le (Some (qa_created_at a)) (qa_invited_at a) \<and>
     null_le (Some (qa_created_at a)) (qa_checkout_started_at a) \<and>
     null_le (Some (qa_created_at a)) (qa_terminal_at a) \<and>
     null_le (Some (qa_created_at a)) (qa_purchased_at a)"

definition check_invitation_pair :: "queue_attempt \<Rightarrow> bool" where
  "check_invitation_pair a \<longleftrightarrow>
     (qa_invited_at a = None \<and> qa_invitation_deadline a = None) \<or>
     (qa_invited_at a \<noteq> None \<and> qa_invitation_deadline a \<noteq> None \<and>
      null_less (qa_invited_at a) (qa_invitation_deadline a))"

definition check_checkout_pair :: "queue_attempt \<Rightarrow> bool" where
  "check_checkout_pair a \<longleftrightarrow>
     (qa_checkout_started_at a = None \<and> qa_checkout_deadline a = None) \<or>
     (qa_checkout_started_at a \<noteq> None \<and> qa_checkout_deadline a \<noteq> None \<and>
      qa_invited_at a \<noteq> None \<and> qa_invitation_deadline a \<noteq> None \<and>
      null_le (qa_invited_at a) (qa_checkout_started_at a) \<and>
      null_le (qa_checkout_started_at a) (qa_invitation_deadline a) \<and>
      null_less (qa_checkout_started_at a) (qa_checkout_deadline a))"

definition check_terminal_order :: "queue_attempt \<Rightarrow> bool" where
  "check_terminal_order a \<longleftrightarrow>
     qa_terminal_at a = None \<or>
     (null_le (qa_invited_at a) (qa_terminal_at a) \<and>
      null_le (qa_checkout_started_at a) (qa_terminal_at a))"

definition check_terminal_fields :: "queue_attempt \<Rightarrow> bool" where
  "check_terminal_fields a \<longleftrightarrow>
     (if is_active_state (qa_state a)
      then qa_terminal_at a = None \<and> qa_terminal_reason a = None \<and> qa_terminal_message a = None
      else qa_terminal_at a \<noteq> None \<and> qa_terminal_reason a \<noteq> None)"

fun check_state_timestamps :: "queue_attempt \<Rightarrow> bool" where
  "check_state_timestamps a = (case qa_state a of
     Waiting \<Rightarrow> qa_invited_at a = None \<and> qa_checkout_started_at a = None \<and> qa_purchased_at a = None
   | Invited \<Rightarrow> qa_invited_at a \<noteq> None \<and> qa_checkout_started_at a = None \<and> qa_purchased_at a = None
   | Checkout \<Rightarrow> qa_invited_at a \<noteq> None \<and> qa_checkout_started_at a \<noteq> None \<and> qa_purchased_at a = None
   | Purchased \<Rightarrow> qa_invited_at a \<noteq> None \<and> qa_checkout_started_at a \<noteq> None \<and>
       qa_purchased_at a \<noteq> None \<and> (qa_terminal_at a \<noteq> None \<longrightarrow> qa_purchased_at a = qa_terminal_at a)
   | InviteExpired \<Rightarrow> qa_invited_at a \<noteq> None \<and> qa_checkout_started_at a = None \<and>
       qa_purchased_at a = None \<and> null_le (qa_invitation_deadline a) (qa_terminal_at a)
   | CheckoutExpired \<Rightarrow> qa_invited_at a \<noteq> None \<and> qa_checkout_started_at a \<noteq> None \<and>
       qa_purchased_at a = None \<and> null_le (qa_checkout_deadline a) (qa_terminal_at a)
   | PaymentFailedState \<Rightarrow> qa_invited_at a \<noteq> None \<and> qa_checkout_started_at a \<noteq> None \<and>
       qa_purchased_at a = None \<and> null_le (qa_checkout_started_at a) (qa_terminal_at a)
   | SoldOut \<Rightarrow> qa_invited_at a = None \<and> qa_checkout_started_at a = None \<and> qa_purchased_at a = None
   | Cancelled \<Rightarrow> qa_purchased_at a = None)"

declare check_state_timestamps.simps [simp del]

definition check_payment_field :: "nat \<Rightarrow> string option \<Rightarrow> bool" where
  "check_payment_field limit v = (case v of None \<Rightarrow> False
     | Some s \<Rightarrow> btrimmed s \<and> 1 \<le> length s \<and> length s \<le> limit)"

definition check_payment_owner :: "queue_attempt \<Rightarrow> bool" where
  "check_payment_owner a \<longleftrightarrow>
     (if qa_state a = Purchased
      then check_payment_field 64 (qa_accepted_provider a) \<and>
           check_payment_field 200 (qa_accepted_reference a)
      else qa_accepted_provider a = None \<and> qa_accepted_reference a = None)"

definition attempt_checks :: "queue_attempt \<Rightarrow> bool" where
  "attempt_checks a \<longleftrightarrow>
     check_identity a \<and> check_timestamps a \<and> check_invitation_pair a \<and> check_checkout_pair a \<and>
     check_terminal_order a \<and> check_terminal_fields a \<and> check_state_timestamps a \<and>
     check_payment_owner a"

lemmas attempt_check_defs =
  attempt_checks_def check_identity_def check_timestamps_def check_invitation_pair_def
  check_checkout_pair_def check_terminal_order_def check_terminal_fields_def
  check_payment_owner_def

definition same_payment_reference :: "queue_attempt \<Rightarrow> queue_attempt \<Rightarrow> bool" where
  "same_payment_reference a b \<longleftrightarrow>
     qa_state a = Purchased \<and> qa_state b = Purchased \<and>
     qa_accepted_provider a \<noteq> None \<and> qa_accepted_reference a \<noteq> None \<and>
     qa_accepted_provider a = qa_accepted_provider b \<and>
     qa_accepted_reference a = qa_accepted_reference b"

definition both_active :: "queue_attempt \<Rightarrow> queue_attempt \<Rightarrow> bool" where
  "both_active a b \<longleftrightarrow>
     is_active_state (qa_state a) \<and> is_active_state (qa_state b) \<and>
     qa_user a = qa_user b \<and> qa_product a = qa_product b"

definition attempt_violation :: "queue_attempt constraint_check" where
  "attempt_violation a others =
     (if \<not> attempt_checks a then Some ''queue_attempts_check''
      else if list_ex (\<lambda>b. qa_id b = qa_id a) others then Some ''queue_attempts_pkey''
      else if list_ex (\<lambda>b. qa_product b = qa_product a \<and> qa_sequence b = qa_sequence a) others
      then Some ''queue_attempts_product_sequence_unique''
      else if list_ex (\<lambda>b. qa_user b = qa_user a \<and> qa_product b = qa_product a \<and> qa_key b = qa_key a) others
      then Some ''queue_attempts_idempotency_unique''
      else if list_ex (both_active a) others
      then Some ''queue_attempts_one_active_per_user_product_idx''
      else if list_ex (same_payment_reference a) others
      then Some ''queue_attempts_accepted_payment_reference_unique_idx''
      else None)"

lemma attempt_violation_None:
  "attempt_violation a others = None \<longleftrightarrow>
     attempt_checks a \<and>
     (\<forall>b\<in>set others. qa_id b \<noteq> qa_id a \<and>
        \<not> (qa_product b = qa_product a \<and> qa_sequence b = qa_sequence a) \<and>
        \<not> (qa_user b = qa_user a \<and> qa_product b = qa_product a \<and> qa_key b = qa_key a) \<and>
        \<not> both_active a b \<and> \<not> same_payment_reference a b)"
  by (auto simp: attempt_violation_def list_ex_iff)

section \<open>Constraints of the other tables\<close>

definition product_violation :: "product_row constraint_check" where
  "product_violation p others =
     (if \<not> (0 \<le> pr_stock p \<and> pr_stock p \<le> max_int32 \<and> 0 \<le> pr_reserved p \<and>
            1 \<le> pr_next_sequence p \<and> pr_created_at p \<le> pr_updated_at p)
      then Some ''products_check''
      else if \<not> pr_reserved p \<le> pr_stock p then Some ''check_reserved_leq_allocatable''
      else if list_ex (\<lambda>q. pr_id q = pr_id p) others then Some ''products_pkey''
      else None)"

text \<open>The range of the \<open>INTEGER\<close> and \<open>BIGINT\<close> columns is part of the check.\<close>

definition outbox_checks :: "outbox_row \<Rightarrow> bool" where
  "outbox_checks r \<longleftrightarrow>
     length (ob_dedup_key r) \<le> 200 \<and> btrimmed (ob_dedup_key r) \<and> ob_dedup_key r \<noteq> [] \<and>
     length (ob_event_type r) \<le> 100 \<and> btrimmed (ob_event_type r) \<and> ob_event_type r \<noteq> [] \<and>
     length (ob_payload_hash r) = 32 \<and> 0 \<le> ob_attempt_count r \<and> ob_attempt_count r \<le> max_int32 \<and>
     0 \<le> ob_lease_generation r \<and> ob_lease_generation r \<le> max_int64 \<and>
     ob_created_at r \<le> ob_updated_at r \<and>
     (ob_lease_until r = None) = (ob_lease_token r = None) \<and>
     (ob_status r = OutboxProcessing) = (ob_lease_until r \<noteq> None) \<and>
     (ob_status r = OutboxSent) = (ob_sent_at r \<noteq> None)"

definition outbox_violation :: "outbox_row constraint_check" where
  "outbox_violation r others =
     (if \<not> outbox_checks r then Some ''notification_outbox_check''
      else if list_ex (\<lambda>q. ob_id q = ob_id r) others then Some ''notification_outbox_pkey''
      else if list_ex (\<lambda>q. ob_dedup_key q = ob_dedup_key r) others
      then Some ''notification_outbox_deduplication_key_key''
      else None)"

definition inbox_final :: "inbox_status \<Rightarrow> bool" where
  "inbox_final s \<longleftrightarrow> s = InboxCompleted \<or> s = InboxRejected"

definition inbox_checks :: "inbox_row \<Rightarrow> bool" where
  "inbox_checks r \<longleftrightarrow>
     check_payment_field 64 (Some (ib_provider r)) \<and>
     check_payment_field 200 (Some (ib_event_id r)) \<and>
     (if ib_outcome r = PaymentSucceeded then check_payment_field 200 (ib_reference r)
      else ib_reference r = None) \<and>
     length (ib_payload_hash r) = 32 \<and> 0 \<le> ib_attempt_count r \<and> ib_attempt_count r \<le> max_int32 \<and>
     0 \<le> ib_claim_generation r \<and> ib_claim_generation r \<le> max_int64 \<and>
     ib_created_at r \<le> ib_updated_at r \<and>
     (ib_lease_until r = None) = (ib_claim_token r = None) \<and>
     (ib_status r = InboxProcessing) = (ib_lease_until r \<noteq> None) \<and>
     (ib_response_status r = None) = (ib_response_body r = None) \<and>
     (case ib_response_status r of None \<Rightarrow> True | Some s \<Rightarrow> 100 \<le> s \<and> s \<le> 599) \<and>
     (if inbox_final (ib_status r)
      then ib_response_status r \<noteq> None \<and> ib_completed_at r \<noteq> None
      else ib_completed_at r = None)"

definition inbox_violation :: "inbox_row constraint_check" where
  "inbox_violation r others =
     (if \<not> inbox_checks r then Some ''payment_inbox_check''
      else if list_ex (\<lambda>q. ib_id q = ib_id r) others then Some ''payment_inbox_pkey''
      else if list_ex (\<lambda>q. ib_provider q = ib_provider r \<and> ib_event_id q = ib_event_id r) others
      then Some ''payment_inbox_provider_event_unique''
      else None)"

definition adjustment_violation :: "adjustment_row constraint_check" where
  "adjustment_violation r others =
     (if \<not> (idempotency_key_pattern (ad_key r) \<and> ad_delta r \<noteq> 0 \<and> length (ad_payload_hash r) = 32 \<and>
            (case (ad_before r, ad_after r) of
               (None, None) \<Rightarrow> True
             | (Some b, Some a) \<Rightarrow> 0 \<le> b \<and> 0 \<le> a \<and> b + ad_delta r = a
             | _ \<Rightarrow> True) \<and>
            (ad_response_status r = None) = (ad_response_body r = None) \<and>
            (if ad_status r = AdjustmentReceived then ad_completed_at r = None
             else ad_response_status r \<noteq> None \<and> ad_completed_at r \<noteq> None))
      then Some ''inventory_adjustments_check''
      else if list_ex (\<lambda>q. ad_id q = ad_id r) others then Some ''inventory_adjustments_pkey''
      else if list_ex (\<lambda>q. ad_product q = ad_product r \<and> ad_key q = ad_key r) others
      then Some ''inventory_adjustments_product_key_unique''
      else None)"

section \<open>Statements\<close>

text \<open>A constraint violation reaches the Go code as a \<open>pgconn.PgError\<close>.\<close>

definition pg_result :: "string + 'a \<Rightarrow> go_error + 'a" where
  "pg_result r = (case r of Inl c \<Rightarrow> Inl (PgConstraint c) | Inr x \<Rightarrow> Inr x)"

lemma pg_result_Inr [simp]: "pg_result r = Inr x \<longleftrightarrow> r = Inr x"
  by (cases r) (auto simp: pg_result_def)

lemma pg_result_of_Inr [simp]: "pg_result (Inr x) = Inr x"
  by (simp add: pg_result_def)

definition update_attempts ::
  "(queue_attempt \<Rightarrow> bool) \<Rightarrow> (queue_attempt \<Rightarrow> queue_attempt) \<Rightarrow> db \<Rightarrow> go_error + (db \<times> nat)" where
  "update_attempts P f d =
     bindE (pg_result (sql_update attempt_violation P f (db_attempts d)))
       (\<lambda>(t, n). Inr (d\<lparr>db_attempts := t\<rparr>, n))"

definition update_products ::
  "(product_row \<Rightarrow> bool) \<Rightarrow> (product_row \<Rightarrow> product_row) \<Rightarrow> db \<Rightarrow> go_error + (db \<times> nat)" where
  "update_products P f d =
     bindE (pg_result (sql_update product_violation P f (db_products d)))
       (\<lambda>(t, n). Inr (d\<lparr>db_products := t\<rparr>, n))"

definition update_outbox ::
  "(outbox_row \<Rightarrow> bool) \<Rightarrow> (outbox_row \<Rightarrow> outbox_row) \<Rightarrow> db \<Rightarrow> go_error + (db \<times> nat)" where
  "update_outbox P f d =
     bindE (pg_result (sql_update outbox_violation P f (db_outbox d)))
       (\<lambda>(t, n). Inr (d\<lparr>db_outbox := t\<rparr>, n))"

definition update_inbox ::
  "(inbox_row \<Rightarrow> bool) \<Rightarrow> (inbox_row \<Rightarrow> inbox_row) \<Rightarrow> db \<Rightarrow> go_error + (db \<times> nat)" where
  "update_inbox P f d =
     bindE (pg_result (sql_update inbox_violation P f (db_inbox d)))
       (\<lambda>(t, n). Inr (d\<lparr>db_inbox := t\<rparr>, n))"

definition insert_attempt :: "queue_attempt \<Rightarrow> db \<Rightarrow> go_error + db" where
  "insert_attempt r d =
     bindE (pg_result (sql_insert attempt_violation r (db_attempts d))) (\<lambda>t. Inr (d\<lparr>db_attempts := t\<rparr>))"

definition insert_outbox :: "outbox_row \<Rightarrow> db \<Rightarrow> go_error + db" where
  "insert_outbox r d =
     bindE (pg_result (sql_insert outbox_violation r (db_outbox d))) (\<lambda>t. Inr (d\<lparr>db_outbox := t\<rparr>))"

text \<open>
  \<open>INSERT ... ON CONFLICT (key) DO NOTHING\<close>: the checks of the row are evaluated first, then a
  row with the same key makes the statement a no-op.
\<close>

definition insert_outbox_once :: "outbox_row \<Rightarrow> db \<Rightarrow> go_error + db" where
  "insert_outbox_once r d =
     (if outbox_checks r \<and> list_ex (\<lambda>q. ob_dedup_key q = ob_dedup_key r) (db_outbox d)
      then Inr d else insert_outbox r d)"

definition insert_inbox_once :: "inbox_row \<Rightarrow> db \<Rightarrow> go_error + db" where
  "insert_inbox_once r d =
     (if inbox_checks r \<and>
         list_ex (\<lambda>q. ib_provider q = ib_provider r \<and> ib_event_id q = ib_event_id r) (db_inbox d)
      then Inr d
      else bindE (pg_result (sql_insert inbox_violation r (db_inbox d))) (\<lambda>t. Inr (d\<lparr>db_inbox := t\<rparr>)))"

definition insert_adjustment :: "adjustment_row \<Rightarrow> db \<Rightarrow> go_error + db" where
  "insert_adjustment r d =
     bindE (pg_result (sql_insert adjustment_violation r (db_adjustments d)))
       (\<lambda>t. Inr (d\<lparr>db_adjustments := t\<rparr>))"

lemmas statement_defs =
  update_attempts_def update_products_def update_outbox_def update_inbox_def
  insert_attempt_def insert_outbox_def insert_adjustment_def

end
