(* ===== verification/Transaction.thy ===== *)
theory Transaction
  imports Schema
begin

text \<open>
  The transaction of the queue repository (\<open>internal/repository/postgres/queue_attempt.go\<close>):
  the repository, the outside world a transaction observes (clock readings, fresh UUIDs), the
  \<open>transactionState\<close> with its copy of the product row and of the locked attempts, the locking
  queries, the lookups over the locked attempts, and every guarded state transition of one
  attempt. A transition writes the database row and the in-memory copy, as the code does.
\<close>

section \<open>Repository, environment and transaction state\<close>

text \<open>
  \<open>rp_buffer_percent\<close> is what \<open>CurrentWaitingBufferPercent()\<close> returns during the call.
  Durations are whole units of \<open>time\<close>.
\<close>

record repo =
  rp_invitation_ttl :: time
  rp_checkout_ttl :: time
  rp_buffer_percent :: int

text \<open>
  \<open>en_clock\<close> is the \<open>SELECT clock_timestamp()\<close> issued after the product lock,
  \<open>en_stmt_clock\<close> a \<open>clock_timestamp()\<close> inside a later statement, \<open>en_select_clock\<close> the one
  inside the selection of a product to reconcile; \<open>en_uuid k\<close> is the \<open>k\<close>-th \<open>uuid.New()\<close>
  of the call, \<open>en_payload_hash\<close> is \<open>sha256.Sum256\<close> of the marshalled payload and
  \<open>en_row_locked\<close> marks the rows a \<open>SKIP LOCKED\<close> query skips because another transaction
  holds them.
\<close>

record env =
  en_ext :: externals
  en_clock :: time
  en_stmt_clock :: time
  en_select_clock :: time
  en_uuid :: "nat \<Rightarrow> uuid"
  en_payload_hash :: "outbox_payload \<Rightarrow> bytes"
  en_row_locked :: "uuid \<Rightarrow> bool"

record locked_product =
  lp_id :: product_id
  lp_stock :: int
  lp_reserved :: int
  lp_next_sequence :: int
  lp_queue_enabled :: bool

record tx_state =
  tx_db :: db
  tx_product :: locked_product
  tx_now :: time
  tx_attempts :: "queue_attempt list"
  tx_draws :: nat

record attempt_lock_scope =
  ls_user :: user_id
  ls_key :: idempotency_key
  ls_attempt :: attempt_id
  ls_include_latest :: bool

definition no_scope :: attempt_lock_scope where
  "no_scope = \<lparr>ls_user = [], ls_key = [], ls_attempt = 0, ls_include_latest = False\<rparr>"

section \<open>Locking queries\<close>

definition locked_of_row :: "product_row \<Rightarrow> locked_product" where
  "locked_of_row p = \<lparr>lp_id = pr_id p, lp_stock = pr_stock p, lp_reserved = pr_reserved p,
     lp_next_sequence = pr_next_sequence p, lp_queue_enabled = pr_queue_enabled p\<rparr>"

definition lock_product :: "db \<Rightarrow> product_id \<Rightarrow> go_error + locked_product" where
  "lock_product d pid = (case find (\<lambda>p. pr_id p = pid) (db_products d) of
     None \<Rightarrow> Inl (Sentinel ErrNotFound)
   | Some p \<Rightarrow> Inr (locked_of_row p))"

definition attempt_order :: "queue_attempt \<Rightarrow> int \<times> uuid" where
  "attempt_order a = (qa_sequence a, qa_id a)"

text \<open>The subquery \<open>ORDER BY queue_sequence DESC, id DESC LIMIT 1\<close> for one user.\<close>

definition latest_attempt_id :: "product_id \<Rightarrow> user_id \<Rightarrow> queue_attempt list \<Rightarrow> attempt_id option" where
  "latest_attempt_id pid user rows =
     (case rev (sort_key attempt_order (filter (\<lambda>a. qa_product a = pid \<and> qa_user a = user) rows)) of
        [] \<Rightarrow> None | a # _ \<Rightarrow> Some (qa_id a))"

definition in_lock_scope ::
  "product_id \<Rightarrow> attempt_lock_scope \<Rightarrow> queue_attempt list \<Rightarrow> queue_attempt \<Rightarrow> bool" where
  "in_lock_scope pid scope rows a \<longleftrightarrow> qa_product a = pid \<and>
     (is_active_state (qa_state a) \<or>
      (ls_user scope \<noteq> [] \<and> ls_key scope \<noteq> [] \<and>
       qa_user a = ls_user scope \<and> qa_key a = ls_key scope) \<or>
      (ls_include_latest scope \<and> ls_user scope \<noteq> [] \<and>
       latest_attempt_id pid (ls_user scope) rows = Some (qa_id a)) \<or>
      (ls_attempt scope \<noteq> 0 \<and> qa_id a = ls_attempt scope))"

definition lock_product_attempts :: "db \<Rightarrow> product_id \<Rightarrow> attempt_lock_scope \<Rightarrow> queue_attempt list" where
  "lock_product_attempts d pid scope =
     sort_key attempt_order (filter (in_lock_scope pid scope (db_attempts d)) (db_attempts d))"

section \<open>Lookups over the locked attempts\<close>

definition find_replay :: "queue_attempt list \<Rightarrow> user_id \<Rightarrow> idempotency_key \<Rightarrow> queue_attempt option" where
  "find_replay attempts user key = find (\<lambda>a. qa_user a = user \<and> qa_key a = key) attempts"

definition find_active_attempt :: "queue_attempt list \<Rightarrow> user_id \<Rightarrow> queue_attempt option" where
  "find_active_attempt attempts user =
     find (\<lambda>a. qa_user a = user \<and> is_active_state (qa_state a)) attempts"

definition latest_attempt_for_user :: "queue_attempt list \<Rightarrow> user_id \<Rightarrow> queue_attempt option" where
  "latest_attempt_for_user attempts user = find (\<lambda>a. qa_user a = user) (rev attempts)"

definition find_attempt_by_id :: "queue_attempt list \<Rightarrow> attempt_id \<Rightarrow> queue_attempt option" where
  "find_attempt_by_id attempts aid = find (\<lambda>a. qa_id a = aid) attempts"

definition count_waiting :: "queue_attempt list \<Rightarrow> int" where
  "count_waiting attempts = int (length (filter (\<lambda>a. qa_state a = Waiting) attempts))"

definition count_waiting_ahead :: "queue_attempt list \<Rightarrow> int \<Rightarrow> int" where
  "count_waiting_ahead attempts sequence =
     int (length (filter (\<lambda>a. qa_state a = Waiting \<and> qa_sequence a < sequence) attempts))"

text \<open>\<open>!now.Before(*deadline)\<close>; a nil deadline panics.\<close>

definition deadline_passed :: "time \<Rightarrow> time option \<Rightarrow> go_error + bool" where
  "deadline_passed now d = (case d of None \<Rightarrow> Inl Panic | Some t \<Rightarrow> Inr (\<not> now < t))"

definition is_effective_at :: "queue_attempt \<Rightarrow> time \<Rightarrow> go_error + bool" where
  "is_effective_at a now = (case qa_state a of
     Invited \<Rightarrow> bindE (deadline_passed now (qa_invitation_deadline a)) (\<lambda>b. Inr (\<not> b))
   | Checkout \<Rightarrow> bindE (deadline_passed now (qa_checkout_deadline a)) (\<lambda>b. Inr (\<not> b))
   | Waiting \<Rightarrow> Inr True
   | _ \<Rightarrow> Inr False)"

section \<open>Statement helpers\<close>

definition require_one_row :: "nat \<Rightarrow> go_error + unit" where
  "require_one_row affected = guardE (affected = 1) (Wrapped [Sentinel ErrConflict])"

lemma require_one_row_Inr [simp]: "require_one_row n = Inr u \<longleftrightarrow> n = 1"
  by (simp add: require_one_row_def)

definition map_postgresql_error :: "go_error \<Rightarrow> go_error" where
  "map_postgresql_error e = (case as_pg_constraint e of
     None \<Rightarrow> e
   | Some c \<Rightarrow>
       if c = ''inventory_adjustments_product_key_unique'' then Wrapped [Sentinel ErrAdjustmentConflict]
       else if c \<in> set [''queue_attempts_idempotency_unique'',
                         ''queue_attempts_one_active_per_user_product_idx'',
                         ''queue_attempts_product_sequence_unique'',
                         ''queue_attempts_accepted_payment_reference_unique_idx'',
                         ''notification_outbox_deduplication_key_key'']
       then Wrapped [Sentinel ErrConflict]
       else Wrapped [e])"

definition map_error :: "(go_error \<Rightarrow> go_error) \<Rightarrow> go_error + 'a \<Rightarrow> go_error + 'a" where
  "map_error f m = (case m of Inl e \<Rightarrow> Inl (f e) | Inr x \<Rightarrow> Inr x)"

lemma map_error_Inr [simp]: "map_error f m = Inr x \<longleftrightarrow> m = Inr x"
  by (cases m) (auto simp: map_error_def)

definition draw_uuid :: "env \<Rightarrow> tx_state \<Rightarrow> uuid \<times> tx_state" where
  "draw_uuid env st = (en_uuid env (tx_draws st), st\<lparr>tx_draws := Suc (tx_draws st)\<rparr>)"

text \<open>\<open>WHERE id=... AND state=... AND version=...\<close>, the guard of every transition.\<close>

definition guarded_row :: "attempt_id \<Rightarrow> attempt_state \<Rightarrow> int \<Rightarrow> queue_attempt \<Rightarrow> bool" where
  "guarded_row aid s v r \<longleftrightarrow> qa_id r = aid \<and> qa_state r = s \<and> qa_version r = v"

section \<open>Transitions of one attempt\<close>

definition set_terminal :: "attempt_state \<Rightarrow> string \<Rightarrow> time \<Rightarrow> queue_attempt \<Rightarrow> queue_attempt" where
  "set_terminal s reason now r = r\<lparr>qa_state := s, qa_terminal_at := Some now,
     qa_terminal_reason := Some reason, qa_terminal_message := Some reason,
     qa_updated_at := now, qa_version := qa_version r + 1\<rparr>"

definition transition_to_expired ::
  "db \<Rightarrow> queue_attempt \<Rightarrow> time \<Rightarrow> attempt_state \<Rightarrow> string \<Rightarrow> go_error + (db \<times> queue_attempt)" where
  "transition_to_expired d a now s reason =
     bindE (update_attempts (guarded_row (qa_id a) (qa_state a) (qa_version a))
              (set_terminal s reason now) d) (\<lambda>(d', n).
     bindE (require_one_row n) (\<lambda>_.
     Inr (d', set_terminal s reason now a)))"

definition transition_waiting_to_sold_out ::
  "db \<Rightarrow> queue_attempt \<Rightarrow> time \<Rightarrow> go_error + (db \<times> queue_attempt)" where
  "transition_waiting_to_sold_out d a now =
     bindE (update_attempts (guarded_row (qa_id a) Waiting (qa_version a))
              (set_terminal SoldOut ''sold_out'' now) d) (\<lambda>(d', n).
     bindE (require_one_row n) (\<lambda>_.
     Inr (d', set_terminal SoldOut ''sold_out'' now a)))"

definition set_invited :: "time \<Rightarrow> time \<Rightarrow> int \<Rightarrow> queue_attempt \<Rightarrow> queue_attempt" where
  "set_invited now deadline v r = r\<lparr>qa_state := Invited, qa_invited_at := Some now,
     qa_invitation_deadline := Some deadline, qa_updated_at := now, qa_version := v\<rparr>"

definition invitation_event_type :: string where "invitation_event_type = ''queue.invited''"

definition invitation_dedup_key :: "externals \<Rightarrow> attempt_id \<Rightarrow> int \<Rightarrow> string" where
  "invitation_dedup_key ext aid v =
     ''queue.invited:'' @ ext_uuid_string ext aid @ '':v'' @ show_int v"

text \<open>A new outbox row: the column defaults of the table with the values the code inserts.\<close>

definition new_outbox_row ::
  "uuid \<Rightarrow> attempt_id \<Rightarrow> string \<Rightarrow> string \<Rightarrow> outbox_payload \<Rightarrow> bytes \<Rightarrow> time \<Rightarrow> outbox_row" where
  "new_outbox_row oid aid event dedup payload digest now =
     \<lparr>ob_id = oid, ob_attempt = Some aid, ob_event_type = event, ob_dedup_key = dedup,
      ob_payload = payload, ob_payload_hash = digest, ob_status = OutboxPending,
      ob_attempt_count = 0, ob_available_at = now, ob_lease_until = None, ob_lease_token = None,
      ob_lease_generation = 0, ob_last_error = None, ob_created_at = now, ob_updated_at = now,
      ob_sent_at = None\<rparr>"

definition promote_waiting_attempt ::
  "repo \<Rightarrow> env \<Rightarrow> tx_state \<Rightarrow> queue_attempt \<Rightarrow> go_error + (tx_state \<times> queue_attempt)" where
  "promote_waiting_attempt rp env st a =
     (let deadline = tx_now st + rp_invitation_ttl rp;
          new_version = i64 (qa_version a + 1);
          payload = InvitationPayload (qa_id a) (qa_product a) deadline
      in
      bindE (update_attempts (guarded_row (qa_id a) Waiting (qa_version a))
               (set_invited (tx_now st) deadline new_version) (tx_db st)) (\<lambda>(d', n).
      bindE (require_one_row n) (\<lambda>_.
      let (oid, st') = draw_uuid env st in
      bindE (map_error map_postgresql_error
               (insert_outbox (new_outbox_row oid (qa_id a) invitation_event_type
                  (invitation_dedup_key (en_ext env) (qa_id a) new_version)
                  payload (en_payload_hash env payload) (tx_now st)) d')) (\<lambda>d''.
      Inr (st'\<lparr>tx_db := d''\<rparr>, set_invited (tx_now st) deadline new_version a)))))"

definition set_checkout :: "time \<Rightarrow> time \<Rightarrow> queue_attempt \<Rightarrow> queue_attempt" where
  "set_checkout now deadline r = r\<lparr>qa_state := Checkout, qa_checkout_started_at := Some now,
     qa_checkout_deadline := Some deadline, qa_updated_at := now, qa_version := qa_version r + 1\<rparr>"

text \<open>\<open>transitionToCheckout\<close> works on a copy: the in-memory list keeps the old attempt.\<close>

definition transition_to_checkout ::
  "tx_state \<Rightarrow> queue_attempt \<Rightarrow> time \<Rightarrow> go_error + (tx_state \<times> queue_attempt)" where
  "transition_to_checkout st a deadline =
     bindE (update_attempts (guarded_row (qa_id a) Invited (qa_version a))
              (set_checkout (tx_now st) deadline) (tx_db st)) (\<lambda>(d', n).
     bindE (require_one_row n) (\<lambda>_.
     Inr (st\<lparr>tx_db := d'\<rparr>, set_checkout (tx_now st) deadline a)))"

text \<open>The in-memory replacement by ID at the end of \<open>transitionToCancelled\<close>.\<close>

fun replace_by_id :: "queue_attempt \<Rightarrow> queue_attempt list \<Rightarrow> queue_attempt list" where
  "replace_by_id a [] = []"
| "replace_by_id a (b # bs) = (if qa_id b = qa_id a then a # bs else b # replace_by_id a bs)"

definition release_reservation :: "tx_state \<Rightarrow> go_error + tx_state" where
  "release_reservation st =
     bindE (update_products (\<lambda>p. pr_id p = lp_id (tx_product st) \<and>
                pr_reserved p = lp_reserved (tx_product st) \<and> pr_reserved p > 0)
              (\<lambda>p. p\<lparr>pr_reserved := pr_reserved p - 1, pr_updated_at := tx_now st\<rparr>)
              (tx_db st)) (\<lambda>(d', n).
     bindE (require_one_row n) (\<lambda>_.
     Inr (st\<lparr>tx_db := d', tx_product := (tx_product st)
            \<lparr>lp_reserved := i32 (lp_reserved (tx_product st) - 1)\<rparr>\<rparr>)))"

definition transition_to_cancelled ::
  "tx_state \<Rightarrow> queue_attempt \<Rightarrow> go_error + (tx_state \<times> queue_attempt)" where
  "transition_to_cancelled st a =
     (let cancelled = set_terminal Cancelled ''cancelled'' (tx_now st) a in
      bindE (update_attempts (guarded_row (qa_id a) (qa_state a) (qa_version a))
               (set_terminal Cancelled ''cancelled'' (tx_now st)) (tx_db st)) (\<lambda>(d', n).
      bindE (require_one_row n) (\<lambda>_.
      bindE (if reserves_stock (qa_state a) then release_reservation (st\<lparr>tx_db := d'\<rparr>)
             else Inr (st\<lparr>tx_db := d'\<rparr>)) (\<lambda>st'.
      Inr (st'\<lparr>tx_attempts := replace_by_id cancelled (tx_attempts st')\<rparr>, cancelled)))))"

end
