(* ===== verification/Invariant.thy ===== *)
theory Invariant
  imports Transaction
begin

text \<open>
  What holds between transactions and inside one. \<open>db_inv\<close> is the database invariant: every
  row passes its constraints, rows are pairwise compatible with the unique indexes, and each
  product's \<open>reserved\<close> column counts its invited and checkout attempts, which the schema does
  not enforce. \<open>locked_inv\<close> relates a transaction's in-memory copy to the database while an
  operation runs. \<open>attempt_step\<close> is the state machine of an attempt, with one rule per
  transition of the code; \<open>tx_frame\<close> says what a transaction leaves alone.
\<close>

section \<open>The state machine of an attempt\<close>

definition set_purchased :: "string \<Rightarrow> string \<Rightarrow> time \<Rightarrow> queue_attempt \<Rightarrow> queue_attempt" where
  "set_purchased provider reference now r =
     (set_terminal Purchased ''purchased'' now r)\<lparr>qa_purchased_at := Some now,
        qa_accepted_provider := Some provider, qa_accepted_reference := Some reference\<rparr>"

inductive attempt_step :: "queue_attempt \<Rightarrow> queue_attempt \<Rightarrow> bool" where
  expire_invitation: "qa_state a = Invited \<Longrightarrow> qa_invitation_deadline a = Some t \<Longrightarrow> t \<le> now \<Longrightarrow>
     attempt_step a (set_terminal InviteExpired ''invite_expired'' now a)"
| expire_checkout: "qa_state a = Checkout \<Longrightarrow> qa_checkout_deadline a = Some t \<Longrightarrow> t \<le> now \<Longrightarrow>
     attempt_step a (set_terminal CheckoutExpired ''checkout_expired'' now a)"
| sell_out: "qa_state a = Waiting \<Longrightarrow> attempt_step a (set_terminal SoldOut ''sold_out'' now a)"
| promote: "qa_state a = Waiting \<Longrightarrow> v = qa_version a + 1 \<Longrightarrow>
     attempt_step a (set_invited now deadline v a)"
| start_checkout: "qa_state a = Invited \<Longrightarrow> attempt_step a (set_checkout now deadline a)"
| cancel: "is_active_state (qa_state a) \<Longrightarrow>
     attempt_step a (set_terminal Cancelled ''cancelled'' now a)"
| purchase: "qa_state a = Checkout \<Longrightarrow> attempt_step a (set_purchased provider reference now a)"
| fail_payment: "qa_state a = Checkout \<Longrightarrow>
     attempt_step a (set_terminal PaymentFailedState ''payment_failed'' now a)"

inductive_cases attempt_stepE: "attempt_step a b"

definition attempt_evolves :: "queue_attempt \<Rightarrow> queue_attempt \<Rightarrow> bool" where
  "attempt_evolves = attempt_step\<^sup>*\<^sup>*"

definition attempt_ident ::
  "queue_attempt \<Rightarrow> attempt_id \<times> product_id \<times> int \<times> user_id \<times> idempotency_key \<times> time" where
  "attempt_ident a = (qa_id a, qa_product a, qa_sequence a, qa_user a, qa_key a, qa_created_at a)"

lemmas setter_defs = set_terminal_def set_invited_def set_checkout_def set_purchased_def

lemma attempt_step_ident: "attempt_step a b \<Longrightarrow> attempt_ident b = attempt_ident a"
  by (erule attempt_stepE) (simp_all add: setter_defs attempt_ident_def)

lemma attempt_step_active: "attempt_step a b \<Longrightarrow> is_active_state (qa_state a)"
  by (erule attempt_stepE) (simp_all add: is_active_state_def)

lemma attempt_step_version: "attempt_step a b \<Longrightarrow> qa_version b = qa_version a + 1"
  by (erule attempt_stepE) (simp_all add: setter_defs)

lemma attempt_evolves_refl [simp, intro]: "attempt_evolves a a"
  by (simp add: attempt_evolves_def)

lemma attempt_evolves_step: "attempt_step a b \<Longrightarrow> attempt_evolves a b"
  by (auto simp: attempt_evolves_def)

lemma attempt_evolves_trans [trans]:
  "attempt_evolves a b \<Longrightarrow> attempt_evolves b c \<Longrightarrow> attempt_evolves a c"
  by (auto simp: attempt_evolves_def)

lemma attempt_evolves_ident: "attempt_evolves a b \<Longrightarrow> attempt_ident b = attempt_ident a"
  unfolding attempt_evolves_def
  by (induction rule: rtranclp_induct) (auto dest: attempt_step_ident)

lemma attempt_evolves_final:
  assumes "attempt_evolves a b" and "\<not> is_active_state (qa_state a)"
  shows "b = a"
  using assms unfolding attempt_evolves_def
  by (induction rule: rtranclp_induct) (auto dest: attempt_step_active)

lemma attempt_evolves_version: "attempt_evolves a b \<Longrightarrow> qa_version a \<le> qa_version b"
  unfolding attempt_evolves_def
  by (induction rule: rtranclp_induct) (auto dest: attempt_step_version)

section \<open>Rows\<close>

fun max_version :: "attempt_state \<Rightarrow> int" where
  "max_version Waiting = 1"
| "max_version Invited = 2"
| "max_version Checkout = 3"
| "max_version _ = 4"

definition row_ok :: "queue_attempt \<Rightarrow> bool" where
  "row_ok a \<longleftrightarrow> attempt_checks a \<and> 1 \<le> qa_version a \<and> qa_version a \<le> max_version (qa_state a)"

definition compatible :: "queue_attempt \<Rightarrow> queue_attempt \<Rightarrow> bool" where
  "compatible a b \<longleftrightarrow> qa_id b \<noteq> qa_id a \<and>
     \<not> (qa_product b = qa_product a \<and> qa_sequence b = qa_sequence a) \<and>
     \<not> (qa_user b = qa_user a \<and> qa_product b = qa_product a \<and> qa_key b = qa_key a) \<and>
     \<not> both_active a b \<and> \<not> same_payment_reference a b"

lemma both_active_sym: "both_active a b \<longleftrightarrow> both_active b a"
  unfolding both_active_def by metis

lemma same_payment_reference_sym: "same_payment_reference a b \<longleftrightarrow> same_payment_reference b a"
  unfolding same_payment_reference_def by metis

lemma compatible_sym: "compatible a b \<longleftrightarrow> compatible b a"
  unfolding compatible_def both_active_sym [of a] same_payment_reference_sym [of a] by metis

lemma violation_None_compatible:
  "attempt_violation a others = None \<longleftrightarrow> attempt_checks a \<and> (\<forall>b\<in>set others. compatible a b)"
  by (auto simp: attempt_violation_None compatible_def)

definition attempts_inv :: "queue_attempt list \<Rightarrow> bool" where
  "attempts_inv t \<longleftrightarrow> (\<forall>a\<in>set t. row_ok a) \<and> sorted_wrt compatible t"

lemma attempts_inv_ids: "attempts_inv t \<Longrightarrow> distinct (map qa_id t)"
  unfolding attempts_inv_def sorted_wrt_neq [symmetric]
  by (auto elim!: sorted_wrt_weaken simp: compatible_def)

lemma attempts_inv_distinct: "attempts_inv t \<Longrightarrow> distinct t"
  by (drule attempts_inv_ids) (simp add: distinct_map)

lemma attempts_inv_pair:
  assumes "attempts_inv t" and "a \<in> set t" and "b \<in> set t" and "a \<noteq> b"
  shows "compatible a b"
proof -
  have "sorted_wrt compatible t" using assms(1) by (simp add: attempts_inv_def)
  with assms(2-) show ?thesis
    by (induction t) (auto simp: compatible_sym)
qed

lemma attempts_inv_id_eq:
  "attempts_inv t \<Longrightarrow> a \<in> set t \<Longrightarrow> b \<in> set t \<Longrightarrow> qa_id a = qa_id b \<Longrightarrow> a = b"
  using attempts_inv_pair by (fastforce simp: compatible_def)

lemma attempts_inv_replace:
  assumes "attempts_inv (pre @ a # post)" and "attempt_violation b (pre @ post) = None" and "row_ok b"
  shows "attempts_inv (pre @ b # post)"
  using assms
  by (auto simp: attempts_inv_def sorted_wrt_append violation_None_compatible compatible_sym)

lemma attempts_inv_insert:
  assumes "attempts_inv t" and "attempt_violation b t = None" and "row_ok b"
  shows "attempts_inv (t @ [b])"
  using assms
  by (auto simp: attempts_inv_def sorted_wrt_append violation_None_compatible compatible_sym)

text \<open>One row of the attempts table replaced by a new version.\<close>

definition attempt_replaced :: "db \<Rightarrow> queue_attempt \<Rightarrow> queue_attempt \<Rightarrow> db \<Rightarrow> bool" where
  "attempt_replaced d a b d' \<longleftrightarrow> (\<exists>pre post. db_attempts d = pre @ a # post \<and>
     d' = d\<lparr>db_attempts := pre @ b # post\<rparr> \<and> attempt_violation b (pre @ post) = None)"

lemma guarded_row_unique:
  assumes "attempts_inv (pre @ a # post)"
  shows "\<forall>x\<in>set pre \<union> set post. \<not> guarded_row (qa_id a) s v x"
proof -
  have "qa_id a \<notin> qa_id ` (set pre \<union> set post)"
    using attempts_inv_ids [OF assms] by (auto simp: image_Un)
  then show ?thesis unfolding guarded_row_def by (metis imageI)
qed

lemma update_guarded:
  assumes inv: "attempts_inv (db_attempts d)" and a: "db_attempts d = pre @ a # post"
    and guard: "s = qa_state a" "v = qa_version a"
  shows "update_attempts (guarded_row (qa_id a) s v) f d =
    (case attempt_violation (f a) (pre @ post) of Some c \<Rightarrow> Inl (PgConstraint c)
     | None \<Rightarrow> Inr (d\<lparr>db_attempts := pre @ f a # post\<rparr>, 1))"
proof -
  have "guarded_row (qa_id a) s v a" by (simp add: guarded_row_def guard)
  moreover have "\<forall>x\<in>set pre \<union> set post. \<not> guarded_row (qa_id a) s v x"
    using guarded_row_unique inv a by metis
  ultimately show ?thesis
    by (simp add: update_attempts_def a sql_update_one pg_result_def split: option.split)
qed

lemma update_guarded_Inr:
  assumes inv: "attempts_inv (db_attempts d)" and a: "a \<in> set (db_attempts d)"
    and guard: "s = qa_state a" "v = qa_version a"
    and upd: "update_attempts (guarded_row (qa_id a) s v) f d = Inr (d', n)"
  shows "attempt_replaced d a (f a) d'"
proof -
  obtain pre post where t: "db_attempts d = pre @ a # post"
    using a by (auto simp: in_set_conv_decomp)
  with update_guarded [OF inv t guard, of f] upd show ?thesis
    by (auto simp: attempt_replaced_def split: option.splits)
qed

lemma attempt_replaced_set:
  assumes "attempts_inv (db_attempts d)" and "attempt_replaced d a b d'"
  shows "set (db_attempts d') = insert b (set (db_attempts d) - {a})"
  using assms attempts_inv_distinct [OF assms(1)] by (auto simp: attempt_replaced_def)

lemma attempt_replaced_inv:
  "attempts_inv (db_attempts d) \<Longrightarrow> attempt_replaced d a b d' \<Longrightarrow> row_ok b \<Longrightarrow>
     attempts_inv (db_attempts d')"
  by (auto simp: attempt_replaced_def intro: attempts_inv_replace)


section \<open>Evolution of the attempts table\<close>

text \<open>
  \<open>rows_evolve\<close>: every row moves along the state machine in place. \<open>rows_evolve_at pid\<close>
  says in addition that the rows of the other products do not move at all, and
  \<open>table_evolves\<close> allows new rows at the end.
\<close>

definition rows_evolve_at :: "product_id \<Rightarrow> queue_attempt list \<Rightarrow> queue_attempt list \<Rightarrow> bool" where
  "rows_evolve_at pid = list_all2 (\<lambda>a b. attempt_evolves a b \<and> (qa_product a \<noteq> pid \<longrightarrow> b = a))"

definition table_evolves :: "queue_attempt list \<Rightarrow> queue_attempt list \<Rightarrow> bool" where
  "table_evolves = forward attempt_evolves"

lemma rows_evolve_at_refl [simp, intro]: "rows_evolve_at pid t t"
  by (simp add: rows_evolve_at_def list_all2_refl)

lemma rows_evolve_at_trans:
  assumes "rows_evolve_at pid s t" and "rows_evolve_at pid t u"
  shows "rows_evolve_at pid s u"
proof (unfold rows_evolve_at_def, rule list_all2_trans [OF _ assms [unfolded rows_evolve_at_def]])
  fix a b c
  assume ab: "attempt_evolves a b \<and> (qa_product a \<noteq> pid \<longrightarrow> b = a)"
    and bc: "attempt_evolves b c \<and> (qa_product b \<noteq> pid \<longrightarrow> c = b)"
  then show "attempt_evolves a c \<and> (qa_product a \<noteq> pid \<longrightarrow> c = a)"
    using attempt_evolves_trans by blast
qed

lemma rows_evolve_at_table: "rows_evolve_at pid t u \<Longrightarrow> table_evolves t (u @ new)"
  unfolding rows_evolve_at_def table_evolves_def
  by (rule forwardI) (metis (mono_tags, lifting) list_all2_mono)

lemma table_evolves_refl [simp, intro]: "table_evolves t t"
  unfolding table_evolves_def by (rule forward_refl) (rule attempt_evolves_refl)

lemma table_evolves_trans [trans]: "table_evolves s t \<Longrightarrow> table_evolves t u \<Longrightarrow> table_evolves s u"
  unfolding table_evolves_def by (rule forward_trans) (rule attempt_evolves_trans)

lemma table_evolves_row:
  assumes "table_evolves t t'" and "a \<in> set t"
  obtains b where "b \<in> set t'" and "attempt_evolves a b"
  using assms unfolding table_evolves_def by (rule forward_row)

lemma rows_evolve_at_origin:
  assumes "rows_evolve_at pid t t'" and "b \<in> set t'"
  obtains a where "a \<in> set t" and "attempt_evolves a b"
proof -
  obtain i where i: "i < length t'" "t' ! i = b" using assms(2) by (auto simp: in_set_conv_nth)
  show thesis
    by (rule that [of "t ! i"])
       (use assms(1) i in \<open>auto simp: rows_evolve_at_def list_all2_conv_all_nth\<close>)
qed

lemma rows_evolve_at_reserved:
  assumes "rows_evolve_at pid t t'" and "q \<noteq> pid"
  shows "length (filter (\<lambda>a. qa_product a = q \<and> Q a) t') = length (filter (\<lambda>a. qa_product a = q \<and> Q a) t)"
  using assms(1) unfolding rows_evolve_at_def
proof (induction rule: list_all2_induct)
  case Nil
  then show ?case by simp
next
  case (Cons a as b bs)
  then have "qa_product b = qa_product a"
    using attempt_evolves_ident by (fastforce simp: attempt_ident_def)
  with Cons show ?case using assms(2) by auto
qed

lemma attempt_replaced_evolves:
  assumes "attempt_replaced d a b d'" and "attempt_evolves a b" and "qa_product a = pid"
  shows "rows_evolve_at pid (db_attempts d) (db_attempts d')"
  using assms
  by (auto simp: attempt_replaced_def rows_evolve_at_def list_all2_refl intro!: list_all2_appendI)

section \<open>The database invariant\<close>

definition reserved_in :: "product_id \<Rightarrow> queue_attempt list \<Rightarrow> int" where
  "reserved_in pid t = int (length (filter (\<lambda>a. qa_product a = pid \<and> reserves_stock (qa_state a)) t))"

text \<open>Units sold: the purchased attempts of a product.\<close>

definition purchased_in :: "product_id \<Rightarrow> queue_attempt list \<Rightarrow> int" where
  "purchased_in pid t = int (length (filter (\<lambda>a. qa_product a = pid \<and> qa_state a = Purchased) t))"

definition product_ok :: "product_row \<Rightarrow> bool" where
  "product_ok p \<longleftrightarrow> 0 \<le> pr_stock p \<and> pr_stock p \<le> max_int32 \<and> 0 \<le> pr_reserved p \<and>
     pr_reserved p \<le> pr_stock p \<and> 1 \<le> pr_next_sequence p \<and> pr_next_sequence p \<le> max_int64 \<and>
     pr_created_at p \<le> pr_updated_at p"

definition product_counts :: "queue_attempt list \<Rightarrow> product_row \<Rightarrow> bool" where
  "product_counts t p \<longleftrightarrow> pr_reserved p = reserved_in (pr_id p) t \<and>
     (\<forall>a\<in>set t. qa_product a = pr_id p \<longrightarrow> qa_sequence a < pr_next_sequence p)"

text \<open>The payment inbox: the primary key and the unique (provider, event) pair.\<close>

definition inbox_key :: "inbox_row \<Rightarrow> string \<times> string" where
  "inbox_key r = (ib_provider r, ib_event_id r)"

definition inbox_inv :: "inbox_row list \<Rightarrow> bool" where
  "inbox_inv t \<longleftrightarrow> distinct (map ib_id t) \<and> distinct (map inbox_key t) \<and> (\<forall>r\<in>set t. inbox_checks r)"

definition db_inv :: "db \<Rightarrow> bool" where
  "db_inv d \<longleftrightarrow> attempts_inv (db_attempts d) \<and> distinct (map pr_id (db_products d)) \<and>
     (\<forall>p\<in>set (db_products d). product_ok p \<and> product_counts (db_attempts d) p) \<and>
     inbox_inv (db_inbox d)"

lemma db_invD:
  assumes "db_inv d"
  shows "attempts_inv (db_attempts d)" and "distinct (map pr_id (db_products d))"
    and "p \<in> set (db_products d) \<Longrightarrow> product_ok p"
    and "p \<in> set (db_products d) \<Longrightarrow> product_counts (db_attempts d) p"
    and "inbox_inv (db_inbox d)"
  using assms by (auto simp: db_inv_def)

section \<open>Coherence of the in-memory attempts\<close>

definition coherent :: "product_id \<Rightarrow> queue_attempt list \<Rightarrow> queue_attempt list \<Rightarrow> bool" where
  "coherent pid t mem \<longleftrightarrow> distinct mem \<and> set mem \<subseteq> set t \<and> (\<forall>a\<in>set mem. qa_product a = pid) \<and>
     (\<forall>a\<in>set t. qa_product a = pid \<and> is_active_state (qa_state a) \<longrightarrow> a \<in> set mem) \<and>
     sorted (map qa_sequence mem)"

lemma coherent_filter_count:
  assumes "coherent pid t mem" and "distinct t" and "\<And>s. Q s \<Longrightarrow> is_active_state s"
  shows "length (filter (\<lambda>a. Q (qa_state a)) mem) =
         length (filter (\<lambda>a. qa_product a = pid \<and> Q (qa_state a)) t)"
  by (rule length_filter_cong_set) (use assms in \<open>auto simp: coherent_def\<close>)

lemma coherent_reserved:
  "coherent pid t mem \<Longrightarrow> distinct t \<Longrightarrow>
     reserved_in pid t = int (length (filter (\<lambda>a. reserves_stock (qa_state a)) mem))"
  unfolding reserved_in_def by (subst coherent_filter_count) (auto intro: reserves_stock_active)

lemma coherent_replace:
  assumes inv: "attempts_inv (db_attempts d)" and coh: "coherent pid (db_attempts d) (pre @ a # post)"
    and repl: "attempt_replaced d a b d'" and ident: "attempt_ident b = attempt_ident a"
  shows "coherent pid (db_attempts d') (pre @ b # post)"
proof -
  have same: "qa_id b = qa_id a" "qa_product b = qa_product a" "qa_sequence b = qa_sequence a"
    using ident by (simp_all add: attempt_ident_def)
  have sets: "set (db_attempts d') = insert b (set (db_attempts d) - {a})"
    by (rule attempt_replaced_set [OF inv repl])
  have "b \<notin> set pre \<union> set post"
  proof
    assume b: "b \<in> set pre \<union> set post"
    then have "b \<in> set (db_attempts d)" and "a \<in> set (db_attempts d)"
      using coh by (auto simp: coherent_def)
    then have "b = a" using attempts_inv_id_eq [OF inv] same(1) by blast
    with b coh show False by (auto simp: coherent_def)
  qed
  with coh same sets show ?thesis
    by (auto simp: coherent_def)
qed

lemma attempt_step_row_ok:
  assumes "attempt_step a b" and "row_ok a" and "attempt_violation b others = None"
  shows "row_ok b"
proof -
  have "attempt_checks b" using assms(3) by (simp add: violation_None_compatible)
  moreover have "max_version (qa_state a) + 1 \<le> max_version (qa_state b)"
    using assms(1) by (cases "qa_state a")
      (erule attempt_stepE; simp add: setter_defs is_active_state_def)+
  ultimately show ?thesis
    using assms(2) attempt_step_version [OF assms(1)] by (simp add: row_ok_def)
qed

section \<open>The invariant of the loops of a transaction\<close>

text \<open>
  \<open>mem\<close> is the in-memory list while a loop is running: \<open>tx_attempts\<close> itself is only brought
  up to date at the end of \<open>reconcileLockedProductBounded\<close>. The product row of the database
  is stale in between, the locked copy is exact.
\<close>

definition reserving :: "queue_attempt list \<Rightarrow> int" where
  "reserving mem = int (length (filter (\<lambda>a. reserves_stock (qa_state a)) mem))"

lemma reserving_simps [simp]:
  "reserving [] = 0"
  "reserving (a # as) = (if reserves_stock (qa_state a) then 1 else 0) + reserving as"
  "reserving (xs @ ys) = reserving xs + reserving ys"
  by (simp_all add: reserving_def)

lemma reserving_nonneg [simp]: "0 \<le> reserving mem" "\<not> reserving mem < 0"
  by (simp_all add: reserving_def)

definition loop_inv :: "tx_state \<Rightarrow> queue_attempt list \<Rightarrow> bool" where
  "loop_inv st mem \<longleftrightarrow> attempts_inv (db_attempts (tx_db st)) \<and>
     coherent (lp_id (tx_product st)) (db_attempts (tx_db st)) mem \<and>
     lp_reserved (tx_product st) = reserving mem \<and>
     lp_reserved (tx_product st) \<le> lp_stock (tx_product st) \<and>
     lp_stock (tx_product st) \<le> max_int32"

text \<open>
  Outbox rows a transaction adds respect the primary key, the deduplication key and the checks.
\<close>

definition outbox_inv :: "outbox_row list \<Rightarrow> bool" where
  "outbox_inv t \<longleftrightarrow> distinct (map ob_id t) \<and> distinct (map ob_dedup_key t) \<and> (\<forall>r\<in>set t. outbox_checks r)"

definition outbox_extends :: "outbox_row list \<Rightarrow> outbox_row list \<Rightarrow> bool" where
  "outbox_extends t t' \<longleftrightarrow> (\<exists>new. t' = t @ new) \<and> (outbox_inv t \<longrightarrow> outbox_inv t')"

lemma outbox_extends_refl [simp, intro]: "outbox_extends t t"
  by (simp add: outbox_extends_def)

lemma outbox_extends_trans [trans]:
  "outbox_extends s t \<Longrightarrow> outbox_extends t u \<Longrightarrow> outbox_extends s u"
  by (auto simp: outbox_extends_def)

lemma outbox_violation_None:
  "outbox_violation r others = None \<longleftrightarrow> outbox_checks r \<and>
     ob_id r \<notin> ob_id ` set others \<and> ob_dedup_key r \<notin> ob_dedup_key ` set others"
  by (simp add: outbox_violation_def list_ex_key)

lemma outbox_extends_insert: "outbox_violation r t = None \<Longrightarrow> outbox_extends t (t @ [r])"
  by (auto simp: outbox_extends_def outbox_inv_def outbox_violation_None)

definition tx_frame :: "tx_state \<Rightarrow> tx_state \<Rightarrow> bool" where
  "tx_frame st st' \<longleftrightarrow> tx_now st' = tx_now st \<and>
     (\<exists>r. tx_product st' = (tx_product st)\<lparr>lp_reserved := r\<rparr>) \<and>
     db_products (tx_db st') = db_products (tx_db st) \<and>
     db_inbox (tx_db st') = db_inbox (tx_db st) \<and>
     db_adjustments (tx_db st') = db_adjustments (tx_db st) \<and>
     rows_evolve_at (lp_id (tx_product st)) (db_attempts (tx_db st)) (db_attempts (tx_db st')) \<and>
     (\<forall>q. purchased_in q (db_attempts (tx_db st')) = purchased_in q (db_attempts (tx_db st))) \<and>
     outbox_extends (db_outbox (tx_db st)) (db_outbox (tx_db st'))"

lemma tx_frame_refl [simp, intro]: "tx_frame st st"
  unfolding tx_frame_def by (auto intro: exI [of _ "lp_reserved (tx_product st)"])

lemma tx_frame_trans [trans]:
  assumes "tx_frame st st'" and "tx_frame st' st''"
  shows "tx_frame st st''"
  using assms rows_evolve_at_trans outbox_extends_trans unfolding tx_frame_def
  by (auto simp: rows_evolve_at_trans)

lemma tx_frameD:
  assumes "tx_frame st st'"
  shows "tx_now st' = tx_now st" and "lp_id (tx_product st') = lp_id (tx_product st)"
    and "lp_stock (tx_product st') = lp_stock (tx_product st)"
    and "lp_next_sequence (tx_product st') = lp_next_sequence (tx_product st)"
    and "lp_queue_enabled (tx_product st') = lp_queue_enabled (tx_product st)"
    and "db_products (tx_db st') = db_products (tx_db st)"
    and "db_inbox (tx_db st') = db_inbox (tx_db st)"
    and "db_adjustments (tx_db st') = db_adjustments (tx_db st)"
    and "rows_evolve_at (lp_id (tx_product st)) (db_attempts (tx_db st)) (db_attempts (tx_db st'))"
    and "outbox_extends (db_outbox (tx_db st)) (db_outbox (tx_db st'))"
  using assms unfolding tx_frame_def by auto

lemma loop_invD:
  assumes "loop_inv st (pre @ a # post)"
  shows "a \<in> set (db_attempts (tx_db st))" and "qa_product a = lp_id (tx_product st)"
    and "row_ok a" and "attempts_inv (db_attempts (tx_db st))"
  using assms unfolding loop_inv_def coherent_def attempts_inv_def by auto

lemma attempt_replaced_purchased:
  "attempt_replaced d a b d' \<Longrightarrow> qa_state b \<noteq> Purchased \<Longrightarrow> qa_state a \<noteq> Purchased \<Longrightarrow>
     purchased_in q (db_attempts d') = purchased_in q (db_attempts d)"
  by (auto simp: attempt_replaced_def purchased_in_def)

text \<open>
  One attempt moved: the database row, the list and the reservation counter together.
  \<open>st'\<close> may also hold new outbox rows and drawn UUIDs.
\<close>

lemma loop_step:
  assumes inv: "loop_inv st (pre @ a # post)" and step: "attempt_step a b" "qa_state b \<noteq> Purchased"
    and repl: "attempt_replaced (tx_db st) a b d'"
    and st': "db_attempts (tx_db st') = db_attempts d'" "tx_now st' = tx_now st"
      "tx_product st' = (tx_product st)\<lparr>lp_reserved := reserving (pre @ b # post)\<rparr>"
      "db_products (tx_db st') = db_products d'" "db_inbox (tx_db st') = db_inbox d'"
      "db_adjustments (tx_db st') = db_adjustments d'" "outbox_extends (db_outbox d') (db_outbox (tx_db st'))"
    and bound: "reserving (pre @ b # post) \<le> lp_stock (tx_product st)"
  shows "loop_inv st' (pre @ b # post)" and "tx_frame st st'"
proof -
  note a = loop_invD [OF inv]
  have rok: "row_ok b"
    using repl attempt_step_row_ok [OF step(1) a(3)] by (auto simp: attempt_replaced_def)
  have "attempts_inv (db_attempts d')" by (rule attempt_replaced_inv [OF a(4) repl rok])
  moreover have "coherent (lp_id (tx_product st)) (db_attempts d') (pre @ b # post)"
    by (rule coherent_replace [OF a(4) _ repl attempt_step_ident [OF step(1)]])
       (use inv in \<open>simp add: loop_inv_def\<close>)
  ultimately show "loop_inv st' (pre @ b # post)"
    using inv bound by (simp add: loop_inv_def st')
  have "rows_evolve_at (lp_id (tx_product st)) (db_attempts (tx_db st)) (db_attempts d')"
    by (rule attempt_replaced_evolves [OF repl attempt_evolves_step [OF step(1)] a(2)])
  moreover have "db_products d' = db_products (tx_db st)" "db_inbox d' = db_inbox (tx_db st)"
    "db_adjustments d' = db_adjustments (tx_db st)" "db_outbox d' = db_outbox (tx_db st)"
    using repl by (auto simp: attempt_replaced_def)
  moreover have "purchased_in q (db_attempts d') = purchased_in q (db_attempts (tx_db st))" for q
    using attempt_replaced_purchased [OF repl step(2)] attempt_step_active [OF step(1)]
    by (auto simp: is_active_state_def)
  ultimately show "tx_frame st st'" using st'(7)
    unfolding tx_frame_def by (auto simp: st')
qed

section \<open>Updating one product row\<close>

lemma update_products_one:
  assumes "distinct (map pr_id (db_products d))" and "\<And>r. P r \<Longrightarrow> pr_id r = pid"
    and "update_products P f d = Inr (d', Suc 0)"
  obtains pre p post where "db_products d = pre @ p # post" and "pr_id p = pid" and "P p"
    and "d' = d\<lparr>db_products := pre @ f p # post\<rparr>" and "product_violation (f p) (pre @ post) = None"
proof -
  obtain t where t: "sql_update product_violation P f (db_products d) = Inr (t, Suc 0)"
    "d' = d\<lparr>db_products := t\<rparr>" using assms(3) by (auto simp: update_products_def)
  show thesis using sql_update_key [OF assms(1,2) t(1)] t(2) that assms(2) by auto
qed

lemma update_products_ok:
  assumes "distinct (map pr_id (db_products d))" and "db_products d = pre @ p # post"
    and "P p" and "\<And>r. P r \<Longrightarrow> pr_id r = pr_id p" and "product_violation (f p) (pre @ post) = None"
  shows "update_products P f d = Inr (d\<lparr>db_products := pre @ f p # post\<rparr>, 1)"
proof -
  have "pr_id p \<notin> pr_id ` (set pre \<union> set post)"
    using assms(1,2) by (auto simp: image_Un)
  then have "\<forall>x\<in>set pre \<union> set post. \<not> P x" using assms(4) by (metis imageI)
  with assms(3,5) show ?thesis by (simp add: update_products_def assms(2) sql_update_one)
qed

lemma product_violation_ok:
  "product_violation p others = None \<Longrightarrow> pr_next_sequence p \<le> max_int64 \<Longrightarrow> product_ok p"
  by (auto simp: product_violation_def product_ok_def split: if_splits)

lemma product_ok_violation:
  "product_ok p \<Longrightarrow> pr_id p \<notin> pr_id ` set others \<Longrightarrow> product_violation p others = None"
  by (auto simp: product_violation_def product_ok_def list_ex_iff image_iff)

section \<open>The invariant of a transaction\<close>

definition tx_inv :: "tx_state \<Rightarrow> bool" where
  "tx_inv st \<longleftrightarrow> db_inv (tx_db st) \<and>
     coherent (lp_id (tx_product st)) (db_attempts (tx_db st)) (tx_attempts st) \<and>
     lock_product (tx_db st) (lp_id (tx_product st)) = Inr (tx_product st)"

lemma lock_product_Inr:
  assumes "distinct (map pr_id (db_products d))" and "lock_product d pid = Inr lp"
  obtains pre p post where "db_products d = pre @ p # post" and "pr_id p = pid" and "lp = locked_of_row p"
proof -
  obtain p where p: "find (\<lambda>p. pr_id p = pid) (db_products d) = Some p" "lp = locked_of_row p"
    using assms(2) by (auto simp: lock_product_def split: option.splits)
  then have "p \<in> set (db_products d)" and pid: "pr_id p = pid" by (auto dest: find_in_set)
  then obtain pre post where "db_products d = pre @ p # post" by (auto simp: in_set_conv_decomp)
  then show thesis using that p(2) pid by blast
qed

lemma lock_product_ok:
  "distinct (map pr_id (db_products d)) \<Longrightarrow> p \<in> set (db_products d) \<Longrightarrow>
     lock_product d (pr_id p) = Inr (locked_of_row p)"
  using find_unique [of pr_id "db_products d" p] by (simp add: lock_product_def)

lemma locked_of_row_simps [simp]:
  "lp_id (locked_of_row p) = pr_id p" "lp_stock (locked_of_row p) = pr_stock p"
  "lp_reserved (locked_of_row p) = pr_reserved p"
  "lp_next_sequence (locked_of_row p) = pr_next_sequence p"
  "lp_queue_enabled (locked_of_row p) = pr_queue_enabled p"
  by (simp_all add: locked_of_row_def)

lemma tx_inv_row:
  assumes "tx_inv st"
  obtains pre p post where "db_products (tx_db st) = pre @ p # post"
    and "tx_product st = locked_of_row p" and "product_ok p"
    and "product_counts (db_attempts (tx_db st)) p"
proof -
  have inv: "db_inv (tx_db st)" using assms by (simp add: tx_inv_def)
  obtain pre p post where "db_products (tx_db st) = pre @ p # post" "tx_product st = locked_of_row p"
    using lock_product_Inr [OF db_invD(2) [OF inv]] assms unfolding tx_inv_def by metis
  then show thesis using that [of pre p post] db_invD(3,4) [OF inv] by auto
qed

lemma tx_inv_loop_inv:
  assumes "tx_inv st"
  shows "loop_inv st (tx_attempts st)"
proof -
  obtain pre p post where p: "tx_product st = locked_of_row p" "product_ok p"
    "product_counts (db_attempts (tx_db st)) p"
    using tx_inv_row [OF assms] by metis
  have inv: "attempts_inv (db_attempts (tx_db st))"
    and coh: "coherent (pr_id p) (db_attempts (tx_db st)) (tx_attempts st)"
    using assms p(1) by (auto simp: tx_inv_def db_inv_def)
  have "pr_reserved p = reserving (tx_attempts st)"
    using p(3) coherent_reserved [OF coh attempts_inv_distinct [OF inv]]
    by (simp add: product_counts_def reserving_def)
  then show ?thesis using inv coh p by (simp add: loop_inv_def product_ok_def)
qed

text \<open>
  How an operation re-establishes the invariant: one product row is rewritten to match the
  locked copy, the attempts of that product are coherent with the list again, and the rest of
  the database is as it was.
\<close>

lemma tx_inv_intro:
  assumes inv: "db_inv d0" and p: "db_products d0 = pre @ p # post"
    and p': "db_products (tx_db st) = pre @ p' # post" "pr_id p' = pr_id p"
      "locked_of_row p' = tx_product st" "product_ok p'"
    and loop: "loop_inv st (tx_attempts st)"
    and seqs: "\<And>a. a \<in> set (db_attempts (tx_db st)) \<Longrightarrow> qa_product a = pr_id p \<Longrightarrow>
                 qa_sequence a < pr_next_sequence p'"
    and others: "\<And>q. q \<noteq> pr_id p \<Longrightarrow>
                 reserved_in q (db_attempts (tx_db st)) = reserved_in q (db_attempts d0)"
      "\<And>a. a \<in> set (db_attempts (tx_db st)) \<Longrightarrow> qa_product a \<noteq> pr_id p \<Longrightarrow> a \<in> set (db_attempts d0)"
    and inbox: "inbox_inv (db_inbox (tx_db st))"
  shows "tx_inv st"
proof -
  let ?t = "db_attempts (tx_db st)"
  have pid: "lp_id (tx_product st) = pr_id p" using p'(2,3) by (metis locked_of_row_simps(1))
  have dist: "distinct (map pr_id (pre @ p' # post))"
    using db_invD(2) [OF inv] p p'(2) by simp
  have ainv: "attempts_inv ?t" and coh: "coherent (pr_id p) ?t (tx_attempts st)"
    using loop pid by (auto simp: loop_inv_def)
  have "pr_reserved p' = reserved_in (pr_id p') ?t"
    using loop coherent_reserved [OF coh attempts_inv_distinct [OF ainv]] p'(2,3)
    by (simp add: loop_inv_def reserving_def) (metis locked_of_row_simps(3))
  then have counts: "product_counts ?t p'" using seqs p'(2) by (simp add: product_counts_def)
  have rest: "product_ok q \<and> product_counts ?t q" if q: "q \<in> set pre \<union> set post" for q
  proof -
    have "pr_id q \<noteq> pr_id p" using q dist p'(2) by (auto simp: image_iff)
    moreover have "product_ok q" "product_counts (db_attempts d0) q"
      using q db_invD(3,4) [OF inv] p by auto
    ultimately show ?thesis using others by (auto simp: product_counts_def)
  qed
  have "db_inv (tx_db st)"
    using ainv dist counts p'(4) rest inbox unfolding db_inv_def p'(1) by auto
  moreover have "lock_product (tx_db st) (pr_id p) = Inr (tx_product st)"
    using lock_product_ok [of "tx_db st" p'] dist p' by simp
  ultimately show ?thesis using coh pid by (simp add: tx_inv_def)
qed

end
