(* ===== verification/Reconcile.thy ===== *)
theory Reconcile
  imports Invariant
begin

text \<open>
  Reconciliation of one locked product (\<open>reconcileLockedProductBounded\<close>,
  \<open>hasReconciliationWork\<close>): expire overdue invitations and checkouts, then either mark the
  waiting attempts sold out or promote them in queue order while stock is free, bounded by a
  number of transitions. The second half of the theory proves what it does: the coherence of
  the in-memory copy with the database is kept, the reservation counter is exact, the
  transitions are the abstract specification's, and nothing is left to do afterwards.
\<close>

section \<open>The operation\<close>

definition count_reserved :: "queue_attempt list \<Rightarrow> int" where
  "count_reserved attempts =
     foldl (\<lambda>n a. if reserves_stock (qa_state a) then i32 (n + 1) else n) 0 attempts"

text \<open>The overdue test of both expiry branches, in the order the code evaluates it.\<close>

definition attempt_overdue :: "time \<Rightarrow> queue_attempt \<Rightarrow> go_error + bool" where
  "attempt_overdue now a = (case qa_state a of
     Invited \<Rightarrow> deadline_passed now (qa_invitation_deadline a)
   | Checkout \<Rightarrow> deadline_passed now (qa_checkout_deadline a)
   | _ \<Rightarrow> Inr False)"

definition expiry_target :: "queue_attempt \<Rightarrow> attempt_state \<times> string" where
  "expiry_target a = (if qa_state a = Invited then (InviteExpired, ''invite_expired'')
                      else (CheckoutExpired, ''checkout_expired''))"

definition add_reserved :: "int \<Rightarrow> tx_state \<Rightarrow> tx_state" where
  "add_reserved k st = st\<lparr>tx_product := (tx_product st)
     \<lparr>lp_reserved := i32 (lp_reserved (tx_product st) + k)\<rparr>\<rparr>"

fun expire_loop ::
  "int \<Rightarrow> tx_state \<Rightarrow> int \<Rightarrow> queue_attempt list \<Rightarrow> go_error + (tx_state \<times> int \<times> queue_attempt list)" where
  "expire_loop limit st n [] = Inr (st, n, [])"
| "expire_loop limit st n (a # as) =
     (if n = limit then Inr (st, n, a # as)
      else bindE (attempt_overdue (tx_now st) a) (\<lambda>overdue.
        if overdue then
          bindE (transition_to_expired (tx_db st) a (tx_now st)
                   (fst (expiry_target a)) (snd (expiry_target a))) (\<lambda>(d, a').
          bindE (expire_loop limit (add_reserved (- 1) (st\<lparr>tx_db := d\<rparr>)) (n + 1) as)
            (\<lambda>(st', m, as'). Inr (st', m, a' # as')))
        else bindE (expire_loop limit st n as) (\<lambda>(st', m, as'). Inr (st', m, a # as'))))"

fun sold_out_loop ::
  "int \<Rightarrow> tx_state \<Rightarrow> int \<Rightarrow> queue_attempt list \<Rightarrow> go_error + (tx_state \<times> int \<times> queue_attempt list)" where
  "sold_out_loop limit st n [] = Inr (st, n, [])"
| "sold_out_loop limit st n (a # as) =
     (if n = limit then Inr (st, n, a # as)
      else if qa_state a \<noteq> Waiting
      then bindE (sold_out_loop limit st n as) (\<lambda>(st', m, as'). Inr (st', m, a # as'))
      else bindE (transition_waiting_to_sold_out (tx_db st) a (tx_now st)) (\<lambda>(d, a').
           bindE (sold_out_loop limit (st\<lparr>tx_db := d\<rparr>) (n + 1) as)
             (\<lambda>(st', m, as'). Inr (st', m, a' # as'))))"

fun promote_loop ::
  "repo \<Rightarrow> env \<Rightarrow> int \<Rightarrow> tx_state \<Rightarrow> int \<Rightarrow> int \<Rightarrow> queue_attempt list \<Rightarrow>
     go_error + (tx_state \<times> int \<times> queue_attempt list)" where
  "promote_loop rp env limit st available n [] = Inr (st, n, [])"
| "promote_loop rp env limit st available n (a # as) =
     (if available = 0 \<or> n = limit then Inr (st, n, a # as)
      else if qa_state a \<noteq> Waiting
      then bindE (promote_loop rp env limit st available n as) (\<lambda>(st', m, as'). Inr (st', m, a # as'))
      else bindE (promote_waiting_attempt rp env st a) (\<lambda>(st', a').
           bindE (promote_loop rp env limit (add_reserved 1 st') (i32 (available - 1)) (n + 1) as)
             (\<lambda>(st'', m, as'). Inr (st'', m, a' # as'))))"

fun has_work_in :: "locked_product \<Rightarrow> time \<Rightarrow> int \<Rightarrow> queue_attempt list \<Rightarrow> go_error + bool" where
  "has_work_in p now available [] = Inr False"
| "has_work_in p now available (a # as) =
     bindE (attempt_overdue now a) (\<lambda>overdue.
       if overdue then Inr True
       else if qa_state a = Waiting \<and> (lp_stock p = 0 \<or> available > 0) then Inr True
       else has_work_in p now available as)"

definition has_reconciliation_work :: "tx_state \<Rightarrow> go_error + bool" where
  "has_reconciliation_work st =
     has_work_in (tx_product st) (tx_now st)
       (i32 (lp_stock (tx_product st) - lp_reserved (tx_product st))) (tx_attempts st)"

text \<open>The guarded product update at the end, issued when there was a transition.\<close>

definition store_reserved :: "int \<Rightarrow> tx_state \<Rightarrow> go_error + tx_state" where
  "store_reserved original st =
     (let p = tx_product st in
      bindE (update_products (\<lambda>r. pr_id r = lp_id p \<and> pr_reserved r = original \<and>
                0 \<le> lp_reserved p \<and> lp_reserved p \<le> pr_stock r)
              (\<lambda>r. r\<lparr>pr_reserved := lp_reserved p, pr_updated_at := tx_now st\<rparr>) (tx_db st)) (\<lambda>(d, n).
      bindE (guardE (n = 1) (Wrapped [Sentinel ErrReservedInvariant])) (\<lambda>_.
      Inr (st\<lparr>tx_db := d\<rparr>))))"

definition reserved_invariant_holds :: "tx_state \<Rightarrow> bool" where
  "reserved_invariant_holds st \<longleftrightarrow>
     \<not> (count_reserved (tx_attempts st) \<noteq> lp_reserved (tx_product st) \<or>
        lp_reserved (tx_product st) < 0 \<or>
        lp_reserved (tx_product st) > lp_stock (tx_product st))"

definition reconcile_locked_product_bounded ::
  "repo \<Rightarrow> env \<Rightarrow> tx_state \<Rightarrow> int \<Rightarrow> go_error + (tx_state \<times> int \<times> bool)" where
  "reconcile_locked_product_bounded rp env st limit =
     bindE (guardE (reserved_invariant_holds st) (Wrapped [Sentinel ErrReservedInvariant])) (\<lambda>_.
     let original = lp_reserved (tx_product st) in
     bindE (expire_loop limit st 0 (tx_attempts st)) (\<lambda>(st1, n1, as1).
     bindE (if lp_stock (tx_product st1) = 0 then sold_out_loop limit st1 n1 as1
            else promote_loop rp env limit st1
                   (i32 (lp_stock (tx_product st1) - lp_reserved (tx_product st1))) n1 as1)
       (\<lambda>(st2, n2, as2).
     bindE (if n2 > 0 then store_reserved original (st2\<lparr>tx_attempts := as2\<rparr>)
            else Inr (st2\<lparr>tx_attempts := as2\<rparr>)) (\<lambda>st3.
     bindE (has_reconciliation_work st3) (\<lambda>more.
     Inr (st3, n2, more))))))"

definition reconcile_locked_product :: "repo \<Rightarrow> env \<Rightarrow> tx_state \<Rightarrow> go_error + tx_state" where
  "reconcile_locked_product rp env st =
     bindE (reconcile_locked_product_bounded rp env st (int (length (tx_attempts st)) * 2 + 1))
       (\<lambda>(st', _, _). Inr st')"

section \<open>The abstract specification\<close>

text \<open>
  \<open>advance k P f\<close> applies \<open>f\<close> to the first \<open>k\<close> attempts, in queue order, that satisfy \<open>P\<close>.
  Each loop is one such pass, and reconciliation is two of them.
\<close>

fun advance ::
  "nat \<Rightarrow> (queue_attempt \<Rightarrow> bool) \<Rightarrow> (queue_attempt \<Rightarrow> queue_attempt) \<Rightarrow> queue_attempt list \<Rightarrow> queue_attempt list" where
  "advance k P f [] = []"
| "advance k P f (a # as) =
     (if P a then (if k = 0 then a # as else f a # advance (k - 1) P f as)
      else a # advance k P f as)"

definition matching :: "(queue_attempt \<Rightarrow> bool) \<Rightarrow> queue_attempt list \<Rightarrow> nat" where
  "matching P as = length (filter P as)"

definition overdue_at :: "time \<Rightarrow> queue_attempt \<Rightarrow> bool" where
  "overdue_at now a \<longleftrightarrow>
     (case qa_state a of
        Invited \<Rightarrow> (case qa_invitation_deadline a of Some t \<Rightarrow> t \<le> now | None \<Rightarrow> False)
      | Checkout \<Rightarrow> (case qa_checkout_deadline a of Some t \<Rightarrow> t \<le> now | None \<Rightarrow> False)
      | _ \<Rightarrow> False)"

definition expire_row :: "time \<Rightarrow> queue_attempt \<Rightarrow> queue_attempt" where
  "expire_row now a = set_terminal (fst (expiry_target a)) (snd (expiry_target a)) now a"

definition is_waiting :: "queue_attempt \<Rightarrow> bool" where "is_waiting a \<longleftrightarrow> qa_state a = Waiting"

definition invite_row :: "repo \<Rightarrow> time \<Rightarrow> queue_attempt \<Rightarrow> queue_attempt" where
  "invite_row rp now a = set_invited now (now + rp_invitation_ttl rp) (qa_version a + 1) a"

text \<open>
  The specification of one reconciliation with a budget of \<open>limit\<close> transitions: expire what is
  overdue, then sell out the waiting attempts or invite as many as stock is free.
\<close>

definition reconcile_spec ::
  "repo \<Rightarrow> time \<Rightarrow> int \<Rightarrow> nat \<Rightarrow> queue_attempt list \<Rightarrow> queue_attempt list" where
  "reconcile_spec rp now stock limit mem =
     (let mem1 = advance limit (overdue_at now) (expire_row now) mem;
          budget = limit - matching (overdue_at now) mem
      in if stock = 0 then advance budget is_waiting (set_terminal SoldOut ''sold_out'' now) mem1
         else advance (min budget (nat (stock - reserving mem1))) is_waiting (invite_row rp now) mem1)"

lemma advance_0 [simp]: "advance 0 P f as = as"
  by (induction as) auto

lemma advance_append_skip: "\<not> P a \<Longrightarrow> advance k P f (a # as) = a # advance k P f as"
  by simp

lemma advance_enough: "matching P as \<le> k \<Longrightarrow> advance k P f as = map (\<lambda>a. if P a then f a else a) as"
  by (induction as arbitrary: k)
     (auto simp: matching_def filter_empty_conv intro!: map_idI [symmetric])

lemma matching_simps [simp]:
  "matching P [] = 0"
  "matching P (a # as) = (if P a then Suc (matching P as) else matching P as)"
  by (simp_all add: matching_def)

lemma matching_le: "matching P as \<le> length as"
  by (simp add: matching_def)

lemma advance_length [simp]: "length (advance k P f as) = length as"
  by (induction as arbitrary: k) auto

section \<open>What one transition does\<close>

lemma row_ok_overdue: "row_ok a \<Longrightarrow> attempt_overdue now a = Inr (overdue_at now a)"
  by (cases "qa_state a")
     (auto simp: attempt_overdue_def overdue_at_def deadline_passed_def row_ok_def attempt_check_defs
        check_state_timestamps.simps split: option.splits)

lemma overdue_step: "overdue_at now a \<Longrightarrow> attempt_step a (expire_row now a)"
  by (cases "qa_state a")
     (auto simp: overdue_at_def expire_row_def expiry_target_def split: option.splits
        intro: attempt_step.intros)

lemma overdue_reserves: "overdue_at now a \<Longrightarrow> reserves_stock (qa_state a)"
  by (cases "qa_state a") (auto simp: overdue_at_def reserves_stock_def)

lemma expire_row_releases: "\<not> reserves_stock (qa_state (expire_row now a))"
  by (simp add: expire_row_def set_terminal_def expiry_target_def reserves_stock_def)

lemma transition_to_expired_Inr:
  assumes "attempts_inv (db_attempts d)" and "a \<in> set (db_attempts d)"
    and "transition_to_expired d a now s reason = Inr (d', a')"
  shows "a' = set_terminal s reason now a \<and> attempt_replaced d a a' d'"
  using assms update_guarded_Inr [OF assms(1,2) refl refl]
  by (auto simp: transition_to_expired_def)

lemma transition_waiting_to_sold_out_Inr:
  assumes "attempts_inv (db_attempts d)" and "a \<in> set (db_attempts d)" and "qa_state a = Waiting"
    and "transition_waiting_to_sold_out d a now = Inr (d', a')"
  shows "a' = set_terminal SoldOut ''sold_out'' now a \<and> attempt_replaced d a a' d'"
  using assms update_guarded_Inr [OF assms(1,2) assms(3) [symmetric] refl]
  by (auto simp: transition_waiting_to_sold_out_def)

lemma row_ok_version_i64: "row_ok a \<Longrightarrow> i64 (qa_version a + 1) = qa_version a + 1"
  by (rule i64_id; cases "qa_state a") (auto simp: row_ok_def max_int64_def)

lemma promote_waiting_attempt_Inr:
  assumes inv: "attempts_inv (db_attempts (tx_db st))" and a: "a \<in> set (db_attempts (tx_db st))"
    and w: "qa_state a = Waiting" and ok: "row_ok a"
    and p: "promote_waiting_attempt rp env st a = Inr (st', a')"
  shows "a' = invite_row rp (tx_now st) a" and "tx_now st' = tx_now st"
    and "tx_product st' = tx_product st"
    and "\<exists>d' row. attempt_replaced (tx_db st) a a' d' \<and>
           tx_db st' = d'\<lparr>db_outbox := db_outbox d' @ [row]\<rparr> \<and>
           outbox_extends (db_outbox d') (db_outbox d' @ [row])"
proof -
  define row where "row = new_outbox_row (en_uuid env (tx_draws st)) (qa_id a) invitation_event_type
      (invitation_dedup_key (en_ext env) (qa_id a) (qa_version a + 1))
      (InvitationPayload (qa_id a) (qa_product a) (tx_now st + rp_invitation_ttl rp))
      (en_payload_hash env (InvitationPayload (qa_id a) (qa_product a) (tx_now st + rp_invitation_ttl rp)))
      (tx_now st)"
  obtain d' where upd: "update_attempts (guarded_row (qa_id a) Waiting (qa_version a))
         (set_invited (tx_now st) (tx_now st + rp_invitation_ttl rp) (qa_version a + 1)) (tx_db st) = Inr (d', 1)"
    and "a' = invite_row rp (tx_now st) a" and "tx_now st' = tx_now st"
    and "tx_product st' = tx_product st"
    and out: "tx_db st' = d'\<lparr>db_outbox := db_outbox d' @ [row]\<rparr> \<and>
        outbox_extends (db_outbox d') (db_outbox d' @ [row])"
    using p row_ok_version_i64 [OF ok]
    by (auto simp: promote_waiting_attempt_def Let_def draw_uuid_def insert_outbox_def
        sql_insert_Inr invite_row_def outbox_extends_insert row_def)
  then show "a' = invite_row rp (tx_now st) a" and "tx_now st' = tx_now st"
    and "tx_product st' = tx_product st" by auto
  then have "attempt_replaced (tx_db st) a a' d'"
    using update_guarded_Inr [OF inv a w [symmetric] refl upd] by (simp add: invite_row_def)
  with out show "\<exists>d' row. attempt_replaced (tx_db st) a a' d' \<and>
           tx_db st' = d'\<lparr>db_outbox := db_outbox d' @ [row]\<rparr> \<and>
           outbox_extends (db_outbox d') (db_outbox d' @ [row])" by blast
qed

section \<open>The loops\<close>

lemma add_reserved_loop:
  assumes "loop_inv st mem" and "reserving mem' = reserving mem + k" and "reserving mem' \<le> lp_stock (tx_product st)"
  shows "i32 (lp_reserved (tx_product st) + k) = reserving mem'"
proof -
  have "0 \<le> reserving mem'" by simp
  then show ?thesis using assms by (auto simp: loop_inv_def intro!: i32_id simp: min_int32_def max_int32_def)
qed

lemma budget_step: "n < limit \<Longrightarrow> \<exists>k. nat (limit - n) = Suc k \<and> nat (limit - (n + 1)) = k"
  for n limit :: int by (intro exI [of _ "nat (limit - (n + 1))"]) auto

lemma budget_step2:
  "n < limit \<Longrightarrow> 0 < available \<Longrightarrow> \<exists>k. min (nat (limit - n)) (nat available) = Suc k \<and>
     min (nat (limit - (n + 1))) (nat (available - 1)) = k" for n limit available :: int
  by (intro exI [of _ "min (nat (limit - (n + 1))) (nat (available - 1))"]) auto

lemma expire_loop_Inr:
  assumes "expire_loop limit st n as = Inr (st', m, as')" and "loop_inv st (pre @ as)" and "n \<le> limit"
  shows "loop_inv st' (pre @ as') \<and> tx_frame st st' \<and>
     as' = advance (nat (limit - n)) (overdue_at (tx_now st)) (expire_row (tx_now st)) as \<and>
     m = n + int (min (nat (limit - n)) (matching (overdue_at (tx_now st)) as))"
  using assms
proof (induction as arbitrary: st n pre st' m as')
  case Nil
  then show ?case by simp
next
  case (Cons a as)
  note a = loop_invD [OF Cons.prems(2)]
  let ?P = "overdue_at (tx_now st)"
  consider "n = limit" | "n < limit" "\<not> ?P a" | "n < limit" "?P a"
    using Cons.prems(3) by linarith
  then show ?case
  proof cases
    case 1
    then show ?thesis using Cons.prems by simp
  next
    case 2
    then obtain as2 where as2: "expire_loop limit st n as = Inr (st', m, as2)" "as' = a # as2"
      using Cons.prems(1) row_ok_overdue [OF a(3)] by auto
    then show ?thesis using Cons.IH [of st n st' m as2 "pre @ [a]"] Cons.prems(2,3) 2 by auto
  next
    case 3
    define b where "b = expire_row (tx_now st) a"
    from 3 obtain d a' where tr: "transition_to_expired (tx_db st) a (tx_now st)
           (fst (expiry_target a)) (snd (expiry_target a)) = Inr (d, a')"
      and rest: "\<exists>as2. expire_loop limit (add_reserved (- 1) (st\<lparr>tx_db := d\<rparr>)) (n + 1) as
             = Inr (st', m, as2) \<and> as' = a' # as2"
      using Cons.prems(1) row_ok_overdue [OF a(3)] by auto
    have b: "a' = b" "attempt_replaced (tx_db st) a b d"
      using transition_to_expired_Inr [OF a(4,1) tr] by (auto simp: b_def expire_row_def)
    from rest b(1) obtain as2
      where as2: "expire_loop limit (add_reserved (- 1) (st\<lparr>tx_db := d\<rparr>)) (n + 1) as = Inr (st', m, as2)"
        "as' = b # as2" by blast
    let ?st = "add_reserved (- 1) (st\<lparr>tx_db := d\<rparr>)"
    have cnt: "reserving (pre @ b # as) = reserving (pre @ a # as) + - 1"
      using overdue_reserves [OF 3(2)] expire_row_releases [of "tx_now st" a] by (simp add: b_def)
    then have bound: "reserving (pre @ b # as) \<le> lp_stock (tx_product st)"
      using Cons.prems(2) by (simp add: loop_inv_def)
    have step: "attempt_step a b" using overdue_step [OF 3(2)] by (simp add: b_def)
    have mid: "loop_inv ?st (pre @ b # as)" "tx_frame st ?st"
      by (rule loop_step [OF Cons.prems(2) step _ b(2)];
          use add_reserved_loop [OF Cons.prems(2) cnt bound] bound
          in \<open>simp add: add_reserved_def b_def expire_row_def set_terminal_def expiry_target_def\<close>)+
    have now: "tx_now ?st = tx_now st" by (simp add: add_reserved_def)
    obtain k where "nat (limit - n) = Suc k" "nat (limit - (n + 1)) = k"
      using 3(1) budget_step by blast
    with Cons.IH [of ?st "n + 1" st' m as2 "pre @ [b]"] as2 mid 3
    show ?thesis unfolding now by (auto simp: b_def intro: tx_frame_trans)
  qed
qed

lemma sold_out_loop_Inr:
  assumes "sold_out_loop limit st n as = Inr (st', m, as')" and "loop_inv st (pre @ as)" and "n \<le> limit"
  shows "loop_inv st' (pre @ as') \<and> tx_frame st st' \<and>
     as' = advance (nat (limit - n)) is_waiting (set_terminal SoldOut ''sold_out'' (tx_now st)) as \<and>
     m = n + int (min (nat (limit - n)) (matching is_waiting as))"
  using assms
proof (induction as arbitrary: st n pre st' m as')
  case Nil
  then show ?case by simp
next
  case (Cons a as)
  note a = loop_invD [OF Cons.prems(2)]
  consider "n = limit" | "n < limit" "qa_state a \<noteq> Waiting" | "n < limit" "qa_state a = Waiting"
    using Cons.prems(3) by linarith
  then show ?case
  proof cases
    case 1
    then show ?thesis using Cons.prems by simp
  next
    case 2
    then obtain as2 where as2: "sold_out_loop limit st n as = Inr (st', m, as2)" "as' = a # as2"
      using Cons.prems(1) by auto
    then show ?thesis using Cons.IH [of st n st' m as2 "pre @ [a]"] Cons.prems(2,3) 2
      by (auto simp: is_waiting_def)
  next
    case 3
    define b where "b = set_terminal SoldOut ''sold_out'' (tx_now st) a"
    from 3 obtain d a' where tr: "transition_waiting_to_sold_out (tx_db st) a (tx_now st) = Inr (d, a')"
      and rest: "\<exists>as2. sold_out_loop limit (st\<lparr>tx_db := d\<rparr>) (n + 1) as = Inr (st', m, as2) \<and> as' = a' # as2"
      using Cons.prems(1) by auto
    have b: "a' = b" "attempt_replaced (tx_db st) a b d"
      using transition_waiting_to_sold_out_Inr [OF a(4,1) 3(2) tr] by (auto simp: b_def)
    from rest b(1) obtain as2
      where as2: "sold_out_loop limit (st\<lparr>tx_db := d\<rparr>) (n + 1) as = Inr (st', m, as2)" "as' = b # as2"
      by blast
    have step: "attempt_step a b" unfolding b_def by (rule attempt_step.sell_out [OF 3(2)])
    have cnt: "reserving (pre @ b # as) = lp_reserved (tx_product st)"
      using Cons.prems(2) 3(2) by (simp add: loop_inv_def b_def set_terminal_def reserves_stock_def)
    have mid: "loop_inv (st\<lparr>tx_db := d\<rparr>) (pre @ b # as)" "tx_frame st (st\<lparr>tx_db := d\<rparr>)"
      by (rule loop_step [OF Cons.prems(2) step _ b(2)];
          use Cons.prems(2) cnt in \<open>simp add: loop_inv_def b_def set_terminal_def\<close>)+
    obtain k where "nat (limit - n) = Suc k" "nat (limit - (n + 1)) = k"
      using 3(1) budget_step by blast
    with Cons.IH [of "st\<lparr>tx_db := d\<rparr>" "n + 1" st' m as2 "pre @ [b]"] as2 mid 3
    show ?thesis by (auto simp: b_def is_waiting_def intro: tx_frame_trans)
  qed
qed

lemma promote_loop_Inr:
  assumes "promote_loop rp env limit st available n as = Inr (st', m, as')"
    and "loop_inv st (pre @ as)" and "n \<le> limit"
    and "available = lp_stock (tx_product st) - lp_reserved (tx_product st)"
  shows "loop_inv st' (pre @ as') \<and> tx_frame st st' \<and>
     as' = advance (min (nat (limit - n)) (nat available)) is_waiting (invite_row rp (tx_now st)) as \<and>
     m = n + int (min (min (nat (limit - n)) (nat available)) (matching is_waiting as))"
  using assms
proof (induction as arbitrary: st available n pre st' m as')
  case Nil
  then show ?case by simp
next
  case (Cons a as)
  note a = loop_invD [OF Cons.prems(2)]
  have nonneg: "0 \<le> available" using Cons.prems(2,4) by (simp add: loop_inv_def)
  have stock: "available \<le> max_int32" using Cons.prems(2,4) by (simp add: loop_inv_def)
      (smt (verit) reserving_nonneg)
  consider "n = limit \<or> available = 0" | "n < limit" "available > 0" "qa_state a \<noteq> Waiting"
    | "n < limit" "available > 0" "qa_state a = Waiting"
    using Cons.prems(3) nonneg by linarith
  then show ?case
  proof cases
    case 1
    then show ?thesis using Cons.prems by auto
  next
    case 2
    then obtain as2 where as2: "promote_loop rp env limit st available n as = Inr (st', m, as2)" "as' = a # as2"
      using Cons.prems(1) by auto
    then show ?thesis using Cons.IH [of st available n st' m as2 "pre @ [a]"] Cons.prems(2-4) 2
      by (auto simp: is_waiting_def)
  next
    case 3
    define b where "b = invite_row rp (tx_now st) a"
    from 3 obtain st1 a' where tr: "promote_waiting_attempt rp env st a = Inr (st1, a')"
      and rest: "\<exists>as2. promote_loop rp env limit (add_reserved 1 st1) (i32 (available - 1)) (n + 1) as
             = Inr (st', m, as2) \<and> as' = a' # as2"
      using Cons.prems(1) by auto
    note pw = promote_waiting_attempt_Inr [OF a(4,1) 3(3) a(3) tr]
    have b: "a' = b" using pw(1) by (simp add: b_def)
    obtain d' row where repl: "attempt_replaced (tx_db st) a b d'"
      and out: "tx_db st1 = d'\<lparr>db_outbox := db_outbox d' @ [row]\<rparr>"
        "outbox_extends (db_outbox d') (db_outbox d' @ [row])" using pw(4) b by blast
    let ?st = "add_reserved 1 st1"
    from rest b obtain as2
      where as2: "promote_loop rp env limit ?st (i32 (available - 1)) (n + 1) as = Inr (st', m, as2)"
        "as' = b # as2" by blast
    have step: "attempt_step a b"
      unfolding b_def invite_row_def by (rule attempt_step.promote [OF 3(3) refl])
    have cnt: "reserving (pre @ b # as) = reserving (pre @ a # as) + 1"
      using 3(3) by (simp add: b_def invite_row_def set_invited_def reserves_stock_def)
    then have bound: "reserving (pre @ b # as) \<le> lp_stock (tx_product st)"
      using Cons.prems(2,4) 3(2) by (simp add: loop_inv_def)
    have cell: "tx_product ?st = (tx_product st)\<lparr>lp_reserved := reserving (pre @ b # as)\<rparr>"
      using add_reserved_loop [OF Cons.prems(2) cnt bound] by (simp add: add_reserved_def pw(3))
    have mid: "loop_inv ?st (pre @ b # as)" "tx_frame st ?st"
      by (rule loop_step [OF Cons.prems(2) step _ repl];
          use cell bound in \<open>simp add: add_reserved_def pw(2) out b_def invite_row_def set_invited_def\<close>)+
    have now: "tx_now ?st = tx_now st" by (simp add: add_reserved_def pw(2))
    have avail: "i32 (available - 1) = available - 1"
      by (rule i32_id) (use 3(2) stock in \<open>simp_all add: min_int32_def\<close>)
    have free: "available - 1 = lp_stock (tx_product ?st) - lp_reserved (tx_product ?st)"
      using cell cnt Cons.prems(2,4) by (simp add: loop_inv_def)
    obtain k where "min (nat (limit - n)) (nat available) = Suc k"
      "min (nat (limit - (n + 1))) (nat (available - 1)) = k"
      using 3(1,2) budget_step2 by blast
    with Cons.IH [of ?st "available - 1" "n + 1" st' m as2 "pre @ [b]"] as2 mid 3 free avail
    show ?thesis unfolding now by (auto simp: b_def is_waiting_def intro: tx_frame_trans)
  qed
qed

section \<open>Reconciliation of a product\<close>

lemma count_reserved_eq: "count_reserved mem = i32 (reserving mem)"
proof -
  have "foldl (\<lambda>n a. if reserves_stock (qa_state a) then i32 (n + 1) else n) (i32 k) mem
        = i32 (k + reserving mem)" for k
    by (induction mem arbitrary: k) (simp_all add: i32_add_left add.assoc)
  from this [of 0] show ?thesis by (simp add: count_reserved_def i32_def)
qed

text \<open>The check that guards reconciliation never fires between well-formed transactions.\<close>

lemma loop_inv_reserved_invariant:
  assumes "loop_inv st (tx_attempts st)"
  shows "reserved_invariant_holds st"
proof -
  have "i32 (reserving (tx_attempts st)) = reserving (tx_attempts st)"
    using assms add_reserved_loop [OF assms, of "tx_attempts st" 0] by (simp add: loop_inv_def)
  then show ?thesis using assms
    by (simp add: reserved_invariant_holds_def count_reserved_eq loop_inv_def)
qed

text \<open>
  What a whole reconciliation leaves alone: of the product row only \<open>reserved\<close> and
  \<open>updated_at\<close> change, the rows of other products do not move.
\<close>

definition touches_reserved :: "product_id \<Rightarrow> product_row \<Rightarrow> product_row \<Rightarrow> bool" where
  "touches_reserved pid p q \<longleftrightarrow> (\<exists>r u. q = p\<lparr>pr_reserved := r, pr_updated_at := u\<rparr>) \<and>
     (pr_id p \<noteq> pid \<longrightarrow> q = p)"

definition reconcile_frame :: "tx_state \<Rightarrow> tx_state \<Rightarrow> bool" where
  "reconcile_frame st st' \<longleftrightarrow> tx_now st' = tx_now st \<and>
     (\<exists>r. tx_product st' = (tx_product st)\<lparr>lp_reserved := r\<rparr>) \<and>
     list_all2 (touches_reserved (lp_id (tx_product st))) (db_products (tx_db st)) (db_products (tx_db st')) \<and>
     db_inbox (tx_db st') = db_inbox (tx_db st) \<and>
     db_adjustments (tx_db st') = db_adjustments (tx_db st) \<and>
     rows_evolve_at (lp_id (tx_product st)) (db_attempts (tx_db st)) (db_attempts (tx_db st')) \<and>
     (\<forall>q. purchased_in q (db_attempts (tx_db st')) = purchased_in q (db_attempts (tx_db st))) \<and>
     outbox_extends (db_outbox (tx_db st)) (db_outbox (tx_db st'))"

lemma touches_reserved_refl [simp, intro]: "touches_reserved pid p p"
proof -
  have "p = p\<lparr>pr_reserved := pr_reserved p, pr_updated_at := pr_updated_at p\<rparr>" by simp
  then show ?thesis unfolding touches_reserved_def by blast
qed

lemma touches_reserved_trans:
  assumes "touches_reserved pid p q" and "touches_reserved pid q r"
  shows "touches_reserved pid p r"
proof -
  obtain a b a' b' where qr: "q = p\<lparr>pr_reserved := a, pr_updated_at := b\<rparr>"
    "r = q\<lparr>pr_reserved := a', pr_updated_at := b'\<rparr>"
    using assms unfolding touches_reserved_def by (elim conjE exE)
  then have "r = p\<lparr>pr_reserved := a', pr_updated_at := b'\<rparr>" by simp
  moreover have "r = p" if "pr_id p \<noteq> pid"
    using that assms unfolding touches_reserved_def by metis
  ultimately show ?thesis unfolding touches_reserved_def by blast
qed

lemma tx_frame_reconcile: "tx_frame st st' \<Longrightarrow> reconcile_frame st st'"
  by (auto simp: tx_frame_def reconcile_frame_def intro: list_all2_refl)

lemma reconcile_frame_refl [simp, intro]: "reconcile_frame st st"
  by (rule tx_frame_reconcile) simp

lemma reconcile_frame_trans [trans]:
  assumes "reconcile_frame st st'" and "reconcile_frame st' st''"
  shows "reconcile_frame st st''"
proof -
  let ?pid = "lp_id (tx_product st)"
  obtain r r' where cell: "tx_product st' = (tx_product st)\<lparr>lp_reserved := r\<rparr>"
    "tx_product st'' = (tx_product st')\<lparr>lp_reserved := r'\<rparr>"
    using assms unfolding reconcile_frame_def by auto
  have prods: "list_all2 (touches_reserved ?pid) (db_products (tx_db st)) (db_products (tx_db st''))"
    by (rule list_all2_trans [of "touches_reserved ?pid" "touches_reserved ?pid"])
       (use assms cell touches_reserved_trans in \<open>auto simp: reconcile_frame_def\<close>)
  have rows: "rows_evolve_at ?pid (db_attempts (tx_db st)) (db_attempts (tx_db st''))"
    by (rule rows_evolve_at_trans [of _ _ "db_attempts (tx_db st')"])
       (use assms cell in \<open>auto simp: reconcile_frame_def\<close>)
  show ?thesis using assms prods rows cell outbox_extends_trans unfolding reconcile_frame_def by auto
qed

lemma reconcile_frameD:
  assumes "reconcile_frame st st'"
  shows "tx_now st' = tx_now st" and "lp_id (tx_product st') = lp_id (tx_product st)"
    and "lp_stock (tx_product st') = lp_stock (tx_product st)"
    and "lp_next_sequence (tx_product st') = lp_next_sequence (tx_product st)"
    and "lp_queue_enabled (tx_product st') = lp_queue_enabled (tx_product st)"
    and "db_inbox (tx_db st') = db_inbox (tx_db st)"
    and "db_adjustments (tx_db st') = db_adjustments (tx_db st)"
    and "rows_evolve_at (lp_id (tx_product st)) (db_attempts (tx_db st)) (db_attempts (tx_db st'))"
    and "purchased_in q (db_attempts (tx_db st')) = purchased_in q (db_attempts (tx_db st))"
    and "outbox_extends (db_outbox (tx_db st)) (db_outbox (tx_db st'))"
  using assms unfolding reconcile_frame_def by auto

lemma rows_evolve_sequences:
  assumes "rows_evolve_at pid t t'" and "\<And>a. a \<in> set t \<Longrightarrow> qa_product a = q \<Longrightarrow> qa_sequence a < k"
    and "b \<in> set t'" and "qa_product b = q"
  shows "qa_sequence b < k"
proof -
  obtain a where "a \<in> set t" and "attempt_evolves a b"
    using rows_evolve_at_origin [OF assms(1,3)] .
  then show ?thesis using attempt_evolves_ident [of a b] assms(2,4) by (auto simp: attempt_ident_def)
qed

lemma rows_evolve_others:
  assumes "rows_evolve_at pid t t'" and "b \<in> set t'" and "qa_product b \<noteq> pid"
  shows "b \<in> set t"
proof -
  obtain i where i: "i < length t'" "t' ! i = b" using assms(2) by (auto simp: in_set_conv_nth)
  then have ev: "attempt_evolves (t ! i) b" "qa_product (t ! i) \<noteq> pid \<longrightarrow> b = t ! i" "i < length t"
    using assms(1) by (auto simp: rows_evolve_at_def list_all2_conv_all_nth)
  then have "qa_product (t ! i) \<noteq> pid" using attempt_evolves_ident [OF ev(1)] assms(3)
    by (simp add: attempt_ident_def)
  then show ?thesis using ev by auto
qed

text \<open>The loops followed by any rewriting of the product row that matches the locked copy.\<close>

lemma tx_inv_after_loops:
  assumes inv: "tx_inv st" and frame: "tx_frame st st2" and loop: "loop_inv st2 (tx_attempts st3)"
    and p: "db_products (tx_db st) = pre @ p # post" "tx_product st = locked_of_row p"
    and p': "db_products (tx_db st3) = pre @ p' # post" "locked_of_row p' = tx_product st2" "product_ok p'"
    and st3: "db_attempts (tx_db st3) = db_attempts (tx_db st2)" "tx_product st3 = tx_product st2"
      "db_inbox (tx_db st3) = db_inbox (tx_db st2)"
  shows "tx_inv st3"
proof (rule tx_inv_intro [where ?d0.0 = "tx_db st" and p = p and p' = p' and pre = pre and post = post])
  note fr = tx_frameD [OF frame]
  have ids: "lp_id (tx_product st2) = pr_id p" "lp_next_sequence (tx_product st2) = pr_next_sequence p"
    using fr p(2) by simp_all
  then show "pr_id p' = pr_id p" using p'(2) by (metis locked_of_row_simps(1))
  have next': "pr_next_sequence p' = pr_next_sequence p" using p'(2) ids by (metis locked_of_row_simps(4))
  have rows: "rows_evolve_at (pr_id p) (db_attempts (tx_db st)) (db_attempts (tx_db st3))"
    using fr(9) p(2) st3(1) by simp
  have "product_counts (db_attempts (tx_db st)) p"
    using inv p by (auto simp: tx_inv_def db_inv_def)
  then show "qa_sequence a < pr_next_sequence p'"
    if "a \<in> set (db_attempts (tx_db st3))" "qa_product a = pr_id p" for a
    using rows_evolve_sequences [OF rows _ that] by (auto simp: product_counts_def next')
  show "reserved_in q (db_attempts (tx_db st3)) = reserved_in q (db_attempts (tx_db st))"
    if "q \<noteq> pr_id p" for q
    using rows_evolve_at_reserved [OF rows that] by (simp add: reserved_in_def)
  show "a \<in> set (db_attempts (tx_db st))"
    if "a \<in> set (db_attempts (tx_db st3))" "qa_product a \<noteq> pr_id p" for a
    using rows_evolve_others [OF rows that] .
  show "loop_inv st3 (tx_attempts st3)" using loop st3 by (simp add: loop_inv_def)
  show "inbox_inv (db_inbox (tx_db st3))" using inv fr(7) st3(3) by (simp add: tx_inv_def db_inv_def)
qed (use assms in \<open>auto simp: tx_inv_def\<close>)

lemma advance_no_match: "matching P as = 0 \<Longrightarrow> advance k P f as = as"
  by (induction as arbitrary: k) (auto split: if_splits)

lemma store_reserved_Inr:
  assumes inv: "tx_inv st" and frame: "tx_frame st st2" and loop: "loop_inv st2 (tx_attempts st2)"
    and store: "store_reserved (lp_reserved (tx_product st)) st2 = Inr st3"
  shows "tx_inv st3" and "reconcile_frame st st3" and "tx_attempts st3 = tx_attempts st2"
    and "tx_product st3 = tx_product st2"
proof -
  note fr = tx_frameD [OF frame]
  obtain d where upd: "update_products (\<lambda>r. pr_id r = lp_id (tx_product st2) \<and>
        pr_reserved r = lp_reserved (tx_product st) \<and> 0 \<le> lp_reserved (tx_product st2) \<and>
        lp_reserved (tx_product st2) \<le> pr_stock r)
      (\<lambda>r. r\<lparr>pr_reserved := lp_reserved (tx_product st2), pr_updated_at := tx_now st2\<rparr>)
      (tx_db st2) = Inr (d, Suc 0)" and st3: "st3 = st2\<lparr>tx_db := d\<rparr>"
    using store by (auto simp: store_reserved_def Let_def)
  have dist: "distinct (map pr_id (db_products (tx_db st2)))"
    using inv fr(6) by (simp add: tx_inv_def db_inv_def)
  obtain pre p post where p: "db_products (tx_db st2) = pre @ p # post" "pr_id p = lp_id (tx_product st2)"
    and d: "d = (tx_db st2)\<lparr>db_products := pre @
         p\<lparr>pr_reserved := lp_reserved (tx_product st2), pr_updated_at := tx_now st2\<rparr> # post\<rparr>"
    and viol: "product_violation (p\<lparr>pr_reserved := lp_reserved (tx_product st2), pr_updated_at := tx_now st2\<rparr>)
         (pre @ post) = None"
    by (rule update_products_one [OF dist _ upd]) auto
  let ?p' = "p\<lparr>pr_reserved := lp_reserved (tx_product st2), pr_updated_at := tx_now st2\<rparr>"
  have prods: "db_products (tx_db st) = pre @ p # post" using p(1) fr(6) by simp
  have "lock_product (tx_db st) (pr_id p) = Inr (tx_product st)"
    using inv p(2) fr(2) by (simp add: tx_inv_def)
  then have row: "tx_product st = locked_of_row p"
    using lock_product_ok [of "tx_db st" p] prods inv by (auto simp: tx_inv_def db_inv_def)
  obtain r where cell: "tx_product st2 = (tx_product st)\<lparr>lp_reserved := r\<rparr>"
    using frame by (auto simp: tx_frame_def)
  have cell': "locked_of_row ?p' = tx_product st2" using row cell by (simp add: locked_of_row_def)
  have "product_ok p" using inv prods by (auto simp: tx_inv_def db_inv_def)
  then have ok: "product_ok ?p'"
    by (intro product_violation_ok [OF viol]) (simp add: product_ok_def)
  show "tx_inv st3"
    by (rule tx_inv_after_loops [OF inv frame _ prods row _ cell' ok])
       (use loop in \<open>auto simp: st3 d loop_inv_def\<close>)
  have "list_all2 (touches_reserved (lp_id (tx_product st))) (pre @ p # post) (pre @ ?p' # post)"
    using row by (intro list_all2_appendI list_all2_refl list.rel_intros)
      (auto simp: touches_reserved_def)
  then show "reconcile_frame st st3" using frame prods
    by (auto simp: st3 d tx_frame_def reconcile_frame_def)
qed (use store in \<open>auto simp: store_reserved_def Let_def\<close>)

text \<open>Both phases of the loop body, before the counter is written back.\<close>

lemma phases_Inr:
  assumes loop: "loop_inv st (tx_attempts st)" and limit: "0 \<le> limit"
    and e: "expire_loop limit st 0 (tx_attempts st) = Inr (st1, n1, as1)"
    and s: "(if lp_stock (tx_product st1) = 0 then sold_out_loop limit st1 n1 as1
            else promote_loop rp env limit st1
                   (i32 (lp_stock (tx_product st1) - lp_reserved (tx_product st1))) n1 as1) = Inr (st2, n, as2)"
  shows "loop_inv st2 as2" and "tx_frame st st2"
    and "as2 = reconcile_spec rp (tx_now st) (lp_stock (tx_product st)) (nat limit) (tx_attempts st)"
    and "0 \<le> n" and "n \<le> limit" and "n = 0 \<Longrightarrow> as2 = tx_attempts st"
proof -
  let ?now = "tx_now st" and ?mem = "tx_attempts st"
  define k where "k = min (nat limit) (matching (overdue_at ?now) ?mem)"
  have E: "loop_inv st1 as1" "tx_frame st st1"
    "as1 = advance (nat limit) (overdue_at ?now) (expire_row ?now) ?mem" "n1 = int k"
    using expire_loop_Inr [OF e, of "[]"] loop limit by (auto simp: k_def)
  note fr1 = tx_frameD [OF E(2)]
  have n1: "n1 \<le> limit" "nat (limit - n1) = nat limit - matching (overdue_at ?now) ?mem"
    using E(4) limit by (auto simp: k_def)
  then have cap: "n1 + int (min (nat limit - matching (overdue_at ?now) ?mem) x) \<le> limit"
    "n1 + int (min (min (nat limit - matching (overdue_at ?now) ?mem) y) x) \<le> limit" for x y
    by linarith+
  have quiet: "as1 = ?mem" if "n1 = 0"
    using that E n1(1) limit by (auto simp: k_def min_def advance_no_match split: if_splits)
  have stock: "lp_stock (tx_product st1) - lp_reserved (tx_product st1) \<le> max_int32"
    "0 \<le> lp_stock (tx_product st1) - lp_reserved (tx_product st1)"
    "lp_reserved (tx_product st1) = reserving as1"
    using E(1) reserving_nonneg(1) [of as1] by (auto simp: loop_inv_def simp del: reserving_nonneg)
  then have avail: "i32 (lp_stock (tx_product st1) - lp_reserved (tx_product st1)) =
      lp_stock (tx_product st1) - lp_reserved (tx_product st1)"
    by (intro i32_id) (auto simp: min_int32_def)
  have S: "loop_inv st2 as2 \<and> tx_frame st1 st2 \<and> n1 \<le> n \<and> n \<le> limit \<and> (n = n1 \<longrightarrow> as2 = as1) \<and>
      as2 = reconcile_spec rp ?now (lp_stock (tx_product st)) (nat limit) ?mem"
  proof (cases "lp_stock (tx_product st1) = 0")
    case True
    then have "sold_out_loop limit st1 n1 as1 = Inr (st2, n, as2)" using s by simp
    from sold_out_loop_Inr [OF this, of "[]"] E(1) n1 True fr1(1,3) cap show ?thesis
      by (auto simp: reconcile_spec_def Let_def E(3) min_def advance_no_match split: if_splits)
  next
    case False
    then have "promote_loop rp env limit st1 (lp_stock (tx_product st1) - lp_reserved (tx_product st1)) n1 as1
        = Inr (st2, n, as2)" using s avail by simp
    from promote_loop_Inr [OF this, of "[]"] E(1) n1 False fr1(1,3) stock(3) cap show ?thesis
      by (auto simp: reconcile_spec_def Let_def E(3) min_def advance_no_match split: if_splits)
  qed
  then show "loop_inv st2 as2" "as2 = reconcile_spec rp ?now (lp_stock (tx_product st)) (nat limit) ?mem"
    "n \<le> limit" "0 \<le> n" "tx_frame st st2"
    using tx_frame_trans [OF E(2)] E(4) by auto
  show "as2 = ?mem" if "n = 0" using S that E(4) quiet by auto
qed

text \<open>Without a transition nothing has changed, and the counter is not written.\<close>

lemma idle_phases:
  assumes inv: "tx_inv st" and frame: "tx_frame st st2" and loop: "loop_inv st2 (tx_attempts st2)"
    and same: "tx_attempts st2 = tx_attempts st"
  shows "tx_inv st2"
proof -
  obtain pre p post where p: "db_products (tx_db st) = pre @ p # post" "tx_product st = locked_of_row p"
    "product_ok p" using tx_inv_row [OF inv] by metis
  have "lp_reserved (tx_product st2) = lp_reserved (tx_product st)"
    using tx_inv_loop_inv [OF inv] loop same by (simp add: loop_inv_def)
  then have "tx_product st2 = tx_product st" using frame by (auto simp: tx_frame_def)
  then show ?thesis
    using tx_inv_after_loops [OF inv frame loop p(1,2) _ _ p(3)] p frame
    by (auto simp: tx_frame_def)
qed

lemma reconcile_bounded_Inr:
  assumes inv: "tx_inv st" and limit: "0 \<le> limit"
    and rec: "reconcile_locked_product_bounded rp env st limit = Inr (st', n, mw)"
  shows "tx_inv st'" and "reconcile_frame st st'"
    and "tx_attempts st' = reconcile_spec rp (tx_now st) (lp_stock (tx_product st)) (nat limit) (tx_attempts st)"
    and "0 \<le> n" and "n \<le> limit" and "has_reconciliation_work st' = Inr mw"
proof -
  obtain st1 n1 as1 st2 as2 where
      e: "expire_loop limit st 0 (tx_attempts st) = Inr (st1, n1, as1)"
    and s: "(if lp_stock (tx_product st1) = 0 then sold_out_loop limit st1 n1 as1
            else promote_loop rp env limit st1
                   (i32 (lp_stock (tx_product st1) - lp_reserved (tx_product st1))) n1 as1) = Inr (st2, n, as2)"
    and w: "(if n > 0 then store_reserved (lp_reserved (tx_product st)) (st2\<lparr>tx_attempts := as2\<rparr>)
            else Inr (st2\<lparr>tx_attempts := as2\<rparr>)) = Inr st'"
    and m: "has_reconciliation_work st' = Inr mw"
    using rec unfolding reconcile_locked_product_bounded_def Let_def by auto
  show "has_reconciliation_work st' = Inr mw" by (rule m)
  note P = phases_Inr [OF tx_inv_loop_inv [OF inv] limit e s]
  show "0 \<le> n" "n \<le> limit" using P(4,5) .
  let ?st2 = "st2\<lparr>tx_attempts := as2\<rparr>"
  have frame: "tx_frame st ?st2" using P(2) by (simp add: tx_frame_def)
  have loop2: "loop_inv ?st2 (tx_attempts ?st2)" using P(1) by (simp add: loop_inv_def)
  have "tx_inv st' \<and> reconcile_frame st st' \<and> tx_attempts st' = as2"
  proof (cases "n > 0")
    case True
    then show ?thesis using store_reserved_Inr [OF inv frame loop2] w by auto
  next
    case False
    then have st': "st' = ?st2" and "n = 0" using w P(4) by auto
    then show ?thesis
      using idle_phases [OF inv frame loop2] P(6) tx_frame_reconcile [OF frame] by simp
  qed
  then show "tx_inv st'" "reconcile_frame st st'"
    "tx_attempts st' = reconcile_spec rp (tx_now st) (lp_stock (tx_product st)) (nat limit) (tx_attempts st)"
    using P(3) by auto
qed

lemma reconcile_Inr:
  assumes inv: "tx_inv st" and rec: "reconcile_locked_product rp env st = Inr st'"
  shows "tx_inv st'" and "reconcile_frame st st'"
    and "tx_attempts st' = reconcile_spec rp (tx_now st) (lp_stock (tx_product st))
           (2 * length (tx_attempts st) + 1) (tx_attempts st)"
proof -
  obtain n mw where b: "reconcile_locked_product_bounded rp env st (int (length (tx_attempts st)) * 2 + 1) =
      Inr (st', n, mw)" using rec by (auto simp: reconcile_locked_product_def)
  have "nat (int (length (tx_attempts st)) * 2 + 1) = 2 * length (tx_attempts st) + 1" by simp
  with reconcile_bounded_Inr(1-3) [OF inv _ b] show "tx_inv st'" "reconcile_frame st st'"
    "tx_attempts st' = reconcile_spec rp (tx_now st) (lp_stock (tx_product st))
           (2 * length (tx_attempts st) + 1) (tx_attempts st)" by simp_all
qed

section \<open>Quiescence and queue order\<close>

lemma advance_set:
  "b \<in> set (advance k P f as) \<Longrightarrow> b \<in> set as \<or> (\<exists>a\<in>set as. P a \<and> b = f a)"
  by (induction as arbitrary: k) (auto split: if_splits)

lemma matching_advance:
  "(\<And>a. a \<in> set as \<Longrightarrow> \<not> P (f a)) \<Longrightarrow> matching P (advance k P f as) = matching P as - k"
  by (induction as arbitrary: k) auto

lemma reserving_advance_invite:
  "reserving (advance k is_waiting (invite_row rp now) as) = reserving as + int (min k (matching is_waiting as))"
proof (induction as arbitrary: k)
  case (Cons a as)
  then show ?case by (cases k)
    (auto simp: is_waiting_def invite_row_def set_invited_def reserves_stock_def)
qed simp

lemma matching_0: "matching P as = 0 \<longleftrightarrow> (\<forall>a\<in>set as. \<not> P a)"
  by (simp add: matching_def filter_empty_conv)

lemma not_overdue_expired: "\<not> overdue_at now (expire_row now' a)"
  by (simp add: expire_row_def expiry_target_def set_terminal_def overdue_at_def)

lemma has_work_in_Inr:
  assumes "\<And>a. a \<in> set as \<Longrightarrow> row_ok a"
  shows "has_work_in p now available as =
    Inr (\<exists>a\<in>set as. overdue_at now a \<or> is_waiting a \<and> (lp_stock p = 0 \<or> available > 0))"
  using assms by (induction as) (auto simp: row_ok_overdue is_waiting_def)

lemma coherent_row_ok: "tx_inv st \<Longrightarrow> a \<in> set (tx_attempts st) \<Longrightarrow> row_ok a"
  by (auto simp: tx_inv_def db_inv_def attempts_inv_def coherent_def)

text \<open>With a budget of at least two transitions per attempt nothing is left to do.\<close>

lemma reconcile_spec_quiet:
  assumes ttl: "0 < rp_invitation_ttl rp" and limit: "2 * length mem \<le> limit"
    and res: "reserving (advance limit (overdue_at now) (expire_row now) mem) \<le> stock"
    and a: "a \<in> set (reconcile_spec rp now stock limit mem)"
  shows "\<not> overdue_at now a"
    and "is_waiting a \<Longrightarrow> stock \<noteq> 0 \<and> reserving (reconcile_spec rp now stock limit mem) = stock"
proof -
  let ?mem1 = "advance limit (overdue_at now) (expire_row now) mem"
  let ?b = "limit - matching (overdue_at now) mem"
  have m: "matching (overdue_at now) mem \<le> limit" "matching is_waiting ?mem1 \<le> ?b"
    using matching_le [of "overdue_at now" mem] matching_le [of is_waiting ?mem1] limit by simp_all
  have "matching (overdue_at now) ?mem1 = 0"
    using m(1) by (simp add: matching_advance not_overdue_expired)
  then have quiet1: "\<not> overdue_at now x" if "x \<in> set ?mem1" for x using that by (simp add: matching_0)
  have moved: "\<not> overdue_at now (set_terminal SoldOut ''sold_out'' now x)"
    "\<not> overdue_at now (invite_row rp now x)" for x
    using ttl by (simp_all add: overdue_at_def set_terminal_def invite_row_def set_invited_def)
  have "\<exists>k f. a \<in> set (advance k is_waiting f ?mem1) \<and> (\<forall>x. \<not> overdue_at now (f x))"
    using a moved unfolding reconcile_spec_def Let_def by (cases "stock = 0") auto
  then show "\<not> overdue_at now a" using advance_set quiet1 by metis
  assume w: "is_waiting a"
  show "stock \<noteq> 0 \<and> reserving (reconcile_spec rp now stock limit mem) = stock"
  proof (cases "stock = 0")
    case True
    have "matching is_waiting (advance ?b is_waiting (set_terminal SoldOut ''sold_out'' now) ?mem1) = 0"
      using m(2) by (simp add: matching_advance is_waiting_def set_terminal_def)
    then show ?thesis using a w True by (auto simp: reconcile_spec_def Let_def matching_0)
  next
    case False
    let ?k = "min ?b (nat (stock - reserving ?mem1))"
    have "matching is_waiting (advance ?k is_waiting (invite_row rp now) ?mem1) \<noteq> 0"
      using a w False by (auto simp: reconcile_spec_def Let_def matching_0)
    then have "matching is_waiting ?mem1 - ?k \<noteq> 0"
      by (subst (asm) matching_advance) (simp_all add: is_waiting_def invite_row_def set_invited_def)
    then have "?k < matching is_waiting ?mem1" by linarith
    then have "int (min ?k (matching is_waiting ?mem1)) = stock - reserving ?mem1"
      using m(2) res by linarith
    then show ?thesis using False
      by (simp add: reconcile_spec_def Let_def reserving_advance_invite)
  qed
qed

lemma reserving_expired_le:
  "reserving (advance k (overdue_at now) (expire_row now) as) \<le> reserving as"
proof (induction as arbitrary: k)
  case (Cons a as)
  show ?case using Cons [of "k - 1"] Cons [of k]
    by (auto simp: overdue_reserves expire_row_releases)
qed simp

lemma reconcile_bounded_quiet:
  assumes inv: "tx_inv st" and ttl: "0 < rp_invitation_ttl rp"
    and limit: "2 * int (length (tx_attempts st)) \<le> limit"
    and rec: "reconcile_locked_product_bounded rp env st limit = Inr (st', n, mw)"
  shows "\<not> mw"
proof -
  have l0: "0 \<le> limit" using limit by simp
  note R = reconcile_bounded_Inr [OF inv l0 rec]
  note fr = reconcile_frameD [OF R(2)]
  note loop' = tx_inv_loop_inv [OF R(1)]
  let ?p = "tx_product st'"
  have "i32 (lp_stock ?p - lp_reserved ?p) = lp_stock ?p - lp_reserved ?p"
    using loop' reserving_nonneg(1) [of "tx_attempts st'"]
    by (intro i32_id) (auto simp: loop_inv_def min_int32_def simp del: reserving_nonneg)
  then have "mw = (\<exists>a\<in>set (tx_attempts st'). overdue_at (tx_now st) a \<or>
      is_waiting a \<and> (lp_stock ?p = 0 \<or> lp_stock ?p - lp_reserved ?p > 0))"
    using R(6) fr(1) has_work_in_Inr [of "tx_attempts st'"] coherent_row_ok [OF R(1)]
    by (simp add: has_reconciliation_work_def)
  moreover have lim: "2 * length (tx_attempts st) \<le> nat limit" using limit by simp
  moreover have "reserving (advance (nat limit) (overdue_at (tx_now st)) (expire_row (tx_now st)) (tx_attempts st))
      \<le> lp_stock (tx_product st)"
    by (rule order_trans [OF reserving_expired_le])
       (use tx_inv_loop_inv [OF inv] in \<open>simp add: loop_inv_def\<close>)
  moreover have "lp_reserved ?p = reserving (tx_attempts st')" using loop' by (simp add: loop_inv_def)
  ultimately show ?thesis
    using reconcile_spec_quiet [OF ttl lim, of "tx_now st" "lp_stock (tx_product st)"] R(3) fr(3)
    by force
qed

text \<open>
  Queue order: an attempt is invited only after every waiting attempt before it.
\<close>

lemma advance_prefix:
  assumes "i < j" and "j < length as" and "P (as ! i)" and "P (as ! j)"
    and "advance k P f as ! j \<noteq> as ! j"
  shows "advance k P f as ! i = f (as ! i)"
  using assms
proof (induction as arbitrary: i j k)
  case (Cons a as)
  obtain j' where j: "j = Suc j'" using Cons.prems(1) by (cases j) auto
  have k: "k \<noteq> 0" using Cons.prems(5) by (cases k) auto
  show ?case
  proof (cases i)
    case 0
    then show ?thesis using Cons.prems(3) k by simp
  next
    case (Suc i')
    then show ?thesis using Cons.IH [of i' j'] Cons.prems j k by (auto split: if_splits)
  qed
qed simp

end
