(* ===== verification/Canonical.thy ===== *)
theory Canonical
  imports Domain
begin

text \<open>
  The canonical encodings of commands (\<open>internal/pkg/domain/queue_attempt.go\<close> and
  \<open>payment.go\<close>): the framed field list that is hashed to recognise a replayed command, and the
  canonical JSON document of a payment stored in the inbox, with Go's string escaping. The
  lemmas show that two commands with the same digest are the same command, up to the
  normalisation the hash applies, unless SHA-256 itself collides on them.
\<close>

section \<open>Canonical hashes\<close>

text \<open>A field longer than \<open>math.MaxUint32\<close> bytes panics before anything is written.\<close>

definition canonical_hash :: "externals \<Rightarrow> bytes list \<Rightarrow> go_error + bytes" where
  "canonical_hash ext fs =
     (if frameable fs then Inr (ext_sha256 ext (frame_fields fs)) else Inl Panic)"

definition stock_fields :: "externals \<Rightarrow> stock_adjustment_command \<Rightarrow> bytes list" where
  "stock_fields ext cmd =
     [''v1'', to_lower (ext_uuid_string ext (sa_product cmd)), show_int (sa_delta cmd),
      trim_space (sa_reason cmd), trim_space (sa_reference cmd)]"

definition canonical_stock_adjustment_hash ::
  "externals \<Rightarrow> stock_adjustment_command \<Rightarrow> go_error + bytes" where
  "canonical_stock_adjustment_hash ext cmd = canonical_hash ext (stock_fields ext cmd)"

definition payment_fields :: "externals \<Rightarrow> payment_command \<Rightarrow> bytes list" where
  "payment_fields ext cmd =
     [''v1'', pc_provider cmd, pc_event_id cmd, to_lower (ext_uuid_string ext (pc_attempt cmd)),
      outcome_text (pc_outcome cmd), pc_reference cmd]"

definition canonical_payment_hash :: "externals \<Rightarrow> payment_command \<Rightarrow> go_error + bytes" where
  "canonical_payment_hash ext cmd = canonical_hash ext (payment_fields ext cmd)"

section \<open>JSON documents\<close>

definition quoted :: "string \<Rightarrow> string" where
  "quoted s = CHR 0x22 # s @ [CHR 0x22]"

definition in_range :: "nat \<Rightarrow> nat \<Rightarrow> char \<Rightarrow> bool" where
  "in_range lo hi c \<longleftrightarrow> lo \<le> byte_of c \<and> byte_of c \<le> hi"

text \<open>
  The length of the first multi-byte rune of a byte string, \<open>0\<close> where \<open>utf8.DecodeRune\<close>
  reports an invalid encoding.
\<close>

definition continuation :: "char \<Rightarrow> bool" where "continuation c \<longleftrightarrow> in_range 0x80 0xBF c"

definition three_byte_start :: "char \<Rightarrow> char \<Rightarrow> bool" where
  "three_byte_start a b \<longleftrightarrow>
     in_range 0xE0 0xE0 a \<and> in_range 0xA0 0xBF b \<or>
     in_range 0xE1 0xEC a \<and> continuation b \<or>
     in_range 0xED 0xED a \<and> in_range 0x80 0x9F b \<or>
     in_range 0xEE 0xEF a \<and> continuation b"

definition four_byte_start :: "char \<Rightarrow> char \<Rightarrow> bool" where
  "four_byte_start a b \<longleftrightarrow>
     in_range 0xF0 0xF0 a \<and> in_range 0x90 0xBF b \<or>
     in_range 0xF1 0xF3 a \<and> continuation b \<or>
     in_range 0xF4 0xF4 a \<and> in_range 0x80 0x8F b"

definition rune_length :: "bytes \<Rightarrow> nat" where
  "rune_length s = (case s of
     a # b # c # d # _ \<Rightarrow>
       if in_range 0xC2 0xDF a \<and> continuation b then 2
       else if three_byte_start a b \<and> continuation c then 3
       else if four_byte_start a b \<and> continuation c \<and> continuation d then 4 else 0
   | a # b # c # [] \<Rightarrow>
       if in_range 0xC2 0xDF a \<and> continuation b then 2
       else if three_byte_start a b \<and> continuation c then 3 else 0
   | a # b # [] \<Rightarrow> if in_range 0xC2 0xDF a \<and> continuation b then 2 else 0
   | _ \<Rightarrow> 0)"

definition hex_digit :: "nat \<Rightarrow> char" where
  "hex_digit n = ''0123456789abcdef'' ! (n mod 16)"

definition json_ascii :: "char \<Rightarrow> string" where
  "json_ascii c =
     (if byte_of c = 0x22 \<or> byte_of c = 0x5C then [CHR 0x5C, c]
      else if byte_of c = 8 then [CHR 0x5C, CHR ''b'']
      else if byte_of c = 12 then [CHR 0x5C, CHR ''f'']
      else if byte_of c = 10 then [CHR 0x5C, CHR ''n'']
      else if byte_of c = 13 then [CHR 0x5C, CHR ''r'']
      else if byte_of c = 9 then [CHR 0x5C, CHR ''t'']
      else if byte_of c < 0x20 \<or> c \<in> set ''<>&''
      then CHR 0x5C # ''u00'' @ [hex_digit (byte_of c div 16), hex_digit (byte_of c)]
      else [c])"

text \<open>\<open>encoding/json\<close>'s string escaping, with HTML escaping on as in \<open>json.Marshal\<close>.\<close>

function json_escape :: "bytes \<Rightarrow> bytes" where
  "json_escape [] = []"
| "json_escape (c # cs) =
     (if byte_of c < 0x80 then json_ascii c @ json_escape cs
      else let n = rune_length (c # cs) in
        if n = 0 then CHR 0x5C # ''ufffd'' @ json_escape cs
        else if take n (c # cs) = map char_of [0xE2, 0x80, 0xA8 :: nat]
        then CHR 0x5C # ''u2028'' @ json_escape (drop (n - 1) cs)
        else if take n (c # cs) = map char_of [0xE2, 0x80, 0xA9 :: nat]
        then CHR 0x5C # ''u2029'' @ json_escape (drop (n - 1) cs)
        else take n (c # cs) @ json_escape (drop (n - 1) cs))"
  by pat_completeness auto
termination by (relation "measure length") auto

definition json_string :: "bytes \<Rightarrow> bytes" where "json_string s = quoted (json_escape s)"

text \<open>A JSON object from its members, each with an already rendered value.\<close>

fun json_members :: "(string \<times> bytes) list \<Rightarrow> bytes" where
  "json_members [] = []"
| "json_members [(k, v)] = quoted k @ '':'' @ v"
| "json_members ((k, v) # m # ms) = quoted k @ '':'' @ v @ '','' @ json_members (m # ms)"

definition json_object :: "(string \<times> bytes) list \<Rightarrow> bytes" where
  "json_object ms = CHR ''{'' # json_members ms @ [CHR ''}'']"

definition canonical_payment_payload :: "externals \<Rightarrow> payment_command \<Rightarrow> bytes" where
  "canonical_payment_payload ext cmd = json_object
     [(''version'', json_string ''v1''),
      (''provider'', json_string (pc_provider cmd)),
      (''event_id'', json_string (pc_event_id cmd)),
      (''attempt_id'', json_string (to_lower (ext_uuid_string ext (pc_attempt cmd)))),
      (''outcome'', json_string (outcome_text (pc_outcome cmd))),
      (''payment_reference'', json_string (pc_reference cmd))]"

text \<open>The bodies of a stock adjustment response.\<close>

definition applied_adjustment_body :: "int \<Rightarrow> int \<Rightarrow> bytes" where
  "applied_adjustment_body before after = json_object
     [(''stock_before'', show_int before), (''stock_after'', show_int after)]"

definition rejected_adjustment_body :: "sentinel \<Rightarrow> bytes" where
  "rejected_adjustment_body e = json_object
     [(''error'', json_object
        [(''code'', json_string ''stock_adjustment_rejected''),
         (''message'', json_string (sentinel_message e))])]"

text \<open>\<open>{"code":...}\<close>, the body of every payment response.\<close>

definition payment_response_body :: "string \<Rightarrow> bytes" where
  "payment_response_body code = json_object [(''code'', json_string code)]"

section \<open>Equal digests mean equal commands\<close>

lemma canonical_hash_Inr:
  "canonical_hash ext fs = Inr h \<longleftrightarrow> frameable fs \<and> h = ext_sha256 ext (frame_fields fs)"
  by (auto simp: canonical_hash_def)

text \<open>
  \<open>no_collision\<close> states of one pair of byte streams that SHA-256 tells them apart, and
  \<open>uuid_text_injective\<close> that the canonical text of a UUID determines it.
\<close>

definition no_collision :: "externals \<Rightarrow> bytes \<Rightarrow> bytes \<Rightarrow> bool" where
  "no_collision ext x y \<longleftrightarrow> (ext_sha256 ext x = ext_sha256 ext y \<longrightarrow> x = y)"

definition uuid_text_injective :: "externals \<Rightarrow> bool" where
  "uuid_text_injective ext \<longleftrightarrow> inj (\<lambda>u. to_lower (ext_uuid_string ext u))"

lemma canonical_hash_fields:
  assumes "canonical_hash ext f = Inr h" and "canonical_hash ext g = Inr h"
    and "no_collision ext (frame_fields f) (frame_fields g)"
  shows "f = g"
  using assms frame_fields_inj by (auto simp: canonical_hash_Inr no_collision_def)

lemma outcome_text_inj: "outcome_text x = outcome_text y \<longleftrightarrow> x = y"
  by (cases x; cases y) simp_all

lemma payment_fields_inj:
  assumes "payment_fields ext c = payment_fields ext d" and "uuid_text_injective ext"
  shows "c = d"
  using assms by (intro payment_command.equality)
    (auto simp: payment_fields_def outcome_text_inj uuid_text_injective_def dest: injD)

lemma stock_fields_inj:
  assumes "stock_fields ext c = stock_fields ext d" and "uuid_text_injective ext"
  shows "sa_product c = sa_product d \<and> sa_delta c = sa_delta d \<and>
     trim_space (sa_reason c) = trim_space (sa_reason d) \<and>
     trim_space (sa_reference c) = trim_space (sa_reference d)"
  using assms by (auto simp: stock_fields_def show_int_inj uuid_text_injective_def dest: injD)

end
