(* ===== verification/Queue_Ops.thy ===== *)
theory Queue_Ops
  imports Reconcile Canonical
begin

text \<open>
  The operations of the queue repository (\<open>internal/repository/postgres/queue_attempt.go\<close>):
  \<open>withLockedProduct\<close> and the bodies it runs for \<open>Join\<close>, \<open>StartCheckout\<close>, \<open>Cancel\<close>,
  \<open>FindCurrent\<close> and \<open>AdjustStock\<close>, with \<open>createAttempt\<close>, \<open>FindActiveByUser\<close> and
  \<open>ReconcileNextProduct\<close>. A body returns the new transaction state, the \<open>result\<close> and the
  \<open>outcomeError\<close> of the Go closure; a failed body (\<open>Inl\<close>) is rolled back.
\<close>

section \<open>Transactions on a locked product\<close>

type_synonym 'r body = "tx_state \<Rightarrow> go_error + (tx_state \<times> 'r go_return)"

definition begin_tx :: "env \<Rightarrow> db \<Rightarrow> locked_product \<Rightarrow> attempt_lock_scope \<Rightarrow> tx_state" where
  "begin_tx env d p scope = \<lparr>tx_db = d, tx_product = p, tx_now = en_clock env,
     tx_attempts = lock_product_attempts d (lp_id p) scope, tx_draws = 0\<rparr>"

definition with_locked_product ::
  "env \<Rightarrow> db \<Rightarrow> product_id \<Rightarrow> attempt_lock_scope \<Rightarrow> 'r body \<Rightarrow> go_error + (db \<times> 'r go_return)" where
  "with_locked_product env d pid scope operation =
     bindE (lock_product d pid) (\<lambda>p.
     bindE (operation (begin_tx env d p scope)) (\<lambda>(st, r). Inr (tx_db st, r)))"

text \<open>What the caller sees: a rolled-back call returns the zero result and leaves the database.\<close>

definition finish :: "db \<Rightarrow> go_error + (db \<times> 'r go_return) \<Rightarrow> db \<times> 'r go_return" where
  "finish d m = (case m of Inl e \<Rightarrow> (d, None, Some e) | Inr (d', r) \<Rightarrow> (d', r))"

section \<open>Join\<close>

definition update_product_for_new_attempt :: "tx_state \<Rightarrow> int \<Rightarrow> bool \<Rightarrow> go_error + tx_state" where
  "update_product_for_new_attempt st next_sequence reserve =
     (let p = tx_product st;
          new_reserved = i32 (lp_reserved p + (if reserve then 1 else 0))
      in
      bindE (update_products (\<lambda>r. pr_id r = lp_id p \<and> pr_next_sequence r = lp_next_sequence p \<and>
                pr_reserved r = lp_reserved p \<and> 0 \<le> new_reserved \<and> new_reserved \<le> pr_stock r)
              (\<lambda>r. r\<lparr>pr_next_sequence := next_sequence, pr_reserved := new_reserved,
                    pr_updated_at := tx_now st\<rparr>) (tx_db st)) (\<lambda>(d, n).
      bindE (guardE (n = 1) (Wrapped [Sentinel ErrReservedInvariant])) (\<lambda>_.
      Inr (st\<lparr>tx_db := d, tx_product := p\<lparr>lp_next_sequence := next_sequence,
                lp_reserved := new_reserved\<rparr>\<rparr>))))"

text \<open>A new attempt: the zero fields of the Go literal, and the NULL columns of the row.\<close>

definition blank_attempt :: "attempt_id \<Rightarrow> join_queue_command \<Rightarrow> int \<Rightarrow> time \<Rightarrow> queue_attempt" where
  "blank_attempt aid cmd sequence now =
     \<lparr>qa_id = aid, qa_product = jq_product cmd, qa_sequence = sequence, qa_user = jq_user cmd,
      qa_key = jq_key cmd, qa_state = Waiting, qa_created_at = now, qa_updated_at = now,
      qa_invited_at = None, qa_invitation_deadline = None, qa_checkout_started_at = None,
      qa_checkout_deadline = None, qa_terminal_at = None, qa_purchased_at = None,
      qa_accepted_provider = None, qa_accepted_reference = None, qa_terminal_reason = None,
      qa_terminal_message = None, qa_version = 1\<rparr>"

definition checkout_attempt :: "repo \<Rightarrow> time \<Rightarrow> queue_attempt \<Rightarrow> queue_attempt" where
  "checkout_attempt rp now a = a\<lparr>qa_state := Checkout, qa_invited_at := Some now,
     qa_invitation_deadline := Some (now + rp_invitation_ttl rp), qa_checkout_started_at := Some now,
     qa_checkout_deadline := Some (now + rp_checkout_ttl rp)\<rparr>"

definition insert_new_attempt :: "tx_state \<Rightarrow> queue_attempt \<Rightarrow> go_error + (tx_state \<times> queue_attempt)" where
  "insert_new_attempt st a =
     bindE (map_error map_postgresql_error (insert_attempt a (tx_db st))) (\<lambda>d.
     Inr (st\<lparr>tx_db := d, tx_attempts := tx_attempts st @ [a]\<rparr>, a))"

definition create_attempt ::
  "repo \<Rightarrow> env \<Rightarrow> tx_state \<Rightarrow> join_queue_command \<Rightarrow> go_error + (tx_state \<times> queue_attempt)" where
  "create_attempt rp env st cmd =
     bindE (next_queue_sequence (lp_next_sequence (tx_product st))) (\<lambda>next_sequence.
     let (aid, st1) = draw_uuid env st;
         p = tx_product st1;
         a = blank_attempt aid cmd (lp_next_sequence p) (tx_now st1)
     in
     if lp_reserved p < lp_stock p then
       bindE (update_product_for_new_attempt st1 next_sequence True) (\<lambda>st2.
       insert_new_attempt st2 (checkout_attempt rp (tx_now st1) a))
     else
       bindE (waiting_capacity (lp_stock p) (rp_buffer_percent rp)) (\<lambda>capacity.
       if count_waiting (tx_attempts st1) \<ge> capacity then Inl (Sentinel ErrQueueFull)
       else bindE (update_product_for_new_attempt st1 next_sequence False) (\<lambda>st2.
            insert_new_attempt st2 a)))"

definition position_of :: "tx_state \<Rightarrow> queue_attempt \<Rightarrow> int" where
  "position_of st a =
     (if qa_state a = Waiting then count_waiting_ahead (tx_attempts st) (qa_sequence a) else 0)"

text \<open>The deferred assignment of \<open>TotalWaiting\<close> runs on every path.\<close>

definition join_found :: "tx_state \<Rightarrow> queue_attempt \<Rightarrow> bool \<Rightarrow> tx_state \<times> join_queue_result go_return" where
  "join_found st a created =
     (st, Some \<lparr>jr_attempt = Some a, jr_position_ahead = position_of st a,
                jr_total_waiting = count_waiting (tx_attempts st), jr_created = created\<rparr>, None)"

definition join_refused :: "tx_state \<Rightarrow> sentinel \<Rightarrow> tx_state \<times> join_queue_result go_return" where
  "join_refused st e =
     (st, Some \<lparr>jr_attempt = None, jr_position_ahead = 0,
                jr_total_waiting = count_waiting (tx_attempts st), jr_created = False\<rparr>,
      Some (Sentinel e))"

definition join_new :: "repo \<Rightarrow> env \<Rightarrow> join_queue_command \<Rightarrow> join_queue_result body" where
  "join_new rp env cmd st =
     (if \<not> lp_queue_enabled (tx_product st) then Inr (join_refused st ErrQueueDisabled)
      else if lp_stock (tx_product st) = 0 then
        bindE (reconcile_locked_product rp env st) (\<lambda>st'. Inr (join_refused st' ErrOutOfStock))
      else
        bindE (reconcile_locked_product rp env st) (\<lambda>st'.
        case create_attempt rp env st' cmd of
          Inl e \<Rightarrow> if errors_is e ErrQueueFull then Inr (join_refused st' ErrQueueFull) else Inl e
        | Inr (st'', a) \<Rightarrow> Inr (join_found st'' a True)))"

definition join_body :: "repo \<Rightarrow> env \<Rightarrow> join_queue_command \<Rightarrow> join_queue_result body" where
  "join_body rp env cmd st =
     (case find_replay (tx_attempts st) (jq_user cmd) (jq_key cmd) of
        Some replay \<Rightarrow> Inr (join_found st replay False)
      | None \<Rightarrow>
        (case find_active_attempt (tx_attempts st) (jq_user cmd) of
           None \<Rightarrow> join_new rp env cmd st
         | Some active \<Rightarrow>
             bindE (is_effective_at active (tx_now st)) (\<lambda>effective.
             if effective then Inr (join_found st active False)
             else
               bindE (reconcile_locked_product rp env st) (\<lambda>st'.
               case find_active_attempt (tx_attempts st') (jq_user cmd) of
                 Some again \<Rightarrow> Inr (join_found st' again False)
               | None \<Rightarrow> join_new rp env cmd st'))))"

definition join :: "repo \<Rightarrow> env \<Rightarrow> db \<Rightarrow> join_queue_command \<Rightarrow> db \<times> join_queue_result go_return" where
  "join rp env d cmd = finish d (with_locked_product env d (jq_product cmd)
     \<lparr>ls_user = jq_user cmd, ls_key = jq_key cmd, ls_attempt = 0, ls_include_latest = False\<rparr>
     (join_body rp env cmd))"

section \<open>StartCheckout, Cancel, FindCurrent\<close>

definition find_attempt_product :: "db \<Rightarrow> attempt_id \<Rightarrow> go_error + product_id" where
  "find_attempt_product d aid = (case find (\<lambda>a. qa_id a = aid) (db_attempts d) of
     None \<Rightarrow> Inl (Sentinel ErrAttemptNotFound) | Some a \<Rightarrow> Inr (qa_product a))"

definition start_checkout_body :: "repo \<Rightarrow> env \<Rightarrow> start_checkout_command \<Rightarrow> queue_attempt body" where
  "start_checkout_body rp env cmd st =
     bindE (reconcile_locked_product rp env st) (\<lambda>st'.
     case find_attempt_by_id (tx_attempts st') (sc_attempt cmd) of
       None \<Rightarrow> Inr (st', None, Some (Sentinel ErrAttemptNotFound))
     | Some a \<Rightarrow>
         if qa_user a \<noteq> sc_user cmd then Inr (st', None, Some (Sentinel ErrAttemptNotFound))
         else if qa_state a = Checkout then Inr (st', Some a, None)
         else if qa_state a = Invited then
           bindE (transition_to_checkout st' a (tx_now st' + rp_checkout_ttl rp)) (\<lambda>(st'', updated).
           Inr (st'', Some updated, None))
         else if qa_state a \<in> {InviteExpired, CheckoutExpired, SoldOut}
         then Inr (st', Some a, Some (Sentinel ErrAttemptGone))
         else Inr (st', Some a, Some (Sentinel ErrInvalidTransition)))"

definition start_checkout ::
  "repo \<Rightarrow> env \<Rightarrow> db \<Rightarrow> start_checkout_command \<Rightarrow> db \<times> queue_attempt go_return" where
  "start_checkout rp env d cmd = finish d
     (bindE (find_attempt_product d (sc_attempt cmd)) (\<lambda>pid.
      with_locked_product env d pid (no_scope\<lparr>ls_attempt := sc_attempt cmd\<rparr>)
        (start_checkout_body rp env cmd)))"

definition latest_scope :: "user_id \<Rightarrow> attempt_lock_scope" where
  "latest_scope user = no_scope\<lparr>ls_user := user, ls_include_latest := True\<rparr>"

definition cancel_body :: "repo \<Rightarrow> env \<Rightarrow> cancel_queue_command \<Rightarrow> queue_attempt body" where
  "cancel_body rp env cmd st =
     bindE (reconcile_locked_product rp env st) (\<lambda>st'.
     case latest_attempt_for_user (tx_attempts st') (cq_user cmd) of
       None \<Rightarrow> Inr (st', None, Some (Sentinel ErrAttemptNotFound))
     | Some a \<Rightarrow>
         if qa_state a = Purchased then Inr (st', None, Some (Sentinel ErrAlreadyPurchased))
         else if is_terminal_state (qa_state a) then Inr (st', Some a, None)
         else
           bindE (transition_to_cancelled st' a) (\<lambda>(st'', cancelled).
           bindE (reconcile_locked_product rp env st'') (\<lambda>st3.
           Inr (st3, Some cancelled, None))))"

definition cancel :: "repo \<Rightarrow> env \<Rightarrow> db \<Rightarrow> cancel_queue_command \<Rightarrow> db \<times> queue_attempt go_return" where
  "cancel rp env d cmd = finish d
     (with_locked_product env d (cq_product cmd) (latest_scope (cq_user cmd)) (cancel_body rp env cmd))"

definition find_current_body :: "repo \<Rightarrow> env \<Rightarrow> user_id \<Rightarrow> current_queue_result body" where
  "find_current_body rp env user st =
     bindE (reconcile_locked_product rp env st) (\<lambda>st'.
     let attempts = tx_attempts st' in
     case (case find_active_attempt attempts user of
             Some a \<Rightarrow> Some a | None \<Rightarrow> latest_attempt_for_user attempts user) of
       None \<Rightarrow> Inr (st', None, Some (Sentinel ErrAttemptNotFound))
     | Some a \<Rightarrow> Inr (st', Some \<lparr>cr_attempt = a, cr_position_ahead = position_of st' a,
                        cr_total_waiting = count_waiting attempts\<rparr>, None))"

definition find_current ::
  "repo \<Rightarrow> env \<Rightarrow> db \<Rightarrow> product_id \<Rightarrow> user_id \<Rightarrow> db \<times> current_queue_result go_return" where
  "find_current rp env d pid user = finish d
     (with_locked_product env d pid (latest_scope user) (find_current_body rp env user))"

text \<open>\<open>ORDER BY updated_at DESC, product_id\<close>, then one transaction per product.\<close>

definition active_products :: "db \<Rightarrow> user_id \<Rightarrow> product_id list" where
  "active_products d user = map qa_product
     (sort_key (\<lambda>a. (- qa_updated_at a, qa_product a))
       (filter (\<lambda>a. qa_user a = user \<and> is_active_state (qa_state a)) (db_attempts d)))"

fun find_current_each ::
  "repo \<Rightarrow> env list \<Rightarrow> user_id \<Rightarrow> db \<Rightarrow> product_id list \<Rightarrow> db \<times> current_queue_result list go_return" where
  "find_current_each rp envs user d [] = (d, Some [], None)"
| "find_current_each rp [] user d (pid # pids) = (d, None, Some (Wrapped []))"
| "find_current_each rp (env # envs) user d (pid # pids) =
     (case find_current rp env d pid user of
        (d', current, Some e) \<Rightarrow>
          if errors_is e ErrAttemptNotFound then find_current_each rp envs user d' pids
          else (d', None, Some e)
      | (d', current, None) \<Rightarrow>
          (case find_current_each rp envs user d' pids of
             (d'', Some results, None) \<Rightarrow>
               (d'', Some ((case current of
                   Some c \<Rightarrow> if is_active_state (qa_state (cr_attempt c)) then [c] else []
                 | None \<Rightarrow> []) @ results), None)
           | failed \<Rightarrow> failed))"

definition find_active_by_user ::
  "repo \<Rightarrow> env list \<Rightarrow> db \<Rightarrow> user_id \<Rightarrow> db \<times> current_queue_result list go_return" where
  "find_active_by_user rp envs d user = find_current_each rp envs user d (active_products d user)"

section \<open>AdjustStock\<close>

record stored_adjustment =
  st_payload_hash :: bytes
  st_status :: adjustment_status
  st_result :: stock_adjustment_result

text \<open>
  \<open>None\<close> is \<open>sql.ErrNoRows\<close>. A NULL response of a row still \<open>received\<close> cannot be scanned
  into an \<open>int16\<close>, which is an error of the driver (no sentinel).
\<close>

definition find_stock_adjustment ::
  "db \<Rightarrow> product_id \<Rightarrow> idempotency_key \<Rightarrow> go_error + stored_adjustment option" where
  "find_stock_adjustment d pid key =
     (case find (\<lambda>r. ad_product r = pid \<and> ad_key r = key) (db_adjustments d) of
        None \<Rightarrow> Inr None
      | Some r \<Rightarrow>
          (case ad_response_status r of
             None \<Rightarrow> Inl (Wrapped [])
           | Some status \<Rightarrow> Inr (Some
               \<lparr>st_payload_hash = ad_payload_hash r, st_status = ad_status r,
                st_result = \<lparr>sr_id = ad_id r,
                  sr_before = (case ad_before r of None \<Rightarrow> 0 | Some b \<Rightarrow> b),
                  sr_after = (case ad_after r of None \<Rightarrow> 0 | Some b \<Rightarrow> b),
                  sr_http_status = status,
                  sr_body = (case ad_response_body r of None \<Rightarrow> [] | Some b \<Rightarrow> b),
                  sr_replayed = False\<rparr>\<rparr>)))"

definition rejected_adjustment_error :: "bytes \<Rightarrow> sentinel" where
  "rejected_adjustment_error body =
     (if bytes_contains body (sentinel_message ErrStockBelowZero) then ErrStockBelowZero
      else if bytes_contains body (sentinel_message ErrStockBelowReserved) then ErrStockBelowReserved
      else if bytes_contains body (sentinel_message ErrStockOverflow) then ErrStockOverflow
      else ErrConflict)"

text \<open>
  A failed \<open>INSERT\<close> aborts the PostgreSQL transaction; the closure still returns nil, and the
  commit of an aborted transaction is an error of the driver, so the call fails.
\<close>

definition persist_rejected_adjustment ::
  "env \<Rightarrow> tx_state \<Rightarrow> stock_adjustment_command \<Rightarrow> bytes \<Rightarrow> sentinel \<Rightarrow>
     go_error + (tx_state \<times> stock_adjustment_result go_return)" where
  "persist_rejected_adjustment env st cmd digest rejection =
     (let body = rejected_adjustment_body rejection;
          (aid, st') = draw_uuid env st
      in case insert_adjustment
           \<lparr>ad_id = aid, ad_product = sa_product cmd, ad_key = sa_key cmd, ad_delta = sa_delta cmd,
            ad_payload_hash = digest, ad_status = AdjustmentRejected, ad_before = None, ad_after = None,
            ad_response_status = Some 409, ad_response_body = Some body,
            ad_completed_at = Some (tx_now st)\<rparr> (tx_db st') of
         Inl e \<Rightarrow> Inl (Wrapped [])
       | Inr d \<Rightarrow> Inr (st'\<lparr>tx_db := d\<rparr>,
           Some \<lparr>sr_id = aid, sr_before = 0, sr_after = 0, sr_http_status = 409, sr_body = body,
                 sr_replayed = False\<rparr>, Some (Sentinel rejection)))"

definition replay_adjustment ::
  "tx_state \<Rightarrow> bytes \<Rightarrow> stored_adjustment \<Rightarrow> tx_state \<times> stock_adjustment_result go_return" where
  "replay_adjustment st digest stored =
     (if st_payload_hash stored \<noteq> digest
      then (st, None, Some (Sentinel ErrAdjustmentConflict))
      else (st, Some ((st_result stored)\<lparr>sr_replayed := True\<rparr>),
            if st_status stored = AdjustmentRejected
            then Some (Sentinel (rejected_adjustment_error (sr_body (st_result stored)))) else None))"

definition set_stock :: "tx_state \<Rightarrow> int \<Rightarrow> go_error + tx_state" where
  "set_stock st stock =
     (let p = tx_product st in
      bindE (update_products (\<lambda>r. pr_id r = lp_id p \<and> pr_stock r = lp_stock p \<and>
                pr_reserved r = lp_reserved p)
              (\<lambda>r. r\<lparr>pr_stock := stock, pr_updated_at := tx_now st\<rparr>) (tx_db st)) (\<lambda>(d, n).
      bindE (require_one_row n) (\<lambda>_.
      Inr (st\<lparr>tx_db := d, tx_product := p\<lparr>lp_stock := stock\<rparr>\<rparr>))))"

definition record_applied_adjustment ::
  "env \<Rightarrow> tx_state \<Rightarrow> stock_adjustment_command \<Rightarrow> bytes \<Rightarrow> int \<Rightarrow> int \<Rightarrow>
     go_error + (tx_state \<times> stock_adjustment_result go_return)" where
  "record_applied_adjustment env st cmd digest before after =
     (let body = applied_adjustment_body before after;
          (aid, st') = draw_uuid env st
      in bindE (map_error map_postgresql_error (insert_adjustment
           \<lparr>ad_id = aid, ad_product = sa_product cmd, ad_key = sa_key cmd, ad_delta = sa_delta cmd,
            ad_payload_hash = digest, ad_status = AdjustmentApplied, ad_before = Some before,
            ad_after = Some after, ad_response_status = Some 200, ad_response_body = Some body,
            ad_completed_at = Some (tx_now st)\<rparr> (tx_db st'))) (\<lambda>d.
         Inr (st'\<lparr>tx_db := d\<rparr>,
           Some \<lparr>sr_id = aid, sr_before = before, sr_after = after, sr_http_status = 200,
                 sr_body = body, sr_replayed = False\<rparr>, None)))"

definition adjust_stock_body ::
  "repo \<Rightarrow> env \<Rightarrow> stock_adjustment_command \<Rightarrow> bytes \<Rightarrow> stock_adjustment_result body" where
  "adjust_stock_body rp env cmd digest st =
     bindE (find_stock_adjustment (tx_db st) (sa_product cmd) (sa_key cmd)) (\<lambda>stored.
     case stored of
       Some replay \<Rightarrow> Inr (replay_adjustment st digest replay)
     | None \<Rightarrow>
         let stock_after = lp_stock (tx_product st) + sa_delta cmd in
         if stock_after < 0 then persist_rejected_adjustment env st cmd digest ErrStockBelowZero
         else if stock_after > max_int32
         then persist_rejected_adjustment env st cmd digest ErrStockOverflow
         else if stock_after < lp_reserved (tx_product st)
         then persist_rejected_adjustment env st cmd digest ErrStockBelowReserved
         else
           bindE (set_stock st (i32 stock_after)) (\<lambda>st'.
           bindE (reconcile_locked_product rp env st') (\<lambda>st''.
           record_applied_adjustment env st'' cmd digest (lp_stock (tx_product st)) (i32 stock_after))))"

definition adjust_stock ::
  "repo \<Rightarrow> env \<Rightarrow> db \<Rightarrow> stock_adjustment_command \<Rightarrow> db \<times> stock_adjustment_result go_return" where
  "adjust_stock rp env d cmd =
     (if sa_delta cmd = 0 then (d, None, Some (Wrapped [Sentinel ErrInvalidInput]))
      else finish d
        (bindE (canonical_stock_adjustment_hash (en_ext env) cmd) (\<lambda>digest.
         with_locked_product env d (sa_product cmd) no_scope (adjust_stock_body rp env cmd digest))))"

section \<open>ReconcileNextProduct\<close>

record reconciliation_result =
  rc_product :: product_id
  rc_transitions :: int
  rc_more_work :: bool

definition no_reconciliation :: reconciliation_result where
  "no_reconciliation = \<lparr>rc_product = 0, rc_transitions = 0, rc_more_work = False\<rparr>"

text \<open>The \<open>EXISTS\<close> clause of the selection; comparing with a NULL deadline is not true.\<close>

definition attempt_eligible :: "time \<Rightarrow> product_row \<Rightarrow> queue_attempt \<Rightarrow> bool" where
  "attempt_eligible clock p a \<longleftrightarrow> qa_product a = pr_id p \<and>
     (overdue_at clock a \<or>
      qa_state a = Waiting \<and> (pr_stock p = 0 \<or> pr_stock p - pr_reserved p > 0))"

definition product_eligible :: "env \<Rightarrow> db \<Rightarrow> product_id list \<Rightarrow> product_row \<Rightarrow> bool" where
  "product_eligible env d excluded p \<longleftrightarrow> pr_id p \<notin> set excluded \<and>
     list_ex (attempt_eligible (en_select_clock env) p) (db_attempts d)"

definition select_eligible_product :: "env \<Rightarrow> db \<Rightarrow> product_id list \<Rightarrow> locked_product option" where
  "select_eligible_product env d excluded =
     (case filter (\<lambda>p. \<not> en_row_locked env (pr_id p))
             (sort_key (\<lambda>p. (pr_updated_at p, pr_id p))
               (filter (product_eligible env d excluded) (db_products d))) of
        [] \<Rightarrow> None | p # _ \<Rightarrow> Some (locked_of_row p))"

definition reconcile_next_product ::
  "repo \<Rightarrow> env \<Rightarrow> db \<Rightarrow> int \<Rightarrow> product_id list \<Rightarrow> db \<times> reconciliation_result \<times> go_error option" where
  "reconcile_next_product rp env d limit excluded =
     (if limit \<le> 0 then (d, no_reconciliation, Some (Wrapped [Sentinel ErrInvalidInput]))
      else case select_eligible_product env d excluded of
        None \<Rightarrow> (d, no_reconciliation, None)
      | Some p \<Rightarrow>
          (case reconcile_locked_product_bounded rp env (begin_tx env d p no_scope) limit of
             Inl e \<Rightarrow> (d, no_reconciliation\<lparr>rc_product := lp_id p\<rparr>, Some e)
           | Inr (st, transitions, more_work) \<Rightarrow>
               (tx_db st, \<lparr>rc_product = lp_id p, rc_transitions = transitions,
                           rc_more_work = more_work\<rparr>, None)))"

end
