(* ===== verification/Payment.thy ===== *)
theory Payment
  imports Queue_Ops
begin

text \<open>
  The payment inbox (\<open>internal/repository/postgres/payment.go\<close>): claiming an event under a
  fencing token and a lease, applying a claimed payment to its attempt, compensating payments
  that cannot buy anything, and retrying. Each definition is one function of the file; a
  function that opens its own transaction takes the database and returns it.
\<close>

section \<open>Claims and results\<close>

definition payment_claim_lease :: time where "payment_claim_lease = 30000000"
definition payment_retry_backoff :: time where "payment_retry_backoff = 5000000"
definition payment_compensation_type :: string where
  "payment_compensation_type = ''payment.compensation_required''"

record payment_result =
  pt_inbox :: uuid
  pt_code :: string
  pt_http_status :: int
  pt_body :: bytes
  pt_replayed :: bool

record payment_claim =
  cl_inbox :: uuid
  cl_token :: uuid
  cl_generation :: int
  cl_payload_hash :: bytes
  cl_command :: payment_command

datatype payment_claim_result = Claimed payment_claim | Responded payment_result

definition payment_result_of :: "uuid \<Rightarrow> int \<Rightarrow> string \<Rightarrow> bool \<Rightarrow> payment_result" where
  "payment_result_of inbox status code replayed =
     \<lparr>pt_inbox = inbox, pt_code = code, pt_http_status = status,
      pt_body = payment_response_body code, pt_replayed = replayed\<rparr>"

text \<open>
  The code of a stored response body \<open>{"code":"..."}\<close>: the bytes between the fixed prefix and
  the closing quote, empty when the body is not of that form. Every body the program stores is
  written by \<open>paymentResult\<close> with a code that needs no escaping.
\<close>

definition stored_code :: "bytes \<Rightarrow> string" where
  "stored_code body =
     (let prefix_part = CHR ''{'' # quoted ''code'' @ '':'' @ [CHR 0x22] in
      if take (length prefix_part) body = prefix_part
      then takeWhile (\<lambda>c. c \<noteq> CHR 0x22) (drop (length prefix_part) body) else [])"

definition replay_stored_payment :: "inbox_row \<Rightarrow> payment_result" where
  "replay_stored_payment r =
     \<lparr>pt_inbox = ib_id r,
      pt_code = stored_code (case ib_response_body r of None \<Rightarrow> [] | Some b \<Rightarrow> b),
      pt_http_status = (case ib_response_status r of None \<Rightarrow> 0 | Some s \<Rightarrow> s),
      pt_body = (case ib_response_body r of None \<Rightarrow> [] | Some b \<Rightarrow> b), pt_replayed = True\<rparr>"

definition nullable_payment_reference :: "payment_command \<Rightarrow> string option" where
  "nullable_payment_reference cmd =
     (if pc_outcome cmd = PaymentFailed then None else Some (pc_reference cmd))"

section \<open>ClaimPayment\<close>

text \<open>The row of a new event: the code's values and the column defaults.\<close>

definition new_inbox_row :: "uuid \<Rightarrow> payment_command \<Rightarrow> bytes \<Rightarrow> bytes \<Rightarrow> time \<Rightarrow> inbox_row" where
  "new_inbox_row iid cmd payload digest clock =
     \<lparr>ib_id = iid, ib_provider = pc_provider cmd, ib_event_id = pc_event_id cmd,
      ib_attempt = pc_attempt cmd, ib_outcome = pc_outcome cmd,
      ib_reference = nullable_payment_reference cmd, ib_payload = payload,
      ib_payload_hash = digest, ib_status = InboxReceived, ib_attempt_count = 0,
      ib_next_attempt_at = clock, ib_lease_until = None, ib_claim_token = None,
      ib_claim_generation = 0, ib_last_error = None, ib_response_status = None,
      ib_response_body = None, ib_created_at = clock, ib_updated_at = clock,
      ib_completed_at = None\<rparr>"

definition lock_stored_payment :: "db \<Rightarrow> string \<Rightarrow> string \<Rightarrow> go_error + inbox_row" where
  "lock_stored_payment d provider event_id =
     (case find (\<lambda>r. ib_provider r = provider \<and> ib_event_id r = event_id) (db_inbox d) of
        None \<Rightarrow> Inl (Wrapped []) | Some r \<Rightarrow> Inr r)"

definition set_claimed :: "uuid \<Rightarrow> int \<Rightarrow> time \<Rightarrow> inbox_row \<Rightarrow> inbox_row" where
  "set_claimed token generation now r = r\<lparr>ib_status := InboxProcessing, ib_claim_token := Some token,
     ib_claim_generation := generation, ib_lease_until := Some (now + payment_claim_lease),
     ib_attempt_count := ib_attempt_count r + 1, ib_updated_at := now, ib_last_error := None\<rparr>"

text \<open>What a stored event answers without a new claim, if anything.\<close>

definition answer_without_claim :: "time \<Rightarrow> bytes \<Rightarrow> inbox_row \<Rightarrow> payment_result option" where
  "answer_without_claim now digest r =
     (if ib_payload_hash r \<noteq> digest then Some (payment_result_of (ib_id r) 409 ''event_conflict'' False)
      else if ib_status r = InboxCompleted \<or> ib_status r = InboxRejected
      then Some (replay_stored_payment r)
      else if ib_status r = InboxProcessing \<and> (case ib_lease_until r of None \<Rightarrow> False | Some t \<Rightarrow> now < t)
      then Some (payment_result_of (ib_id r) 202 ''processing'' False)
      else if ib_status r = InboxRetry \<and> now < ib_next_attempt_at r
      then Some (payment_result_of (ib_id r) 202 ''processing'' False)
      else None)"

definition claim_payment_tx ::
  "env \<Rightarrow> db \<Rightarrow> payment_command \<Rightarrow> bytes \<Rightarrow> go_error + (db \<times> payment_claim_result go_return)" where
  "claim_payment_tx env d cmd digest =
     (let iid = en_uuid env 0;
          payload = canonical_payment_payload (en_ext env) cmd;
          now = en_clock env
      in
      bindE (insert_inbox_once (new_inbox_row iid cmd payload digest (en_stmt_clock env)) d) (\<lambda>d1.
      bindE (lock_stored_payment d1 (pc_provider cmd) (pc_event_id cmd)) (\<lambda>stored.
      case answer_without_claim now digest stored of
        Some response \<Rightarrow> Inr (d1, Some (Responded response), None)
      | None \<Rightarrow>
          let token = en_uuid env 1;
              generation = i64 (ib_claim_generation stored + 1)
          in
          bindE (update_inbox (\<lambda>r. ib_id r = ib_id stored \<and> ib_payload_hash r = digest)
                  (set_claimed token generation now) d1) (\<lambda>(d2, n).
          bindE (require_one_row n) (\<lambda>_.
          Inr (d2, Some (Claimed \<lparr>cl_inbox = ib_id stored, cl_token = token,
             cl_generation = generation, cl_payload_hash = digest, cl_command = cmd\<rparr>), None))))))"

definition claim_payment :: "env \<Rightarrow> db \<Rightarrow> payment_command \<Rightarrow> db \<times> payment_claim_result go_return" where
  "claim_payment env d cmd = finish d
     (bindE (canonical_payment_hash (en_ext env) cmd) (\<lambda>digest. claim_payment_tx env d cmd digest))"

section \<open>Validation of a claim\<close>

definition payment_claim_integrity_error :: go_error where
  "payment_claim_integrity_error = Wrapped [Sentinel ErrInternal, Sentinel ErrPaymentClaimIntegrity]"

definition validate_payment_claim :: "externals \<Rightarrow> payment_claim \<Rightarrow> go_error + payment_claim" where
  "validate_payment_claim ext claim =
     bindE (canonical_payment_hash ext (cl_command claim)) (\<lambda>recomputed.
     if recomputed \<noteq> cl_payload_hash claim then Inl payment_claim_integrity_error
     else Inr (claim\<lparr>cl_payload_hash := recomputed\<rparr>))"

definition stored_payment_reference_matches :: "string option \<Rightarrow> payment_command \<Rightarrow> bool" where
  "stored_payment_reference_matches stored cmd =
     (if pc_outcome cmd = PaymentFailed then stored = None else stored = Some (pc_reference cmd))"

definition claim_holds :: "inbox_row \<Rightarrow> payment_claim \<Rightarrow> bool" where
  "claim_holds r claim \<longleftrightarrow> \<not> (ib_status r \<noteq> InboxProcessing \<or> ib_claim_token r = None \<or>
     ib_claim_token r \<noteq> Some (cl_token claim) \<or> ib_claim_generation r \<noteq> cl_generation claim)"

definition lock_and_validate_payment_claim :: "externals \<Rightarrow> db \<Rightarrow> payment_claim \<Rightarrow> go_error + unit" where
  "lock_and_validate_payment_claim ext d claim =
     (case find (\<lambda>r. ib_id r = cl_inbox claim) (db_inbox d) of
        None \<Rightarrow> Inl (Wrapped [])
      | Some r \<Rightarrow>
          if \<not> claim_holds r claim then Inl (Sentinel ErrStaleClaim)
          else if ib_payload_hash r \<noteq> cl_payload_hash claim then Inl payment_claim_integrity_error
          else if ib_payload r \<noteq> canonical_payment_payload ext (cl_command claim)
          then Inl payment_claim_integrity_error
          else if ib_provider r \<noteq> pc_provider (cl_command claim) \<or>
                  ib_event_id r \<noteq> pc_event_id (cl_command claim) \<or>
                  ib_attempt r \<noteq> pc_attempt (cl_command claim) \<or>
                  ib_outcome r \<noteq> pc_outcome (cl_command claim) \<or>
                  \<not> stored_payment_reference_matches (ib_reference r) (cl_command claim)
          then Inl payment_claim_integrity_error
          else Inr ())"

section \<open>Completion\<close>

definition set_completed :: "inbox_status \<Rightarrow> int \<Rightarrow> bytes \<Rightarrow> time \<Rightarrow> inbox_row \<Rightarrow> inbox_row" where
  "set_completed s status body clock r = r\<lparr>ib_status := s, ib_response_status := Some status,
     ib_response_body := Some body, ib_completed_at := Some clock, ib_updated_at := clock,
     ib_lease_until := None, ib_claim_token := None, ib_last_error := None\<rparr>"

definition held_by :: "payment_claim \<Rightarrow> inbox_row \<Rightarrow> bool" where
  "held_by claim r \<longleftrightarrow> ib_id r = cl_inbox claim \<and> ib_status r = InboxProcessing \<and>
     ib_claim_token r = Some (cl_token claim) \<and> ib_claim_generation r = cl_generation claim"

definition wrap_error :: "go_error + 'a \<Rightarrow> go_error + 'a" where
  "wrap_error m = map_error (\<lambda>e. Wrapped [e]) m"

definition complete_payment ::
  "env \<Rightarrow> db \<Rightarrow> payment_claim \<Rightarrow> int \<Rightarrow> string \<Rightarrow> go_error + (db \<times> payment_result)" where
  "complete_payment env d claim status code =
     (let response = payment_result_of (cl_inbox claim) status code False;
          inbox_status = (if status \<ge> 400 then InboxRejected else InboxCompleted)
      in
      bindE (wrap_error (update_inbox (held_by claim)
               (set_completed inbox_status status (pt_body response) (en_stmt_clock env)) d)) (\<lambda>(d', n).
      if n \<noteq> 1 then Inl (Sentinel ErrStaleClaim) else Inr (d', response)))"

text \<open>Completion inside the transaction of a product.\<close>

definition complete_in_tx ::
  "env \<Rightarrow> payment_claim \<Rightarrow> int \<Rightarrow> string \<Rightarrow> payment_result body" where
  "complete_in_tx env claim status code st =
     bindE (complete_payment env (tx_db st) claim status code) (\<lambda>(d, result).
     Inr (st\<lparr>tx_db := d\<rparr>, Some result, None))"

definition compensation_dedup_key :: "externals \<Rightarrow> uuid \<Rightarrow> string" where
  "compensation_dedup_key ext inbox = ''payment.compensation:'' @ ext_uuid_string ext inbox"

definition complete_with_compensation ::
  "env \<Rightarrow> payment_claim \<Rightarrow> queue_attempt \<Rightarrow> payment_result body" where
  "complete_with_compensation env claim a st =
     (let cmd = cl_command claim;
          payload = CompensationPayload (cl_inbox claim) (pc_provider cmd) (pc_event_id cmd)
                      (pc_attempt cmd) (pc_reference cmd);
          (oid, st') = draw_uuid env st
      in
      bindE (wrap_error (insert_outbox_once (new_outbox_row oid (qa_id a) payment_compensation_type
               (compensation_dedup_key (en_ext env) (cl_inbox claim)) payload
               (en_payload_hash env payload) (tx_now st)) (tx_db st'))) (\<lambda>d.
      complete_in_tx env claim 200 ''compensation_required'' (st'\<lparr>tx_db := d\<rparr>)))"

section \<open>Applying a payment\<close>

text \<open>\<open>SELECT id ... WHERE state='purchased' AND ...\<close>: at most one row, by the unique index.\<close>

definition accepted_owner :: "db \<Rightarrow> string \<Rightarrow> string \<Rightarrow> attempt_id option" where
  "accepted_owner d provider reference =
     map_option qa_id (find (\<lambda>a. qa_state a = Purchased \<and> qa_accepted_provider a = Some provider \<and>
       qa_accepted_reference a = Some reference) (db_attempts d))"

definition reserved_invariant_error :: go_error where
  "reserved_invariant_error = Wrapped [Sentinel ErrReservedInvariant]"

text \<open>The guarded product updates of a purchase and of a failed checkout.\<close>

definition consume_inventory :: "tx_state \<Rightarrow> go_error + tx_state" where
  "consume_inventory st =
     (let p = tx_product st in
      bindE (wrap_error (update_products
               (\<lambda>r. pr_id r = lp_id p \<and> pr_stock r = lp_stock p \<and> pr_reserved r = lp_reserved p \<and>
                    pr_stock r > 0 \<and> pr_reserved r > 0)
               (\<lambda>r. r\<lparr>pr_stock := pr_stock r - 1, pr_reserved := pr_reserved r - 1,
                     pr_updated_at := tx_now st\<rparr>) (tx_db st))) (\<lambda>(d, n).
      bindE (map_error (\<lambda>e. Wrapped [Sentinel ErrReservedInvariant, e]) (require_one_row n)) (\<lambda>_.
      Inr (st\<lparr>tx_db := d, tx_product := p\<lparr>lp_stock := i32 (lp_stock p - 1),
                lp_reserved := i32 (lp_reserved p - 1)\<rparr>\<rparr>))))"

definition release_failed_payment :: "tx_state \<Rightarrow> go_error + tx_state" where
  "release_failed_payment st =
     (let p = tx_product st in
      bindE (wrap_error (update_products
               (\<lambda>r. pr_id r = lp_id p \<and> pr_reserved r = lp_reserved p \<and> pr_reserved r > 0)
               (\<lambda>r. r\<lparr>pr_reserved := pr_reserved r - 1, pr_updated_at := tx_now st\<rparr>)
               (tx_db st))) (\<lambda>(d, n).
      bindE (map_error (\<lambda>e. Wrapped [Sentinel ErrReservedInvariant, e]) (require_one_row n)) (\<lambda>_.
      Inr (st\<lparr>tx_db := d, tx_product := p\<lparr>lp_reserved := i32 (lp_reserved p - 1)\<rparr>\<rparr>))))"

text \<open>The purchase of a checkout attempt; the pointer into \<open>state.attempts\<close> is written through.\<close>

definition purchase_attempt ::
  "tx_state \<Rightarrow> payment_command \<Rightarrow> queue_attempt \<Rightarrow> go_error + tx_state" where
  "purchase_attempt st cmd a =
     (let bought = set_purchased (pc_provider cmd) (pc_reference cmd) (tx_now st) in
      bindE (update_attempts (guarded_row (qa_id a) Checkout (qa_version a)) bought (tx_db st)) (\<lambda>(d, n).
      bindE (require_one_row n) (\<lambda>_.
      bindE (consume_inventory (st\<lparr>tx_db := d\<rparr>)) (\<lambda>st'.
      Inr (st'\<lparr>tx_attempts := replace_by_id (bought a) (tx_attempts st')\<rparr>)))))"

definition fail_attempt :: "tx_state \<Rightarrow> queue_attempt \<Rightarrow> go_error + tx_state" where
  "fail_attempt st a =
     (let failed = set_terminal PaymentFailedState ''payment_failed'' (tx_now st) in
      bindE (wrap_error (update_attempts (guarded_row (qa_id a) Checkout (qa_version a)) failed (tx_db st))) (\<lambda>(d, n).
      bindE (require_one_row n) (\<lambda>_.
      bindE (release_failed_payment (st\<lparr>tx_db := d\<rparr>)) (\<lambda>st'.
      Inr (st'\<lparr>tx_attempts := replace_by_id (failed a) (tx_attempts st')\<rparr>)))))"

definition apply_succeeded_payment ::
  "repo \<Rightarrow> env \<Rightarrow> payment_claim \<Rightarrow> queue_attempt \<Rightarrow> payment_result body" where
  "apply_succeeded_payment rp env claim a st =
     (let cmd = cl_command claim in
      if qa_state a = Purchased then
        (if qa_accepted_provider a = Some (pc_provider cmd) \<and>
            qa_accepted_reference a = Some (pc_reference cmd)
         then complete_in_tx env claim 200 ''already_accepted'' st
         else complete_with_compensation env claim a st)
      else if qa_state a = Waiting \<or> qa_state a = Invited then complete_with_compensation env claim a st
      else if qa_state a \<noteq> Checkout then complete_with_compensation env claim a st
      else if (case accepted_owner (tx_db st) (pc_provider cmd) (pc_reference cmd) of
                 None \<Rightarrow> False | Some owner \<Rightarrow> owner \<noteq> qa_id a)
      then complete_with_compensation env claim a st
      else if lp_stock (tx_product st) \<le> 0 \<or> lp_reserved (tx_product st) \<le> 0
      then Inl reserved_invariant_error
      else
        bindE (purchase_attempt st cmd a) (\<lambda>st'.
        bindE (reconcile_locked_product rp env st') (\<lambda>st''.
        complete_in_tx env claim 200 ''accepted'' st'')))"

definition apply_failed_payment ::
  "repo \<Rightarrow> env \<Rightarrow> payment_claim \<Rightarrow> queue_attempt \<Rightarrow> payment_result body" where
  "apply_failed_payment rp env claim a st =
     (case qa_state a of
        Checkout \<Rightarrow>
          if lp_reserved (tx_product st) \<le> 0 then Inl reserved_invariant_error
          else
            bindE (fail_attempt st a) (\<lambda>st'.
            bindE (reconcile_locked_product rp env st') (\<lambda>st''.
            complete_in_tx env claim 200 ''accepted'' st''))
      | Purchased \<Rightarrow> complete_in_tx env claim 200 ''ignored_purchase_final'' st
      | Waiting \<Rightarrow> complete_in_tx env claim 409 ''invalid_transition'' st
      | Invited \<Rightarrow> complete_in_tx env claim 409 ''invalid_transition'' st
      | _ \<Rightarrow> complete_in_tx env claim 200 ''ignored_terminal'' st)"

definition process_claim_body ::
  "repo \<Rightarrow> env \<Rightarrow> payment_claim \<Rightarrow> bool \<Rightarrow> payment_result body" where
  "process_claim_body rp env claim force st =
     bindE (lock_and_validate_payment_claim (en_ext env) (tx_db st) claim) (\<lambda>_.
     bindE (reconcile_locked_product rp env st) (\<lambda>st'.
     case find_attempt_by_id (tx_attempts st') (pc_attempt (cl_command claim)) of
       None \<Rightarrow> Inl (Sentinel ErrStaleClaim)
     | Some a \<Rightarrow>
         if qa_product a \<noteq> lp_id (tx_product st) then Inl (Sentinel ErrStaleClaim)
         else if force then complete_with_compensation env claim a st'
         else if pc_outcome (cl_command claim) = PaymentSucceeded
         then apply_succeeded_payment rp env claim a st'
         else apply_failed_payment rp env claim a st'))"

section \<open>ProcessPaymentClaim, RetryPaymentClaim, ProcessPayment\<close>

definition process_claim_for_product ::
  "repo \<Rightarrow> env \<Rightarrow> db \<Rightarrow> product_id \<Rightarrow> payment_claim \<Rightarrow> bool \<Rightarrow> go_error + (db \<times> payment_result go_return)" where
  "process_claim_for_product rp env d pid claim force =
     with_locked_product env d pid (no_scope\<lparr>ls_attempt := pc_attempt (cl_command claim)\<rparr>)
       (process_claim_body rp env claim force)"

definition finalize_payment_without_product ::
  "env \<Rightarrow> db \<Rightarrow> payment_claim \<Rightarrow> int \<Rightarrow> string \<Rightarrow> go_error + (db \<times> payment_result go_return)" where
  "finalize_payment_without_product env d claim status code =
     bindE (lock_and_validate_payment_claim (en_ext env) d claim) (\<lambda>_.
     bindE (complete_payment env d claim status code) (\<lambda>(d', result).
     Inr (d', Some result, None)))"

definition is_accepted_payment_reference_conflict :: "go_error \<Rightarrow> bool" where
  "is_accepted_payment_reference_conflict e \<longleftrightarrow>
     as_pg_constraint e = Some ''queue_attempts_accepted_payment_reference_unique_idx''"

text \<open>
  Two environments: the transaction that applies the payment, and the second one, which
  compensates when the unique index on accepted references rejected the first.
\<close>

definition process_payment_claim ::
  "repo \<Rightarrow> env \<Rightarrow> env \<Rightarrow> db \<Rightarrow> payment_claim \<Rightarrow> db \<times> payment_result go_return" where
  "process_payment_claim rp env env' d claim = finish d
     (bindE (validate_payment_claim (en_ext env) claim) (\<lambda>valid.
      case find_attempt_product d (pc_attempt (cl_command valid)) of
        Inl e \<Rightarrow> if errors_is e ErrAttemptNotFound
                 then finalize_payment_without_product env d valid 404 ''attempt_not_found''
                 else Inl e
      | Inr pid \<Rightarrow>
          (case process_claim_for_product rp env d pid valid False of
             Inl e \<Rightarrow> if is_accepted_payment_reference_conflict e
                      then process_claim_for_product rp env' d pid valid True else Inl e
           | Inr done \<Rightarrow> Inr done)))"

definition set_retry :: "go_error \<Rightarrow> time \<Rightarrow> inbox_row \<Rightarrow> inbox_row" where
  "set_retry e clock r = r\<lparr>ib_status := InboxRetry, ib_next_attempt_at := clock + payment_retry_backoff,
     ib_lease_until := None, ib_claim_token := None, ib_last_error := Some e, ib_updated_at := clock\<rparr>"

definition retry_payment_claim :: "env \<Rightarrow> db \<Rightarrow> payment_claim \<Rightarrow> go_error \<Rightarrow> db \<times> go_error option" where
  "retry_payment_claim env d claim e =
     (case update_inbox (held_by claim) (set_retry e (en_stmt_clock env)) d of
        Inl err \<Rightarrow> (d, Some (Wrapped [err]))
      | Inr (d', n) \<Rightarrow> if n \<noteq> 1 then (d', Some (Sentinel ErrStaleClaim)) else (d', None))"

text \<open>The environments of the claim, of the two applications and of the retry, in that order.\<close>

record payment_envs =
  pe_claim :: env
  pe_apply :: env
  pe_compensate :: env
  pe_retry :: env

definition keeps_claim :: "go_error \<Rightarrow> bool" where
  "keeps_claim e \<longleftrightarrow> errors_is e ErrStaleClaim \<or> errors_is e ErrReservedInvariant \<or>
     errors_is e ErrPaymentClaimIntegrity"

definition process_payment ::
  "repo \<Rightarrow> payment_envs \<Rightarrow> db \<Rightarrow> payment_command \<Rightarrow> db \<times> payment_result go_return" where
  "process_payment rp envs d cmd =
     (case claim_payment (pe_claim envs) d cmd of
        (d1, _, Some e) \<Rightarrow> (d1, None, Some e)
      | (d1, None, None) \<Rightarrow> (d1, None, Some (Wrapped [Sentinel ErrInternal]))
      | (d1, Some (Responded response), None) \<Rightarrow> (d1, Some response, None)
      | (d1, Some (Claimed claim), None) \<Rightarrow>
          (case process_payment_claim rp (pe_apply envs) (pe_compensate envs) d1 claim of
             (d2, result, None) \<Rightarrow> (d2, result, None)
           | (d2, result, Some e) \<Rightarrow>
               if keeps_claim e then (d2, result, Some e)
               else (case retry_payment_claim (pe_retry envs) d2 claim e of
                       (d3, None) \<Rightarrow> (d3, None, Some e)
                     | (d3, Some retry_error) \<Rightarrow>
                         if errors_is retry_error ErrStaleClaim then (d3, None, Some e)
                         else (d3, None, Some (Wrapped [e, retry_error])))))"

end
