(* ===== verification/Queue_Safety.thy ===== *)
theory Queue_Safety
  imports Queue_Ops
begin

text \<open>
  Every operation of the queue repository keeps the database invariant and stays within its
  frame. The locale \<open>locked_operation\<close> is the contract of the closure \<open>withLockedProduct\<close> runs,
  and \<open>conserving_operation\<close> extends it with the conservation of stock: units still for sale
  plus units sold are what the applied adjustments account for. Each body of the repository is interpreted as an instance.
\<close>

section \<open>What an operation may change\<close>

definition product_evolves :: "product_id \<Rightarrow> product_row \<Rightarrow> product_row \<Rightarrow> bool" where
  "product_evolves pid p q \<longleftrightarrow>
     (\<exists>s r k u. q = p\<lparr>pr_stock := s, pr_reserved := r, pr_next_sequence := k, pr_updated_at := u\<rparr> \<and>
        pr_next_sequence p \<le> k) \<and> (pr_id p \<noteq> pid \<longrightarrow> q = p)"

definition attempts_evolve :: "product_id \<Rightarrow> queue_attempt list \<Rightarrow> queue_attempt list \<Rightarrow> bool" where
  "attempts_evolve pid t t' \<longleftrightarrow>
     (\<exists>u new. t' = u @ new \<and> rows_evolve_at pid t u \<and> (\<forall>a\<in>set new. qa_product a = pid))"

text \<open>
  Inbox rows keep their identity, a final row never changes again, the claim generation never
  goes back, and new rows are appended.
\<close>

definition inbox_ident ::
  "inbox_row \<Rightarrow> uuid \<times> string \<times> string \<times> attempt_id \<times> payment_outcome \<times> string option \<times> bytes \<times> bytes" where
  "inbox_ident r = (ib_id r, ib_provider r, ib_event_id r, ib_attempt r, ib_outcome r,
     ib_reference r, ib_payload r, ib_payload_hash r)"

definition inbox_row_evolves :: "inbox_row \<Rightarrow> inbox_row \<Rightarrow> bool" where
  "inbox_row_evolves r r' \<longleftrightarrow> inbox_ident r' = inbox_ident r \<and>
     ib_claim_generation r \<le> ib_claim_generation r' \<and> (inbox_final (ib_status r) \<longrightarrow> r' = r)"

definition inbox_evolves :: "inbox_row list \<Rightarrow> inbox_row list \<Rightarrow> bool" where
  "inbox_evolves = forward inbox_row_evolves"

lemma inbox_row_evolves_refl [simp, intro]: "inbox_row_evolves r r"
  by (simp add: inbox_row_evolves_def)

lemma inbox_row_evolvesD:
  assumes "inbox_row_evolves r s"
  shows "inbox_ident s = inbox_ident r" and "ib_claim_generation r \<le> ib_claim_generation s"
    and "inbox_final (ib_status r) \<Longrightarrow> s = r"
  using assms unfolding inbox_row_evolves_def by blast+

lemma inbox_row_evolves_trans:
  assumes rs: "inbox_row_evolves r s" and st: "inbox_row_evolves s t"
  shows "inbox_row_evolves r t"
  unfolding inbox_row_evolves_def
proof (intro conjI impI)
  show "inbox_ident t = inbox_ident r"
    by (rule trans [OF inbox_row_evolvesD(1) [OF st] inbox_row_evolvesD(1) [OF rs]])
  show "ib_claim_generation r \<le> ib_claim_generation t"
    by (rule order_trans [OF inbox_row_evolvesD(2) [OF rs] inbox_row_evolvesD(2) [OF st]])
  assume f: "inbox_final (ib_status r)"
  note eq = inbox_row_evolvesD(3) [OF rs f]
  show "t = r" using inbox_row_evolvesD(3) [OF st] f unfolding eq by blast
qed

lemma inbox_evolves_refl [simp, intro]: "inbox_evolves t t"
  unfolding inbox_evolves_def by (rule forward_refl) (rule inbox_row_evolves_refl)

lemma inbox_evolves_trans [trans]: "inbox_evolves s t \<Longrightarrow> inbox_evolves t u \<Longrightarrow> inbox_evolves s u"
  unfolding inbox_evolves_def by (rule forward_trans) (rule inbox_row_evolves_trans)

text \<open>
  Outbox rows keep their identity and payload, a sent notification never changes again, and
  the lease generation never goes back.
\<close>

definition outbox_ident ::
  "outbox_row \<Rightarrow> uuid \<times> attempt_id option \<times> string \<times> string \<times> outbox_payload \<times> bytes \<times> time" where
  "outbox_ident r = (ob_id r, ob_attempt r, ob_event_type r, ob_dedup_key r, ob_payload r,
     ob_payload_hash r, ob_created_at r)"

definition outbox_row_evolves :: "outbox_row \<Rightarrow> outbox_row \<Rightarrow> bool" where
  "outbox_row_evolves r r' \<longleftrightarrow> outbox_ident r' = outbox_ident r \<and>
     ob_lease_generation r \<le> ob_lease_generation r' \<and> (ob_status r = OutboxSent \<longrightarrow> r' = r)"

definition outbox_evolves :: "outbox_row list \<Rightarrow> outbox_row list \<Rightarrow> bool" where
  "outbox_evolves t t' \<longleftrightarrow> forward outbox_row_evolves t t' \<and> (outbox_inv t \<longrightarrow> outbox_inv t')"

lemma outbox_row_evolves_refl [simp, intro]: "outbox_row_evolves r r"
  by (simp add: outbox_row_evolves_def)

lemma outbox_row_evolvesD:
  assumes "outbox_row_evolves r s"
  shows "outbox_ident s = outbox_ident r" and "ob_lease_generation r \<le> ob_lease_generation s"
    and "ob_status r = OutboxSent \<Longrightarrow> s = r"
  using assms unfolding outbox_row_evolves_def by blast+

lemma outbox_row_evolves_trans:
  assumes rs: "outbox_row_evolves r s" and st: "outbox_row_evolves s t"
  shows "outbox_row_evolves r t"
  unfolding outbox_row_evolves_def
proof (intro conjI impI)
  show "outbox_ident t = outbox_ident r"
    by (rule trans [OF outbox_row_evolvesD(1) [OF st] outbox_row_evolvesD(1) [OF rs]])
  show "ob_lease_generation r \<le> ob_lease_generation t"
    by (rule order_trans [OF outbox_row_evolvesD(2) [OF rs] outbox_row_evolvesD(2) [OF st]])
  assume f: "ob_status r = OutboxSent"
  note eq = outbox_row_evolvesD(3) [OF rs f]
  show "t = r" using outbox_row_evolvesD(3) [OF st] f unfolding eq by blast
qed

lemma outbox_evolves_refl [simp, intro]: "outbox_evolves t t"
  unfolding outbox_evolves_def by (simp add: forward_refl)

lemma outbox_evolves_trans [trans]:
  assumes "outbox_evolves s t" and "outbox_evolves t u"
  shows "outbox_evolves s u"
proof -
  have "forward outbox_row_evolves s u"
    by (rule forward_trans [of outbox_row_evolves s t]) (use assms in \<open>auto simp: outbox_evolves_def
        intro: outbox_row_evolves_trans\<close>)
  then show ?thesis using assms by (simp add: outbox_evolves_def)
qed

lemma outbox_extends_evolves: "outbox_extends t t' \<Longrightarrow> outbox_evolves t t'"
  unfolding outbox_extends_def outbox_evolves_def
  using forward_append [of outbox_row_evolves] by auto

definition core_frame :: "product_id \<Rightarrow> db \<Rightarrow> db \<Rightarrow> bool" where
  "core_frame pid d d' \<longleftrightarrow>
     list_all2 (product_evolves pid) (db_products d) (db_products d') \<and>
     attempts_evolve pid (db_attempts d) (db_attempts d') \<and>
     outbox_extends (db_outbox d) (db_outbox d') \<and>
     (\<exists>new. db_adjustments d' = db_adjustments d @ new) \<and>
     inbox_evolves (db_inbox d) (db_inbox d')"

lemma product_evolves_refl [simp, intro]: "product_evolves pid p p"
proof -
  have "p = p\<lparr>pr_stock := pr_stock p, pr_reserved := pr_reserved p,
              pr_next_sequence := pr_next_sequence p, pr_updated_at := pr_updated_at p\<rparr>" by simp
  then show ?thesis unfolding product_evolves_def by blast
qed

lemma product_evolves_trans:
  assumes "product_evolves pid p q" and "product_evolves pid q r"
  shows "product_evolves pid p r"
proof -
  obtain s a k u s' a' k' u' where
      q: "q = p\<lparr>pr_stock := s, pr_reserved := a, pr_next_sequence := k, pr_updated_at := u\<rparr>"
        "pr_next_sequence p \<le> k"
    and r: "r = q\<lparr>pr_stock := s', pr_reserved := a', pr_next_sequence := k', pr_updated_at := u'\<rparr>"
        "pr_next_sequence q \<le> k'"
    using assms unfolding product_evolves_def by (elim conjE exE)
  then have "r = p\<lparr>pr_stock := s', pr_reserved := a', pr_next_sequence := k', pr_updated_at := u'\<rparr>"
    and "pr_next_sequence p \<le> k'" by simp_all
  moreover have "r = p" if "pr_id p \<noteq> pid" using that assms unfolding product_evolves_def by metis
  ultimately show ?thesis unfolding product_evolves_def by blast
qed

lemma touches_reserved_evolves: "touches_reserved pid p q \<Longrightarrow> product_evolves pid p q"
proof -
  assume t: "touches_reserved pid p q"
  then obtain r u where "q = p\<lparr>pr_reserved := r, pr_updated_at := u\<rparr>"
    unfolding touches_reserved_def by blast
  then have "q = p\<lparr>pr_stock := pr_stock p, pr_reserved := r, pr_next_sequence := pr_next_sequence p,
                   pr_updated_at := u\<rparr>" by simp
  then show ?thesis using t unfolding product_evolves_def touches_reserved_def by blast
qed

lemma attempts_evolve_trans:
  assumes "attempts_evolve pid s t" and "attempts_evolve pid t u"
  shows "attempts_evolve pid s u"
proof -
  obtain t1 t2 where t: "t = t1 @ t2" "rows_evolve_at pid s t1" "\<forall>a\<in>set t2. qa_product a = pid"
    using assms(1) by (auto simp: attempts_evolve_def)
  obtain u1 u2 where u: "u = u1 @ u2" "rows_evolve_at pid (t1 @ t2) u1" "\<forall>a\<in>set u2. qa_product a = pid"
    using assms(2) t(1) by (auto simp: attempts_evolve_def)
  obtain v1 v2 where v: "u1 = v1 @ v2" "rows_evolve_at pid t1 v1" "rows_evolve_at pid t2 v2"
    using u(2) by (auto simp: rows_evolve_at_def list_all2_append1)
  have "qa_product b = pid" if b: "b \<in> set v2" for b
  proof -
    obtain a where "a \<in> set t2" "attempt_evolves a b" using rows_evolve_at_origin [OF v(3) b] .
    then show ?thesis using t(3) attempt_evolves_ident by (fastforce simp: attempt_ident_def)
  qed
  then show ?thesis unfolding attempts_evolve_def
    using rows_evolve_at_trans [OF t(2) v(2)] u(1,3) v(1)
    by (intro exI [of _ v1] exI [of _ "v2 @ u2"]) auto
qed

lemma attempts_evolve_rows: "rows_evolve_at pid t u \<Longrightarrow> attempts_evolve pid t u"
  unfolding attempts_evolve_def by (rule exI [of _ u], rule exI [of _ "[]"]) simp

lemma attempts_evolve_table: "attempts_evolve pid t u \<Longrightarrow> table_evolves t u"
  unfolding attempts_evolve_def using rows_evolve_at_table by blast

lemma core_frame_refl [simp, intro]: "core_frame pid d d"
  unfolding core_frame_def by (simp add: list_all2_refl attempts_evolve_rows)

lemma core_frame_trans [trans]:
  assumes "core_frame pid d d'" and "core_frame pid d' d''"
  shows "core_frame pid d d''"
proof -
  have "list_all2 (product_evolves pid) (db_products d) (db_products d'')"
    by (rule list_all2_trans [OF product_evolves_trans]) (use assms in \<open>auto simp: core_frame_def\<close>)
  then show ?thesis using assms attempts_evolve_trans inbox_evolves_trans outbox_extends_trans unfolding core_frame_def by fastforce
qed

lemma reconcile_core_frame:
  assumes "reconcile_frame st st'"
  shows "core_frame (lp_id (tx_product st)) (tx_db st) (tx_db st')"
  using assms list_all2_mono [OF _ touches_reserved_evolves]
  by (auto simp: reconcile_frame_def core_frame_def attempts_evolve_rows)

section \<open>Conservation of stock\<close>

definition stock_of :: "product_id \<Rightarrow> product_row list \<Rightarrow> int" where
  "stock_of pid ps = (case find (\<lambda>p. pr_id p = pid) ps of None \<Rightarrow> 0 | Some p \<Rightarrow> pr_stock p)"

text \<open>
  The ledger of a product is the sum of the adjustments applied to it. The balance, units still
  for sale plus units sold minus the ledger, never changes.
\<close>

definition ledger :: "product_id \<Rightarrow> adjustment_row list \<Rightarrow> int" where
  "ledger pid rows =
     sum_list (map ad_delta (filter (\<lambda>r. ad_product r = pid \<and> ad_status r = AdjustmentApplied) rows))"

definition balance :: "product_id \<Rightarrow> db \<Rightarrow> int" where
  "balance pid d = stock_of pid (db_products d) + purchased_in pid (db_attempts d) -
     ledger pid (db_adjustments d)"

lemma stock_of_touches:
  "list_all2 (touches_reserved pid) ps qs \<Longrightarrow> stock_of q qs = stock_of q ps"
proof (induction rule: list_all2_induct)
  case (Cons p ps p' ps')
  then obtain r u where "p' = p\<lparr>pr_reserved := r, pr_updated_at := u\<rparr>"
    unfolding touches_reserved_def by blast
  then have "pr_id p' = pr_id p \<and> pr_stock p' = pr_stock p" by simp
  with Cons show ?case by (simp add: stock_of_def)
qed (simp add: stock_of_def)

lemma reconcile_balance: "reconcile_frame st st' \<Longrightarrow> balance q (tx_db st') = balance q (tx_db st)"
  using stock_of_touches by (fastforce simp: reconcile_frame_def balance_def)

section \<open>The contract of a closure\<close>

lemma lock_product_attempts_coherent:
  assumes "attempts_inv (db_attempts d)"
  shows "coherent pid (db_attempts d) (lock_product_attempts d pid scope)"
proof -
  let ?l = "filter (in_lock_scope pid scope (db_attempts d)) (db_attempts d)"
  have "sorted (map attempt_order (sort_key attempt_order ?l))" by simp
  then have "sorted (map qa_sequence (sort_key attempt_order ?l))"
    unfolding sorted_map by (rule sorted_wrt_weaken) (auto simp: attempt_order_def less_eq_prod_def)
  then show ?thesis using attempts_inv_distinct [OF assms]
    by (auto simp: coherent_def lock_product_attempts_def in_lock_scope_def)
qed

lemma begin_tx_inv:
  assumes "db_inv d" and "lock_product d pid = Inr p"
  shows "tx_inv (begin_tx env d p scope)" and "lp_id p = pid"
proof -
  show pid: "lp_id p = pid"
    by (rule lock_product_Inr [OF db_invD(2) [OF assms(1)] assms(2)]) simp
  show "tx_inv (begin_tx env d p scope)"
    using assms lock_product_attempts_coherent [OF db_invD(1) [OF assms(1)]] pid
    by (simp add: tx_inv_def begin_tx_def)
qed

locale locked_operation =
  fixes pid :: product_id and operation :: "'r body"
  assumes keeps_inv: "tx_inv st \<Longrightarrow> lp_id (tx_product st) = pid \<Longrightarrow> operation st = Inr (st', r) \<Longrightarrow>
      db_inv (tx_db st')"
    and keeps_frame: "tx_inv st \<Longrightarrow> lp_id (tx_product st) = pid \<Longrightarrow> operation st = Inr (st', r) \<Longrightarrow>
      core_frame pid (tx_db st) (tx_db st')"
begin

lemma commit:
  assumes "db_inv d" and "with_locked_product env d pid scope operation = Inr (d', r)"
  shows "db_inv d' \<and> core_frame pid d d'"
proof -
  obtain p st where p: "lock_product d pid = Inr p"
    and st: "operation (begin_tx env d p scope) = Inr (st, r)" "d' = tx_db st"
    using assms(2) by (auto simp: with_locked_product_def)
  note b = begin_tx_inv(1) [OF assms(1) p, of env scope] begin_tx_inv(2) [OF assms(1) p]
  have id: "lp_id (tx_product (begin_tx env d p scope)) = pid" "tx_db (begin_tx env d p scope) = d"
    using b(2) by (simp_all add: begin_tx_def)
  show ?thesis using keeps_inv [OF b(1) id(1) st(1)] keeps_frame [OF b(1) id(1) st(1)] id(2) st(2)
    by simp
qed

text \<open>Called as the repository calls it: a failed closure is rolled back.\<close>

lemma call:
  assumes "db_inv d"
  shows "db_inv (fst (finish d (with_locked_product env d pid scope operation)))"
    and "core_frame pid d (fst (finish d (with_locked_product env d pid scope operation)))"
  using commit [OF assms] assms
  by (auto simp: finish_def split: sum.splits)

end

locale conserving_operation = locked_operation +
  assumes keeps_balance: "tx_inv st \<Longrightarrow> lp_id (tx_product st) = pid \<Longrightarrow> operation st = Inr (st', r) \<Longrightarrow>
      balance q (tx_db st') = balance q (tx_db st)"
begin

lemma call_balance:
  assumes "db_inv d"
  shows "balance q (fst (finish d (with_locked_product env d pid scope operation))) = balance q d"
proof (cases "with_locked_product env d pid scope operation")
  case (Inl e)
  then show ?thesis by (simp add: finish_def)
next
  case (Inr dr)
  then obtain p st where p: "lock_product d pid = Inr p"
    and st: "operation (begin_tx env d p scope) = Inr (st, snd dr)" "fst dr = tx_db st"
    by (auto simp: with_locked_product_def)
  note b = begin_tx_inv(1) [OF assms p, of env scope] begin_tx_inv(2) [OF assms p]
  show ?thesis using keeps_balance [OF b(1) _ st(1)] b(2) st(2) Inr
    by (simp add: begin_tx_def finish_def split_beta)
qed

end

section \<open>One attempt and its product row\<close>

lemma split_unique:
  assumes "distinct (map f xs)" and "xs = as @ a # bs" and "xs = cs @ c # ds" and "f c = f a"
  shows "cs = as \<and> c = a \<and> ds = bs"
proof -
  have "f a \<notin> f ` (set as \<union> set bs)" using assms(1) unfolding assms(2) by (auto simp: image_Un)
  moreover have "f c \<notin> f ` (set cs \<union> set ds)" using assms(1) unfolding assms(3) by (auto simp: image_Un)
  moreover have "as @ a # bs = cs @ c # ds" using assms(2,3) by simp
  ultimately show ?thesis using assms(4) by (auto simp: append_eq_append_conv2 Cons_eq_append_conv append_eq_Cons_conv)
qed

text \<open>
  The step every closure outside reconciliation makes: one attempt moves along the state
  machine and the product row is brought in line.
\<close>

lemma tx_step:
  assumes inv: "tx_inv st" and mem: "tx_attempts st = pre @ a # post"
    and step: "attempt_step a b" and repl: "attempt_replaced (tx_db st) a b d1"
    and p: "db_products (tx_db st) = ppre @ p # ppost" "tx_product st = locked_of_row p"
    and p': "p' = p\<lparr>pr_stock := s, pr_reserved := reserving (pre @ b # post), pr_updated_at := u\<rparr>"
      "product_ok p'"
    and st': "db_attempts (tx_db st') = db_attempts d1" "db_products (tx_db st') = ppre @ p' # ppost"
      "tx_product st' = locked_of_row p'" "tx_attempts st' = pre @ b # post"
      "db_outbox (tx_db st') = db_outbox (tx_db st)" "db_adjustments (tx_db st') = db_adjustments (tx_db st)"
      "inbox_inv (db_inbox (tx_db st'))" "inbox_evolves (db_inbox (tx_db st)) (db_inbox (tx_db st'))"
  shows "tx_inv st'" and "core_frame (lp_id (tx_product st)) (tx_db st) (tx_db st')"
proof -
  have loop: "loop_inv st (pre @ a # post)" using tx_inv_loop_inv [OF inv] mem by simp
  note a = loop_invD [OF loop]
  have pid: "lp_id (tx_product st) = pr_id p" using p(2) by simp
  have rows: "rows_evolve_at (pr_id p) (db_attempts (tx_db st)) (db_attempts (tx_db st'))"
    using attempt_replaced_evolves [OF repl attempt_evolves_step [OF step] a(2)] pid st'(1) by simp
  have ainv: "attempts_inv (db_attempts d1)"
    using attempt_replaced_inv [OF a(4) repl] attempt_step_row_ok [OF step a(3)] repl
    by (auto simp: attempt_replaced_def)
  have coh: "coherent (pr_id p) (db_attempts d1) (pre @ b # post)"
    using coherent_replace [OF a(4) _ repl attempt_step_ident [OF step]] loop pid
    by (simp add: loop_inv_def)
  have counts: "product_counts (db_attempts (tx_db st)) p"
    using inv p by (auto simp: tx_inv_def db_inv_def)
  show "tx_inv st'"
  proof (rule tx_inv_intro [OF _ p(1) st'(2)])
    show "loop_inv st' (tx_attempts st')"
      using ainv coh p' by (simp add: loop_inv_def st' product_ok_def)
    show "qa_sequence x < pr_next_sequence p'"
      if "x \<in> set (db_attempts (tx_db st'))" "qa_product x = pr_id p" for x
      using rows_evolve_sequences [OF rows _ that] counts p'(1) by (auto simp: product_counts_def)
    show "reserved_in q (db_attempts (tx_db st')) = reserved_in q (db_attempts (tx_db st))"
      if "q \<noteq> pr_id p" for q
      using rows_evolve_at_reserved [OF rows that] by (simp add: reserved_in_def)
    show "x \<in> set (db_attempts (tx_db st))"
      if "x \<in> set (db_attempts (tx_db st'))" "qa_product x \<noteq> pr_id p" for x
      using rows_evolve_others [OF rows that] .
  qed (use inv p' st'(3,7) in \<open>simp_all add: tx_inv_def\<close>)
  have "product_evolves (pr_id p) p p'"
    unfolding product_evolves_def p'(1)
    by (rule conjI, rule exI [of _ s], rule exI [of _ "reserving (pre @ b # post)"],
        rule exI [of _ "pr_next_sequence p"], rule exI [of _ u]) simp_all
  then show "core_frame (lp_id (tx_product st)) (tx_db st) (tx_db st')"
    unfolding core_frame_def pid st'(2) p(1)
    by (simp add: attempts_evolve_rows [OF rows] st'(5,6,8) list_all2_appendI list_all2_refl)
qed

lemma stock_of_replaced:
  assumes "distinct (map pr_id (pre @ p # post))" and "pr_id p' = pr_id p"
  shows "stock_of q (pre @ p' # post) = stock_of q (pre @ p # post) + (if q = pr_id p then pr_stock p' - pr_stock p else 0)"
proof -
  have "find (\<lambda>r. pr_id r = pr_id p) (pre @ x # post) = Some x" if "pr_id x = pr_id p" for x
    using find_unique [of pr_id "pre @ x # post" x] assms(1) that by simp
  moreover have "find (\<lambda>r. pr_id r = q) (pre @ p' # post) = find (\<lambda>r. pr_id r = q) (pre @ p # post)"
    if "q \<noteq> pr_id p"
    using that assms(2) by (induction pre) auto
  ultimately show ?thesis using assms(2) by (auto simp: stock_of_def)
qed

section \<open>StartCheckout\<close>

lemma find_attempt_by_id_Some:
  "find_attempt_by_id mem aid = Some a \<Longrightarrow> a \<in> set mem \<and> qa_id a = aid"
  unfolding find_attempt_by_id_def by (rule find_in_set)

lemma tx_balance_step:
  assumes "tx_inv st" and "db_products (tx_db st) = ppre @ p # ppost"
    and "db_products d' = ppre @ p' # ppost" and "pr_id p' = pr_id p"
    and "attempt_replaced (tx_db st) a b d1" and "db_attempts d' = db_attempts d1"
    and "qa_product a = pr_id p" and "qa_product b = qa_product a" and "qa_state a \<noteq> Purchased"
    and "pr_stock p' = pr_stock p - (if qa_state b = Purchased then 1 else 0)"
    and "db_adjustments d' = db_adjustments (tx_db st)"
  shows "balance q d' = balance q (tx_db st)"
proof -
  have "distinct (map pr_id (ppre @ p # ppost))"
    using assms(1,2) by (metis db_invD(2) tx_inv_def)
  from stock_of_replaced [OF this assms(4), of q] assms show ?thesis
    by (auto simp: balance_def purchased_in_def attempt_replaced_def)
qed

lemma transition_to_checkout_Inr:
  assumes inv: "tx_inv st" and a: "a \<in> set (tx_attempts st)" and s: "qa_state a = Invited"
    and tr: "transition_to_checkout st a deadline = Inr (st', b)"
  shows "b = set_checkout (tx_now st) deadline a" and "db_inv (tx_db st')"
    and "core_frame (lp_id (tx_product st)) (tx_db st) (tx_db st')"
    and "balance q (tx_db st') = balance q (tx_db st)"
proof -
  obtain pre post where mem: "tx_attempts st = pre @ a # post" using a by (auto simp: in_set_conv_decomp)
  have loop: "loop_inv st (pre @ a # post)" using tx_inv_loop_inv [OF inv] mem by simp
  note A = loop_invD [OF loop]
  obtain d where upd: "update_attempts (guarded_row (qa_id a) Invited (qa_version a))
      (set_checkout (tx_now st) deadline) (tx_db st) = Inr (d, 1)"
    and st': "st' = st\<lparr>tx_db := d\<rparr>" and b: "b = set_checkout (tx_now st) deadline a"
    using tr by (auto simp: transition_to_checkout_def)
  show "b = set_checkout (tx_now st) deadline a" by (rule b)
  have repl: "attempt_replaced (tx_db st) a b d"
    using update_guarded_Inr [OF A(4,1) s [symmetric] refl upd] b by simp
  have step: "attempt_step a b" unfolding b by (rule attempt_step.start_checkout [OF s])
  obtain ppre p ppost where p: "db_products (tx_db st) = ppre @ p # ppost" "tx_product st = locked_of_row p"
    "product_ok p" using tx_inv_row [OF inv] by metis
  have "reserving (pre @ b # post) = pr_reserved p"
    using loop p(2) s by (simp add: loop_inv_def b set_checkout_def reserves_stock_def)
  then have p': "p = p\<lparr>pr_stock := pr_stock p, pr_reserved := reserving (pre @ b # post),
      pr_updated_at := pr_updated_at p\<rparr>" by simp
  have same: "db_products d = db_products (tx_db st)" "db_outbox d = db_outbox (tx_db st)"
    "db_adjustments d = db_adjustments (tx_db st)" "db_inbox d = db_inbox (tx_db st)"
    "inbox_inv (db_inbox (tx_db st))"
    using repl inv by (auto simp: attempt_replaced_def tx_inv_def db_inv_def)
  let ?st = "st'\<lparr>tx_attempts := pre @ b # post\<rparr>"
  have "tx_inv ?st" "core_frame (lp_id (tx_product st)) (tx_db st) (tx_db ?st)"
    by (rule tx_step [OF inv mem step repl p(1,2) p' p(3)]; simp add: st' same p)+
  then show "db_inv (tx_db st')" "core_frame (lp_id (tx_product st)) (tx_db st) (tx_db st')"
    by (simp_all add: tx_inv_def)
  show "balance q (tx_db st') = balance q (tx_db st)"
    by (rule tx_balance_step [OF inv p(1) _ refl repl])
       (use p A s in \<open>simp_all add: st' same b set_checkout_def\<close>)
qed

definition op_safe :: "tx_state \<Rightarrow> tx_state \<Rightarrow> bool" where
  "op_safe st st' \<longleftrightarrow> db_inv (tx_db st') \<and>
     core_frame (lp_id (tx_product st)) (tx_db st) (tx_db st') \<and>
     (\<forall>q. balance q (tx_db st') = balance q (tx_db st)) \<and> lp_id (tx_product st') = lp_id (tx_product st)"

lemma op_safe_refl: "tx_inv st \<Longrightarrow> op_safe st st"
  by (simp add: op_safe_def tx_inv_def)

lemma op_safe_trans [trans]: "op_safe st st' \<Longrightarrow> op_safe st' st'' \<Longrightarrow> op_safe st st''"
  using core_frame_trans by (fastforce simp: op_safe_def)

lemma reconcile_safe:
  assumes "tx_inv st" and "reconcile_locked_product rp env st = Inr st'"
  shows "tx_inv st' \<and> op_safe st st'"
  using reconcile_Inr [OF assms] reconcile_core_frame reconcile_balance reconcile_frameD(2)
  by (auto simp: op_safe_def tx_inv_def)

lemma conserving_operationI:
  assumes "\<And>st st' r. tx_inv st \<Longrightarrow> lp_id (tx_product st) = pid \<Longrightarrow> operation st = Inr (st', r) \<Longrightarrow>
      op_safe st st'"
  shows "conserving_operation pid operation"
  using assms by unfold_locales (auto simp: op_safe_def)

lemma start_checkout_body_safe:
  assumes inv: "tx_inv st" and body: "start_checkout_body rp env cmd st = Inr (st', r)"
  shows "op_safe st st'"
proof -
  obtain st1 where rec: "reconcile_locked_product rp env st = Inr st1"
    using body by (auto simp: start_checkout_body_def)
  note R = reconcile_safe [OF inv rec]
  have "st' = st1 \<or> (\<exists>a deadline b. a \<in> set (tx_attempts st1) \<and> qa_state a = Invited \<and>
      transition_to_checkout st1 a deadline = Inr (st', b))"
    using body rec by (auto simp: start_checkout_body_def dest!: find_attempt_by_id_Some
        split: option.splits if_splits)
  then have "op_safe st1 st'"
  proof
    assume "\<exists>a deadline b. a \<in> set (tx_attempts st1) \<and> qa_state a = Invited \<and>
      transition_to_checkout st1 a deadline = Inr (st', b)"
    then obtain a deadline b where "a \<in> set (tx_attempts st1)" "qa_state a = Invited"
      and tr: "transition_to_checkout st1 a deadline = Inr (st', b)" by blast
    moreover have "lp_id (tx_product st') = lp_id (tx_product st1)"
      using tr by (auto simp: transition_to_checkout_def)
    ultimately show ?thesis
      using transition_to_checkout_Inr(2-4) R unfolding op_safe_def by blast
  qed (use R op_safe_refl in auto)
  then show ?thesis using R op_safe_trans by blast
qed

interpretation start_checkout_op: conserving_operation pid "start_checkout_body rp env cmd" for pid rp env cmd
  by (rule conserving_operationI) (rule start_checkout_body_safe)

section \<open>FindCurrent\<close>

lemma find_current_body_safe:
  assumes "tx_inv st" and "find_current_body rp env user st = Inr (st', r)"
  shows "op_safe st st'"
  using assms reconcile_safe
  by (auto simp: find_current_body_def Let_def split: option.splits)

interpretation find_current_op: conserving_operation pid "find_current_body rp env user" for pid rp env user
  by (rule conserving_operationI) (rule find_current_body_safe)

section \<open>Cancel\<close>

lemma replace_by_id_split:
  assumes "distinct (map qa_id (pre @ a # post))" and "qa_id b = qa_id a"
  shows "replace_by_id b (pre @ a # post) = pre @ b # post"
  using assms by (induction pre) auto

lemma coherent_ids:
  assumes "attempts_inv t" and "coherent pid t mem"
  shows "distinct (map qa_id mem)"
  unfolding distinct_map using assms attempts_inv_id_eq [OF assms(1)]
  by (auto simp: coherent_def intro!: inj_onI)

lemma release_reservation_Inr:
  assumes "distinct (map pr_id (db_products (tx_db st)))"
    and "db_products (tx_db st) = ppre @ p # ppost" and "tx_product st = locked_of_row p"
    and "release_reservation st = Inr st'" and "product_ok p"
  shows "pr_reserved p > 0" and "tx_attempts st' = tx_attempts st" and "tx_now st' = tx_now st"
    and "tx_db st' = (tx_db st)\<lparr>db_products := ppre @
           p\<lparr>pr_reserved := pr_reserved p - 1, pr_updated_at := tx_now st\<rparr> # ppost\<rparr>"
    and "tx_product st' = locked_of_row (p\<lparr>pr_reserved := pr_reserved p - 1, pr_updated_at := tx_now st\<rparr>)"
    and "product_ok (p\<lparr>pr_reserved := pr_reserved p - 1, pr_updated_at := tx_now st\<rparr>)"
proof -
  obtain d where upd: "update_products (\<lambda>r. pr_id r = pr_id p \<and> pr_reserved r = pr_reserved p \<and> pr_reserved r > 0)
              (\<lambda>r. r\<lparr>pr_reserved := pr_reserved r - 1, pr_updated_at := tx_now st\<rparr>) (tx_db st) = Inr (d, Suc 0)"
    and st': "st' = st\<lparr>tx_db := d, tx_product := (tx_product st)\<lparr>lp_reserved := i32 (pr_reserved p - 1)\<rparr>\<rparr>"
    using assms(3,4) by (auto simp: release_reservation_def)
  obtain pre q post where q: "db_products (tx_db st) = pre @ q # post" "pr_id q = pr_id p"
      "pr_reserved q > 0" "pr_reserved q = pr_reserved p"
    and d: "d = (tx_db st)\<lparr>db_products := pre @ q\<lparr>pr_reserved := pr_reserved q - 1, pr_updated_at := tx_now st\<rparr> # post\<rparr>"
    and viol: "product_violation (q\<lparr>pr_reserved := pr_reserved q - 1, pr_updated_at := tx_now st\<rparr>) (pre @ post) = None"
    by (rule update_products_one [OF assms(1) _ upd]) auto
  have "pre = ppre \<and> q = p \<and> post = ppost"
    using assms(1,2) q(1,2) by (rule split_unique)
  then have eqs: "pre = ppre" "q = p" "post = ppost" by auto
  show "pr_reserved p > 0" using q(3) eqs by simp
  moreover have "pr_reserved p \<le> max_int32" using assms(5) by (simp add: product_ok_def)
  ultimately have "i32 (pr_reserved p - 1) = pr_reserved p - 1"
    by (intro i32_id) (simp_all add: min_int32_def)
  then show "tx_product st' = locked_of_row (p\<lparr>pr_reserved := pr_reserved p - 1, pr_updated_at := tx_now st\<rparr>)"
    using assms(3) by (simp add: st' locked_of_row_def)
  show "product_ok (p\<lparr>pr_reserved := pr_reserved p - 1, pr_updated_at := tx_now st\<rparr>)"
    using viol assms(5) eqs by (intro product_violation_ok) (auto simp: product_ok_def)
  show "tx_attempts st' = tx_attempts st" "tx_now st' = tx_now st"
    "tx_db st' = (tx_db st)\<lparr>db_products := ppre @
           p\<lparr>pr_reserved := pr_reserved p - 1, pr_updated_at := tx_now st\<rparr> # ppost\<rparr>"
    using d eqs by (simp_all add: st')
qed

lemma tx_inv_mem_ids: "tx_inv st \<Longrightarrow> distinct (map qa_id (tx_attempts st))"
  by (rule coherent_ids) (auto simp: tx_inv_def db_inv_def)

lemma guarded_transition:
  assumes inv: "tx_inv st" and mem: "tx_attempts st = pre @ a # post"
    and guard: "s = qa_state a" and step: "attempt_step a (f a)"
    and upd: "update_attempts (guarded_row (qa_id a) s (qa_version a)) f (tx_db st) = Inr (d, n)"
  shows "attempt_replaced (tx_db st) a (f a) d" and "db_products d = db_products (tx_db st)"
    and "db_outbox d = db_outbox (tx_db st)" and "db_adjustments d = db_adjustments (tx_db st)"
    and "db_inbox d = db_inbox (tx_db st)"
    and "lp_reserved (tx_product st) = reserving (pre @ a # post)" and "row_ok a"
    and "qa_product a = lp_id (tx_product st)"
proof -
  have loop: "loop_inv st (pre @ a # post)" using tx_inv_loop_inv [OF inv] mem by simp
  note A = loop_invD [OF loop]
  show repl: "attempt_replaced (tx_db st) a (f a) d"
    by (rule update_guarded_Inr [OF A(4,1) guard refl upd])
  show "db_products d = db_products (tx_db st)" "db_outbox d = db_outbox (tx_db st)"
    "db_adjustments d = db_adjustments (tx_db st)" "db_inbox d = db_inbox (tx_db st)"
    using repl by (auto simp: attempt_replaced_def)
  show "lp_reserved (tx_product st) = reserving (pre @ a # post)" using loop by (simp add: loop_inv_def)
  show "row_ok a" "qa_product a = lp_id (tx_product st)" using A by simp_all
qed

lemma transition_to_cancelled_Inr:
  assumes inv: "tx_inv st" and a: "a \<in> set (tx_attempts st)" and act: "is_active_state (qa_state a)"
    and tr: "transition_to_cancelled st a = Inr (st', b)"
  shows "tx_inv st' \<and> op_safe st st' \<and> b = set_terminal Cancelled ''cancelled'' (tx_now st) a"
proof -
  obtain pre post where mem: "tx_attempts st = pre @ a # post" using a by (auto simp: in_set_conv_decomp)
  define c where "c = set_terminal Cancelled ''cancelled'' (tx_now st)"
  have step: "attempt_step a (c a)" unfolding c_def by (rule attempt_step.cancel [OF act])
  obtain d st1 where upd: "update_attempts (guarded_row (qa_id a) (qa_state a) (qa_version a)) c (tx_db st) = Inr (d, 1)"
    and rel: "(if reserves_stock (qa_state a) then release_reservation (st\<lparr>tx_db := d\<rparr>)
             else Inr (st\<lparr>tx_db := d\<rparr>)) = Inr st1"
    and st': "st' = st1\<lparr>tx_attempts := replace_by_id (c a) (tx_attempts st1)\<rparr>" and b: "b = c a"
    using tr by (auto simp: transition_to_cancelled_def c_def Let_def)
  note g = guarded_transition [OF inv mem refl step upd]
  obtain ppre p ppost where p: "db_products (tx_db st) = ppre @ p # ppost" "tx_product st = locked_of_row p"
    "product_ok p" using tx_inv_row [OF inv] by metis
  have dist: "distinct (map pr_id (db_products (tx_db st)))" using inv by (simp add: tx_inv_def db_inv_def)
  have repl_mem: "replace_by_id (c a) (pre @ a # post) = pre @ c a # post"
    using replace_by_id_split [of pre a post] tx_inv_mem_ids [OF inv] mem
    by (simp add: c_def set_terminal_def)
  have ident: "qa_product (c a) = qa_product a" "qa_state (c a) = Cancelled" "\<not> reserves_stock (qa_state (c a))"
    by (simp_all add: c_def set_terminal_def reserves_stock_def)
  have "\<exists>p' u. p' = p\<lparr>pr_stock := pr_stock p, pr_reserved := reserving (pre @ c a # post), pr_updated_at := u\<rparr> \<and>
      product_ok p' \<and> tx_db st1 = d\<lparr>db_products := ppre @ p' # ppost\<rparr> \<and> tx_product st1 = locked_of_row p' \<and>
      tx_attempts st1 = pre @ a # post"
  proof (cases "reserves_stock (qa_state a)")
    case True
    then have "release_reservation (st\<lparr>tx_db := d\<rparr>) = Inr st1" using rel by simp
    note r = release_reservation_Inr [OF _ _ _ this p(3), of ppre ppost]
    have R: "tx_attempts st1 = pre @ a # post"
      "tx_db st1 = d\<lparr>db_products := ppre @ p\<lparr>pr_reserved := pr_reserved p - 1, pr_updated_at := tx_now st\<rparr> # ppost\<rparr>"
      "tx_product st1 = locked_of_row (p\<lparr>pr_reserved := pr_reserved p - 1, pr_updated_at := tx_now st\<rparr>)"
      "product_ok (p\<lparr>pr_reserved := pr_reserved p - 1, pr_updated_at := tx_now st\<rparr>)"
      using r dist p g(2) mem by simp_all
    have "pr_reserved p - 1 = reserving (pre @ c a # post)" using g(6) p(2) True ident(3) by simp
    then have "p\<lparr>pr_reserved := pr_reserved p - 1, pr_updated_at := tx_now st\<rparr> =
       p\<lparr>pr_stock := pr_stock p, pr_reserved := reserving (pre @ c a # post), pr_updated_at := tx_now st\<rparr>" by simp
    then show ?thesis using R by metis
  next
    case False
    have "p = p\<lparr>pr_stock := pr_stock p, pr_reserved := reserving (pre @ c a # post), pr_updated_at := pr_updated_at p\<rparr>"
      using g(6) p(2) False ident(3) by simp
    moreover have "tx_db st1 = d\<lparr>db_products := ppre @ p # ppost\<rparr>"
      using rel False g(2) p(1) by (metis Inr_inject tx_state.select_convs(1) tx_state.surjective
          tx_state.update_convs(1) db.surjective db.update_convs(1))
    ultimately show ?thesis using rel False p mem
      by (intro exI [of _ p] exI [of _ "pr_updated_at p"]) auto
  qed
  then obtain p' u where p': "p' = p\<lparr>pr_stock := pr_stock p, pr_reserved := reserving (pre @ c a # post), pr_updated_at := u\<rparr>"
      "product_ok p'" and st1: "tx_db st1 = d\<lparr>db_products := ppre @ p' # ppost\<rparr>"
      "tx_product st1 = locked_of_row p'" "tx_attempts st1 = pre @ a # post" by blast
  have "inbox_inv (db_inbox (tx_db st))" using inv by (simp add: tx_inv_def db_inv_def)
  then have "tx_inv st'" "core_frame (lp_id (tx_product st)) (tx_db st) (tx_db st')"
    by - (rule tx_step [OF inv mem step g(1) p(1,2) p']; simp add: st' st1 repl_mem g)+
  moreover have "balance q (tx_db st') = balance q (tx_db st)" for q
    by (rule tx_balance_step [OF inv p(1) _ _ g(1), where p' = p' and d' = "tx_db st'"])
       (use p p' act ident g(4,8) in \<open>auto simp: st' st1 is_active_state_def\<close>)
  ultimately show ?thesis using p(2) p'(1) b by (simp add: op_safe_def st' st1 tx_inv_def c_def)
qed

lemma cancel_body_safe:
  assumes inv: "tx_inv st" and body: "cancel_body rp env cmd st = Inr (st', r)"
  shows "op_safe st st'"
proof -
  obtain st1 where rec: "reconcile_locked_product rp env st = Inr st1"
    using body by (auto simp: cancel_body_def)
  note R = reconcile_safe [OF inv rec]
  have "st' = st1 \<or> (\<exists>a b st2. a \<in> set (tx_attempts st1) \<and> is_active_state (qa_state a) \<and>
      transition_to_cancelled st1 a = Inr (st2, b) \<and> reconcile_locked_product rp env st2 = Inr st')"
    using body rec by (auto simp: cancel_body_def latest_attempt_for_user_def is_terminal_state_def
        dest!: find_in_set split: option.splits if_splits)
  then have "op_safe st1 st'"
  proof (elim disjE exE conjE)
    fix a b st2
    assume "a \<in> set (tx_attempts st1)" "is_active_state (qa_state a)"
      and tr: "transition_to_cancelled st1 a = Inr (st2, b)"
      and rec2: "reconcile_locked_product rp env st2 = Inr st'"
    then have "tx_inv st2" "op_safe st1 st2" using transition_to_cancelled_Inr R by blast+
    then show ?thesis using reconcile_safe [OF _ rec2] op_safe_trans by blast
  qed (use R op_safe_refl in simp)
  then show ?thesis using R op_safe_trans by blast
qed

interpretation cancel_op: conserving_operation pid "cancel_body rp env cmd" for pid rp env cmd
  by (rule conserving_operationI) (rule cancel_body_safe)

section \<open>Join\<close>

lemma update_product_for_new_attempt_Inr:
  assumes dist: "distinct (map pr_id (db_products (tx_db st)))"
    and p: "db_products (tx_db st) = ppre @ p # ppost" "tx_product st = locked_of_row p" "product_ok p"
    and upd: "update_product_for_new_attempt st k reserve = Inr st'"
    and free: "reserve \<Longrightarrow> pr_reserved p < pr_stock p" and k: "k \<le> max_int64"
  shows "\<exists>p' u. p' = p\<lparr>pr_next_sequence := k, pr_reserved := pr_reserved p + (if reserve then 1 else 0),
            pr_updated_at := u\<rparr> \<and> product_ok p' \<and>
     st' = st\<lparr>tx_db := (tx_db st)\<lparr>db_products := ppre @ p' # ppost\<rparr>, tx_product := locked_of_row p'\<rparr>"
proof -
  let ?r = "i32 (pr_reserved p + (if reserve then 1 else 0))"
  obtain d where upd: "update_products (\<lambda>r. pr_id r = pr_id p \<and> pr_next_sequence r = pr_next_sequence p \<and>
                pr_reserved r = pr_reserved p \<and> 0 \<le> ?r \<and> ?r \<le> pr_stock r)
              (\<lambda>r. r\<lparr>pr_next_sequence := k, pr_reserved := ?r, pr_updated_at := tx_now st\<rparr>) (tx_db st) = Inr (d, Suc 0)"
    and st': "st' = st\<lparr>tx_db := d, tx_product := (tx_product st)\<lparr>lp_next_sequence := k, lp_reserved := ?r\<rparr>\<rparr>"
    using upd p(2) by (auto simp: update_product_for_new_attempt_def Let_def)
  obtain pre q post where q: "db_products (tx_db st) = pre @ q # post" "pr_id q = pr_id p"
    and d: "d = (tx_db st)\<lparr>db_products := pre @ q\<lparr>pr_next_sequence := k, pr_reserved := ?r, pr_updated_at := tx_now st\<rparr> # post\<rparr>"
    and viol: "product_violation (q\<lparr>pr_next_sequence := k, pr_reserved := ?r, pr_updated_at := tx_now st\<rparr>) (pre @ post) = None"
    by (rule update_products_one [OF dist _ upd]) auto
  have "pre = ppre \<and> q = p \<and> post = ppost" using dist p(1) q(1,2) by (rule split_unique)
  then have eqs: "pre = ppre" "q = p" "post = ppost" by auto
  have "?r = pr_reserved p + (if reserve then 1 else 0)"
    using p(3) free by (intro i32_id) (auto simp: product_ok_def min_int32_def)
  moreover have "product_ok (p\<lparr>pr_next_sequence := k, pr_reserved := ?r, pr_updated_at := tx_now st\<rparr>)"
    using viol eqs k by (intro product_violation_ok) auto
  ultimately show ?thesis using d eqs p(2) st'
    by (intro exI [of _ "p\<lparr>pr_next_sequence := k, pr_reserved := ?r, pr_updated_at := tx_now st\<rparr>"]
        exI [of _ "tx_now st"]) (simp add: locked_of_row_def)
qed

text \<open>The two ways a new attempt is built, seen as one.\<close>

lemma create_attempt_parts:
  assumes "create_attempt rp env st cmd = Inr (st', a)"
    and "lp_next_sequence (tx_product st) \<le> max_int64"
  obtains st2 reserve where "next_queue_sequence (lp_next_sequence (tx_product st)) = Inr (lp_next_sequence (tx_product st) + 1)"
    and "lp_next_sequence (tx_product st) + 1 \<le> max_int64"
    and "update_product_for_new_attempt (st\<lparr>tx_draws := Suc (tx_draws st)\<rparr>) (lp_next_sequence (tx_product st) + 1) reserve = Inr st2"
    and "insert_new_attempt st2 a = Inr (st', a)"
    and "reserve \<longleftrightarrow> lp_reserved (tx_product st) < lp_stock (tx_product st)"
    and "a = (if reserve then checkout_attempt rp (tx_now st) else id)
               (blank_attempt (en_uuid env (tx_draws st)) cmd (lp_next_sequence (tx_product st)) (tx_now st))"
proof -
  let ?p = "tx_product st" and ?st = "st\<lparr>tx_draws := Suc (tx_draws st)\<rparr>"
  let ?a = "blank_attempt (en_uuid env (tx_draws st)) cmd (lp_next_sequence ?p) (tx_now st)"
  have same: "b = c" if "insert_new_attempt x b = Inr (y, c)" for x y b c
    using that by (auto simp: insert_new_attempt_def)
  obtain k where k: "next_queue_sequence (lp_next_sequence ?p) = Inr k"
    using assms by (auto simp: create_attempt_def)
  then have k1: "k = lp_next_sequence ?p + 1" "k \<le> max_int64"
    using assms(2) by (auto simp: next_queue_sequence_def split: if_splits)
  show thesis
  proof (cases "lp_reserved ?p < lp_stock ?p")
    case True
    then obtain st2 where "update_product_for_new_attempt ?st k True = Inr st2"
      "insert_new_attempt st2 (checkout_attempt rp (tx_now st) ?a) = Inr (st', a)"
      using assms k by (auto simp: create_attempt_def draw_uuid_def Let_def)
    moreover from this(2) have "checkout_attempt rp (tx_now st) ?a = a" by (rule same)
    ultimately show thesis using True k k1 by (intro that [of True st2]) simp_all
  next
    case False
    then obtain st2 where "update_product_for_new_attempt ?st k False = Inr st2"
      "insert_new_attempt st2 ?a = Inr (st', a)"
      using assms k by (auto simp: create_attempt_def draw_uuid_def Let_def split: if_splits)
    moreover from this(2) have "?a = a" by (rule same)
    ultimately show thesis using False k k1 by (intro that [of False st2]) simp_all
  qed
qed

lemma create_attempt_capacity:
  assumes "create_attempt rp env st cmd = Inr (st', a)"
    and "\<not> lp_reserved (tx_product st) < lp_stock (tx_product st)"
  obtains c where "waiting_capacity (lp_stock (tx_product st)) (rp_buffer_percent rp) = Inr c"
    and "count_waiting (tx_attempts st) < c"
  using assms by (auto simp: create_attempt_def draw_uuid_def Let_def split: if_splits)

lemma create_attempt_Inr:
  assumes inv: "tx_inv st" and pid: "jq_product cmd = lp_id (tx_product st)"
    and create: "create_attempt rp env st cmd = Inr (st', a)"
  shows "tx_inv st'" and "op_safe st st'" and "tx_attempts st' = tx_attempts st @ [a]"
    and "qa_sequence a = lp_next_sequence (tx_product st)"
    and "db_attempts (tx_db st') = db_attempts (tx_db st) @ [a]"
    and "qa_state a = (if lp_reserved (tx_product st) < lp_stock (tx_product st) then Checkout else Waiting)"
    and "qa_product a = jq_product cmd" and "qa_user a = jq_user cmd" and "qa_key a = jq_key cmd"
proof -
  obtain ppre p ppost where p: "db_products (tx_db st) = ppre @ p # ppost" "tx_product st = locked_of_row p"
    "product_ok p" "product_counts (db_attempts (tx_db st)) p" using tx_inv_row [OF inv] by metis
  have dist: "distinct (map pr_id (db_products (tx_db st)))" using inv by (simp add: tx_inv_def db_inv_def)
  have "lp_next_sequence (tx_product st) \<le> max_int64" using p(2,3) by (simp add: product_ok_def)
  from create_attempt_parts [OF create this] obtain st2 reserve
    where k: "lp_next_sequence (tx_product st) + 1 \<le> max_int64"
      and upd: "update_product_for_new_attempt (st\<lparr>tx_draws := Suc (tx_draws st)\<rparr>)
            (lp_next_sequence (tx_product st) + 1) reserve = Inr st2"
      and ins: "insert_new_attempt st2 a = Inr (st', a)"
      and res: "reserve \<longleftrightarrow> lp_reserved (tx_product st) < lp_stock (tx_product st)"
      and a: "a = (if reserve then checkout_attempt rp (tx_now st) else id)
               (blank_attempt (en_uuid env (tx_draws st)) cmd (lp_next_sequence (tx_product st)) (tx_now st))"
    by metis
  have A: "qa_product a = pr_id p" "qa_sequence a = pr_next_sequence p" "qa_version a = 1"
    "qa_state a = (if reserve then Checkout else Waiting)"
    using a pid p(2) by (simp_all add: blank_attempt_def checkout_attempt_def)
  then show "qa_sequence a = lp_next_sequence (tx_product st)" using p(2) by simp
  show "qa_state a = (if lp_reserved (tx_product st) < lp_stock (tx_product st) then Checkout else Waiting)"
    "qa_product a = jq_product cmd" "qa_user a = jq_user cmd" "qa_key a = jq_key cmd"
    using a A(4) res by (simp_all add: blank_attempt_def checkout_attempt_def)
  obtain p' u where p': "p' = p\<lparr>pr_next_sequence := pr_next_sequence p + 1,
        pr_reserved := pr_reserved p + (if reserve then 1 else 0), pr_updated_at := u\<rparr>" "product_ok p'"
    and st2: "st2 = st\<lparr>tx_draws := Suc (tx_draws st), tx_db := (tx_db st)\<lparr>db_products := ppre @ p' # ppost\<rparr>,
               tx_product := locked_of_row p'\<rparr>"
    using update_product_for_new_attempt_Inr [OF _ _ _ p(3) upd _ k, of ppre ppost] dist p(1,2) res
    by auto
  let ?t = "db_attempts (tx_db st)"
  have viol: "attempt_violation a ?t = None"
    and st': "st' = st2\<lparr>tx_db := (tx_db st2)\<lparr>db_attempts := ?t @ [a]\<rparr>, tx_attempts := tx_attempts st @ [a]\<rparr>"
    using ins by (auto simp: insert_new_attempt_def insert_attempt_def sql_insert_Inr st2)
  show "tx_attempts st' = tx_attempts st @ [a]" using st' by simp
  show "db_attempts (tx_db st') = db_attempts (tx_db st) @ [a]" using st' st2 by simp
  have ainv: "attempts_inv ?t" and coh: "coherent (pr_id p) ?t (tx_attempts st)"
    using inv p(2) by (auto simp: tx_inv_def db_inv_def)
  have checks: "attempt_checks a" and fresh: "\<forall>b\<in>set ?t. compatible a b"
    using viol by (auto simp: violation_None_compatible)
  have "row_ok a" using checks A by (simp add: row_ok_def)
  then have ainv': "attempts_inv (?t @ [a])" using attempts_inv_insert [OF ainv viol] by simp
  have "a \<notin> set ?t" using fresh by (auto simp: compatible_def)
  moreover have "qa_sequence x < pr_next_sequence p" if "x \<in> set (tx_attempts st)" for x
    using that coh p(4) by (auto simp: coherent_def product_counts_def)
  ultimately have coh': "coherent (pr_id p) (?t @ [a]) (tx_attempts st @ [a])"
    using coh A by (auto simp: coherent_def sorted_append intro: less_imp_le)
  have loop: "loop_inv st' (tx_attempts st')"
    using ainv' coh' p' A tx_inv_loop_inv [OF inv] p(2)
    by (auto simp: loop_inv_def st' st2 reserves_stock_def product_ok_def)
  show "tx_inv st'"
  proof (rule tx_inv_intro [OF _ p(1) _ _ _ p'(2) loop])
    show "qa_sequence x < pr_next_sequence p'"
      if "x \<in> set (db_attempts (tx_db st'))" "qa_product x = pr_id p" for x
      using that p(4) A p'(1) by (auto simp: st' product_counts_def)
  qed (use inv p' A in \<open>auto simp: st' st2 tx_inv_def db_inv_def reserved_in_def\<close>)
  have evolves: "product_evolves (pr_id p) p p'"
    unfolding product_evolves_def p'(1)
    by (rule conjI, rule exI [of _ "pr_stock p"], rule exI [of _ "pr_reserved p + (if reserve then 1 else 0)"],
        rule exI [of _ "pr_next_sequence p + 1"], rule exI [of _ u]) simp_all
  have "attempts_evolve (pr_id p) ?t (?t @ [a])"
    unfolding attempts_evolve_def using A by (intro exI [of _ ?t] exI [of _ "[a]"]) simp
  then have "core_frame (pr_id p) (tx_db st) (tx_db st')"
    unfolding core_frame_def using evolves p(1)
    by (simp add: st' st2 list_all2_appendI list_all2_refl)
  moreover have "balance q (tx_db st') = balance q (tx_db st)" for q
    using stock_of_replaced [of ppre p ppost p' q] dist p(1) p'(1) A
    by (auto simp: balance_def purchased_in_def st' st2)
  ultimately show "op_safe st st'"
    using \<open>tx_inv st'\<close> p(2) p'(1) by (simp add: op_safe_def tx_inv_def st' st2)
qed

lemma join_new_safe:
  assumes inv: "tx_inv st" and pid: "jq_product cmd = lp_id (tx_product st)"
    and body: "join_new rp env cmd st = Inr (st', r)"
  shows "op_safe st st'"
proof (cases "\<not> lp_queue_enabled (tx_product st)")
  case True
  then show ?thesis using body op_safe_refl [OF inv] by (simp add: join_new_def join_refused_def)
next
  case False
  then obtain st1 where rec: "reconcile_locked_product rp env st = Inr st1"
    using body by (auto simp: join_new_def split: if_splits)
  note R = reconcile_safe [OF inv rec]
  have pid1: "jq_product cmd = lp_id (tx_product st1)" using R pid by (simp add: op_safe_def)
  have "st' = st1 \<or> (\<exists>a. create_attempt rp env st1 cmd = Inr (st', a))"
    using body rec False
    by (auto simp: join_new_def join_refused_def join_found_def split: if_splits sum.splits)
  then show ?thesis
    using create_attempt_Inr(2) [OF _ pid1] R op_safe_trans by blast
qed

lemma join_body_safe:
  assumes inv: "tx_inv st" and pid: "lp_id (tx_product st) = jq_product cmd"
    and body: "join_body rp env cmd st = Inr (st', r)"
  shows "op_safe st st'"
proof -
  consider "st' = st" | "join_new rp env cmd st = Inr (st', r)"
    | st1 where "reconcile_locked_product rp env st = Inr st1"
        "st' = st1 \<or> join_new rp env cmd st1 = Inr (st', r)"
    using body by (auto simp: join_body_def join_found_def split: option.splits if_splits)
  then show ?thesis
  proof cases
    case 1
    then show ?thesis using op_safe_refl [OF inv] by simp
  next
    case 2
    then show ?thesis using join_new_safe [OF inv pid [symmetric]] by simp
  next
    case 3
    note R = reconcile_safe [OF inv 3(1)]
    have "jq_product cmd = lp_id (tx_product st1)" using R pid by (simp add: op_safe_def)
    then show ?thesis using 3(2) join_new_safe [of st1] R op_safe_trans by blast
  qed
qed

interpretation join_op: conserving_operation "jq_product cmd" "join_body rp env cmd" for rp env cmd
  by (rule conserving_operationI) (rule join_body_safe)

section \<open>AdjustStock\<close>

lemma set_stock_Inr:
  assumes inv: "tx_inv st" and stock: "lp_reserved (tx_product st) \<le> s" "s \<le> max_int32"
    and upd: "set_stock st s = Inr st'"
  shows "tx_inv st'" and "core_frame (lp_id (tx_product st)) (tx_db st) (tx_db st')"
    and "lp_id (tx_product st') = lp_id (tx_product st)"
    and "balance q (tx_db st') = balance q (tx_db st) +
           (if q = lp_id (tx_product st) then s - lp_stock (tx_product st) else 0)"
proof -
  obtain ppre p ppost where p: "db_products (tx_db st) = ppre @ p # ppost" "tx_product st = locked_of_row p"
    "product_ok p" "product_counts (db_attempts (tx_db st)) p" using tx_inv_row [OF inv] by metis
  have dist: "distinct (map pr_id (db_products (tx_db st)))" using inv by (simp add: tx_inv_def db_inv_def)
  obtain d where u: "update_products (\<lambda>r. pr_id r = pr_id p \<and> pr_stock r = pr_stock p \<and> pr_reserved r = pr_reserved p)
              (\<lambda>r. r\<lparr>pr_stock := s, pr_updated_at := tx_now st\<rparr>) (tx_db st) = Inr (d, Suc 0)"
    and st': "st' = st\<lparr>tx_db := d, tx_product := (tx_product st)\<lparr>lp_stock := s\<rparr>\<rparr>"
    using upd p(2) by (auto simp: set_stock_def Let_def)
  obtain pre x post where x: "db_products (tx_db st) = pre @ x # post" "pr_id x = pr_id p"
    and d: "d = (tx_db st)\<lparr>db_products := pre @ x\<lparr>pr_stock := s, pr_updated_at := tx_now st\<rparr> # post\<rparr>"
    and viol: "product_violation (x\<lparr>pr_stock := s, pr_updated_at := tx_now st\<rparr>) (pre @ post) = None"
    by (rule update_products_one [OF dist _ u]) auto
  have "pre = ppre \<and> x = p \<and> post = ppost" using dist p(1) x(1,2) by (rule split_unique)
  then have eqs: "pre = ppre" "x = p" "post = ppost" by auto
  let ?p' = "p\<lparr>pr_stock := s, pr_updated_at := tx_now st\<rparr>"
  have ok: "product_ok ?p'" using viol eqs p(3)
    by (intro product_violation_ok) (auto simp: product_ok_def)
  have loop: "loop_inv st' (tx_attempts st')"
    using tx_inv_loop_inv [OF inv] stock by (auto simp: loop_inv_def st' d)
  show "tx_inv st'"
  proof (rule tx_inv_intro [OF _ p(1) _ _ _ ok loop])
    show "qa_sequence a < pr_next_sequence ?p'"
      if "a \<in> set (db_attempts (tx_db st'))" "qa_product a = pr_id p" for a
      using that p(4) by (auto simp: st' d product_counts_def)
  qed (use inv p(2) eqs in \<open>auto simp: st' d tx_inv_def db_inv_def locked_of_row_def\<close>)
  have "product_evolves (pr_id p) p ?p'"
    unfolding product_evolves_def
    by (rule conjI, rule exI [of _ s], rule exI [of _ "pr_reserved p"],
        rule exI [of _ "pr_next_sequence p"], rule exI [of _ "tx_now st"]) simp_all
  then show "core_frame (lp_id (tx_product st)) (tx_db st) (tx_db st')"
    unfolding core_frame_def using p(1,2) eqs
    by (simp add: st' d list_all2_appendI list_all2_refl attempts_evolve_rows)
  show "lp_id (tx_product st') = lp_id (tx_product st)" by (simp add: st')
  show "balance q (tx_db st') = balance q (tx_db st) +
           (if q = lp_id (tx_product st) then s - lp_stock (tx_product st) else 0)"
    using stock_of_replaced [of ppre p ppost ?p' q] dist p eqs by (simp add: balance_def st' d)
qed

lemma insert_adjustment_keeps:
  assumes "insert_adjustment row d = Inr d'"
  shows "db_inv d' = db_inv d" and "core_frame pid d d'"
    and "balance q d' = balance q d -
      (if ad_product row = q \<and> ad_status row = AdjustmentApplied then ad_delta row else 0)"
  using assms
  by (auto simp: insert_adjustment_def sql_insert_Inr db_inv_def core_frame_def balance_def ledger_def
      list_all2_refl attempts_evolve_rows)

lemma persist_rejected_Inr:
  assumes "tx_inv st" and "persist_rejected_adjustment env st cmd digest e = Inr (st', r)"
  shows "op_safe st st'"
  using assms insert_adjustment_keeps
  by (fastforce simp: persist_rejected_adjustment_def draw_uuid_def Let_def op_safe_def tx_inv_def
      split: sum.splits)

lemma record_applied_Inr:
  assumes "record_applied_adjustment env st cmd digest b a = Inr (st', r)"
  shows "db_inv (tx_db st') = db_inv (tx_db st) \<and> core_frame pid (tx_db st) (tx_db st') \<and>
     balance q (tx_db st') = balance q (tx_db st) - (if sa_product cmd = q then sa_delta cmd else 0) \<and>
     tx_product st' = tx_product st"
  using assms insert_adjustment_keeps
  by (fastforce simp: record_applied_adjustment_def draw_uuid_def Let_def)

lemma adjust_stock_body_safe:
  assumes inv: "tx_inv st" and pid: "lp_id (tx_product st) = sa_product cmd"
    and body: "adjust_stock_body rp env cmd digest st = Inr (st', r)"
  shows "op_safe st st'"
proof -
  let ?after = "lp_stock (tx_product st) + sa_delta cmd"
  obtain stored where stored: "find_stock_adjustment (tx_db st) (sa_product cmd) (sa_key cmd) = Inr stored"
    using body by (auto simp: adjust_stock_body_def)
  consider (replay) x where "stored = Some x"
    | (reject) e where "stored = None" "persist_rejected_adjustment env st cmd digest e = Inr (st', r)"
    | (applies) st1 st2 where "stored = None" "0 \<le> ?after" "?after \<le> max_int32"
        "lp_reserved (tx_product st) \<le> ?after" "set_stock st (i32 ?after) = Inr st1"
        "reconcile_locked_product rp env st1 = Inr st2"
        "record_applied_adjustment env st2 cmd digest (lp_stock (tx_product st)) (i32 ?after) = Inr (st', r)"
    using body stored by (fastforce simp: adjust_stock_body_def Let_def split: if_splits option.splits)
  then show ?thesis
  proof cases
    case replay
    then have "st' = st"
      using body stored by (auto simp: adjust_stock_body_def replay_adjustment_def split: if_splits)
    then show ?thesis using op_safe_refl [OF inv] by simp
  next
    case reject
    then show ?thesis using persist_rejected_Inr [OF inv] by blast
  next
    case applies
    have i: "i32 ?after = ?after"
      using applies(2,3) by (intro i32_id) (auto simp: min_int32_def)
    note S = set_stock_Inr [OF inv _ _ applies(5) [unfolded i]]
    have R: "tx_inv st2 \<and> op_safe st1 st2"
      using reconcile_safe [OF S(1) applies(6)] applies(3,4) by simp
    show ?thesis
      using S(2-4) R record_applied_Inr [OF applies(7)] applies(3,4) core_frame_trans pid
      by (auto simp: op_safe_def)
  qed
qed

interpretation adjust_stock_op: conserving_operation "sa_product cmd" "adjust_stock_body rp env cmd digest"
  for rp env cmd digest
  by (rule conserving_operationI) (rule adjust_stock_body_safe)

end
