(* ===== verification/Payment_Safety.thy ===== *)
theory Payment_Safety
  imports Payment Queue_Safety
begin

text \<open>
  Payments keep the database invariant, sell exactly the units they take from stock, and move
  inbox rows only forward: the closures of \<open>payment.go\<close> satisfy the contract of
  \<open>conserving_operation\<close>, and the transactions outside it have the same frame.
\<close>

section \<open>The inbox\<close>

lemma update_products_at:
  assumes "distinct (map pr_id (db_products d))" and "db_products d = ppre @ p # ppost"
    and "\<And>r. P r \<Longrightarrow> pr_id r = pr_id p" and "update_products P f d = Inr (d', Suc 0)"
    and "pr_next_sequence (f p) \<le> max_int64"
  shows "P p" and "d' = d\<lparr>db_products := ppre @ f p # ppost\<rparr>" and "product_ok (f p)"
proof -
  obtain pre q post where q: "db_products d = pre @ q # post" "pr_id q = pr_id p" "P q"
    and d': "d' = d\<lparr>db_products := pre @ f q # post\<rparr>" and v: "product_violation (f q) (pre @ post) = None"
    by (rule update_products_one [OF assms(1) assms(3) assms(4)])
  have "pre = ppre \<and> q = p \<and> post = ppost" using assms(1,2) q(1,2) by (rule split_unique)
  then show "P p" "d' = d\<lparr>db_products := ppre @ f p # ppost\<rparr>" "product_ok (f p)"
    using q(3) d' v assms(5) product_violation_ok by auto
qed

text \<open>An update of the inbox by primary key that keeps the identity of the row.\<close>

lemma update_inbox_cases:
  assumes "inbox_inv (db_inbox d)" and "\<And>r. P r \<Longrightarrow> ib_id r = iid"
    and "update_inbox P f d = Inr (d', n)"
  shows "n = 0 \<and> d' = d \<or> n = Suc 0 \<and> (\<exists>pre r post. db_inbox d = pre @ r # post \<and> P r \<and>
     d' = d\<lparr>db_inbox := pre @ f r # post\<rparr> \<and> inbox_checks (f r))"
proof -
  obtain t where t: "sql_update inbox_violation P f (db_inbox d) = Inr (t, n)"
    "d' = d\<lparr>db_inbox := t\<rparr>" using assms(3) by (auto simp: update_inbox_def)
  have "distinct (map ib_id (db_inbox d))" using assms(1) by (simp add: inbox_inv_def)
  from sql_update_key [OF this assms(2) t(1)] show ?thesis using t(2)
    by (auto simp: inbox_violation_def split: if_splits)
qed

lemma update_inbox_one:
  assumes "inbox_inv (db_inbox d)" and "\<And>r. P r \<Longrightarrow> ib_id r = iid"
    and "update_inbox P f d = Inr (d', Suc 0)"
  obtains pre r post where "db_inbox d = pre @ r # post" and "P r"
    and "d' = d\<lparr>db_inbox := pre @ f r # post\<rparr>" and "inbox_checks (f r)"
  using update_inbox_cases [OF assms] by auto

lemma update_inbox_keeps:
  assumes inv: "db_inv d" and P: "\<And>r. P r \<Longrightarrow> ib_id r = iid \<and> \<not> inbox_final (ib_status r)"
    and f: "\<And>r. P r \<Longrightarrow> inbox_ident (f r) = inbox_ident r \<and> ib_claim_generation r \<le> ib_claim_generation (f r)"
    and upd: "update_inbox P f d = Inr (d', Suc 0)"
  shows "db_inv d'" and "core_frame pid d d'" and "balance q d' = balance q d"
    and "\<exists>t. d' = d\<lparr>db_inbox := t\<rparr>" and "inbox_inv (db_inbox d')" and "inbox_evolves (db_inbox d) (db_inbox d')"
proof -
  obtain pre r post where t: "db_inbox d = pre @ r # post" "P r"
    and d': "d' = d\<lparr>db_inbox := pre @ f r # post\<rparr>" and c: "inbox_checks (f r)"
    by (rule update_inbox_one [OF db_invD(5) [OF inv] _ upd]) (use P in auto)
  have id: "ib_id (f r) = ib_id r" "inbox_key (f r) = inbox_key r"
    using f [OF t(2)] by (simp_all add: inbox_ident_def inbox_key_def)
  show inv': "inbox_inv (db_inbox d')"
    using db_invD(5) [OF inv] t(1) c id by (auto simp: inbox_inv_def d')
  have "inbox_row_evolves r (f r)"
    using P [OF t(2)] f [OF t(2)] by (simp add: inbox_row_evolves_def)
  then show ev: "inbox_evolves (db_inbox d) (db_inbox d')"
    unfolding inbox_evolves_def by (simp add: t(1) d' forward_replace)
  show "db_inv d'" using inv inv' by (simp add: db_inv_def d')
  show "core_frame pid d d'" using ev
    by (simp add: core_frame_def d' list_all2_refl attempts_evolve_rows)
  show "balance q d' = balance q d" by (simp add: balance_def d')
  show "\<exists>t. d' = d\<lparr>db_inbox := t\<rparr>" using d' by blast
qed

lemma complete_payment_Inr:
  assumes inv: "db_inv d" and c: "complete_payment env d claim status code = Inr (d', result)"
  shows "db_inv d'" and "core_frame pid d d'" and "balance q d' = balance q d"
    and "\<exists>t. d' = d\<lparr>db_inbox := t\<rparr>" and "inbox_inv (db_inbox d')" and "inbox_evolves (db_inbox d) (db_inbox d')"
    and "result = payment_result_of (cl_inbox claim) status code False"
proof -
  let ?f = "set_completed (if status \<ge> 400 then InboxRejected else InboxCompleted) status
      (pt_body (payment_result_of (cl_inbox claim) status code False)) (en_stmt_clock env)"
  have upd: "update_inbox (held_by claim) ?f d = Inr (d', Suc 0)"
    and "result = payment_result_of (cl_inbox claim) status code False"
    using c by (auto simp: complete_payment_def Let_def wrap_error_def split: if_splits)
  then show "result = payment_result_of (cl_inbox claim) status code False" by simp
  have P: "held_by claim r \<Longrightarrow> ib_id r = cl_inbox claim \<and> \<not> inbox_final (ib_status r)" for r
    by (simp add: held_by_def inbox_final_def)
  have f: "inbox_ident (?f r) = inbox_ident r \<and> ib_claim_generation r \<le> ib_claim_generation (?f r)" for r
    by (simp add: set_completed_def inbox_ident_def)
  note k = update_inbox_keeps [OF inv P f upd]
  show "db_inv d'" by (rule k(1))
  show "core_frame pid d d'" by (rule k(2))
  show "balance q d' = balance q d" by (rule k(3))
  show "\<exists>t. d' = d\<lparr>db_inbox := t\<rparr>" by (rule k(4))
  show "inbox_inv (db_inbox d')" by (rule k(5))
  show "inbox_evolves (db_inbox d) (db_inbox d')" by (rule k(6))
qed

lemma complete_in_tx_safe:
  assumes inv: "tx_inv st" and c: "complete_in_tx env claim status code st = Inr (st', r)"
  shows "op_safe st st'"
proof -
  obtain d result where d: "complete_payment env (tx_db st) claim status code = Inr (d, result)"
    and st': "st' = st\<lparr>tx_db := d\<rparr>" using c by (auto simp: complete_in_tx_def)
  have "db_inv (tx_db st)" using inv by (simp add: tx_inv_def)
  from complete_payment_Inr(1-3) [OF this d] show ?thesis by (simp add: op_safe_def st')
qed

lemma insert_outbox_once_keeps:
  assumes "insert_outbox_once row d = Inr d'"
  shows "\<exists>t. d' = d\<lparr>db_outbox := t\<rparr> \<and> outbox_extends (db_outbox d) t"
  using assms
  by (auto simp: insert_outbox_once_def insert_outbox_def sql_insert_Inr outbox_extends_insert
      split: if_splits intro: exI [of _ "db_outbox d"])

lemma outbox_append_tx_inv:
  assumes "tx_inv st" and "outbox_extends (db_outbox (tx_db st)) t"
  shows "tx_inv (st\<lparr>tx_draws := n, tx_db := (tx_db st)\<lparr>db_outbox := t\<rparr>\<rparr>)"
    and "op_safe st (st\<lparr>tx_draws := n, tx_db := (tx_db st)\<lparr>db_outbox := t\<rparr>\<rparr>)"
  using assms
  by (auto simp: tx_inv_def db_inv_def lock_product_def op_safe_def core_frame_def balance_def
      list_all2_refl attempts_evolve_rows)

lemma complete_with_compensation_safe:
  assumes inv: "tx_inv st" and c: "complete_with_compensation env claim a st = Inr (st', r)"
  shows "op_safe st st'"
proof -
  obtain t where st1: "complete_in_tx env claim 200 ''compensation_required''
      (st\<lparr>tx_draws := Suc (tx_draws st), tx_db := (tx_db st)\<lparr>db_outbox := t\<rparr>\<rparr>) = Inr (st', r)"
      and t: "outbox_extends (db_outbox (tx_db st)) t"
    using c by (auto simp: complete_with_compensation_def draw_uuid_def wrap_error_def Let_def
        dest!: insert_outbox_once_keeps)
  note o = outbox_append_tx_inv [OF inv t, where n = "Suc (tx_draws st)"]
  show ?thesis using complete_in_tx_safe [OF o(1) st1] o(2) op_safe_trans by blast
qed

section \<open>Purchase and failed checkout\<close>

lemma consume_inventory_Inr:
  assumes "distinct (map pr_id (db_products (tx_db st)))"
    and p: "db_products (tx_db st) = ppre @ p # ppost" "tx_product st = locked_of_row p" "product_ok p"
    and c: "consume_inventory st = Inr st'"
  shows "\<exists>p'. p' = p\<lparr>pr_stock := pr_stock p - 1, pr_reserved := pr_reserved p - 1, pr_updated_at := tx_now st\<rparr> \<and>
     product_ok p' \<and>
     st' = st\<lparr>tx_db := (tx_db st)\<lparr>db_products := ppre @ p' # ppost\<rparr>, tx_product := locked_of_row p'\<rparr>"
proof -
  let ?f = "\<lambda>r. r\<lparr>pr_stock := pr_stock r - 1, pr_reserved := pr_reserved r - 1, pr_updated_at := tx_now st\<rparr>"
  obtain d where upd: "update_products (\<lambda>r. pr_id r = pr_id p \<and> pr_stock r = pr_stock p \<and>
        pr_reserved r = pr_reserved p \<and> pr_stock r > 0 \<and> pr_reserved r > 0) ?f (tx_db st) = Inr (d, Suc 0)"
    and st': "st' = st\<lparr>tx_db := d, tx_product := (tx_product st)\<lparr>lp_stock := i32 (pr_stock p - 1),
                lp_reserved := i32 (pr_reserved p - 1)\<rparr>\<rparr>"
    using c p(2) by (auto simp: consume_inventory_def Let_def wrap_error_def)
  have next': "pr_next_sequence (?f p) \<le> max_int64" using p(3) by (simp add: product_ok_def)
  note u = update_products_at [OF assms(1) p(1) _ upd next']
  have "i32 (pr_stock p - 1) = pr_stock p - 1" "i32 (pr_reserved p - 1) = pr_reserved p - 1"
    using u(1) p(3) by (auto simp: product_ok_def min_int32_def intro!: i32_id)
  then show ?thesis using u(2,3) st' p(2) by (simp add: locked_of_row_def)
qed

lemma release_failed_payment_Inr:
  assumes "distinct (map pr_id (db_products (tx_db st)))"
    and p: "db_products (tx_db st) = ppre @ p # ppost" "tx_product st = locked_of_row p" "product_ok p"
    and c: "release_failed_payment st = Inr st'"
  shows "\<exists>p'. p' = p\<lparr>pr_reserved := pr_reserved p - 1, pr_updated_at := tx_now st\<rparr> \<and>
     product_ok p' \<and>
     st' = st\<lparr>tx_db := (tx_db st)\<lparr>db_products := ppre @ p' # ppost\<rparr>, tx_product := locked_of_row p'\<rparr>"
proof -
  let ?f = "\<lambda>r. r\<lparr>pr_reserved := pr_reserved r - 1, pr_updated_at := tx_now st\<rparr>"
  obtain d where upd: "update_products (\<lambda>r. pr_id r = pr_id p \<and> pr_reserved r = pr_reserved p \<and>
        pr_reserved r > 0) ?f (tx_db st) = Inr (d, Suc 0)"
    and st': "st' = st\<lparr>tx_db := d, tx_product := (tx_product st)\<lparr>lp_reserved := i32 (pr_reserved p - 1)\<rparr>\<rparr>"
    using c p(2) by (auto simp: release_failed_payment_def Let_def wrap_error_def)
  have next': "pr_next_sequence (?f p) \<le> max_int64" using p(3) by (simp add: product_ok_def)
  note u = update_products_at [OF assms(1) p(1) _ upd next']
  have "i32 (pr_reserved p - 1) = pr_reserved p - 1"
    using u(1) p(3) by (auto simp: product_ok_def min_int32_def intro!: i32_id)
  then show ?thesis using u(2,3) st' p(2) by (simp add: locked_of_row_def)
qed

text \<open>
  The common part: the attempt moves from checkout to a final state \<open>f a\<close>, the product row
  follows, and the in-memory attempt is replaced.
\<close>

lemma checkout_leaves:
  assumes inv: "tx_inv st" and a: "a \<in> set (tx_attempts st)" and s: "qa_state a = Checkout"
    and step: "attempt_step a (f a)" and f: "\<not> reserves_stock (qa_state (f a))"
    and upd: "update_attempts (guarded_row (qa_id a) Checkout (qa_version a)) f (tx_db st) = Inr (d, n)"
    and p: "db_products (tx_db st) = ppre @ p # ppost" "tx_product st = locked_of_row p"
    and p': "p' = p\<lparr>pr_stock := pr_stock p - (if qa_state (f a) = Purchased then 1 else 0),
               pr_reserved := pr_reserved p - 1, pr_updated_at := u\<rparr>" "product_ok p'"
    and st': "st' = st\<lparr>tx_db := d\<lparr>db_products := ppre @ p' # ppost\<rparr>, tx_product := locked_of_row p',
                tx_attempts := replace_by_id (f a) (tx_attempts st)\<rparr>"
  shows "tx_inv st' \<and> op_safe st st'"
proof -
  obtain pre post where mem: "tx_attempts st = pre @ a # post" using a by (auto simp: in_set_conv_decomp)
  note g = guarded_transition [OF inv mem s [symmetric] step upd]
  have ident: "qa_id (f a) = qa_id a" "qa_product (f a) = qa_product a"
    using attempt_step_ident [OF step] by (simp_all add: attempt_ident_def)
  have repl_mem: "replace_by_id (f a) (pre @ a # post) = pre @ f a # post"
    using replace_by_id_split [of pre a post] tx_inv_mem_ids [OF inv] mem ident by simp
  have "reserving (pre @ f a # post) = pr_reserved p - 1"
    using g(6) p(2) s f by (simp add: reserves_stock_def)
  then have p2: "p' = p\<lparr>pr_stock := pr_stock p - (if qa_state (f a) = Purchased then 1 else 0),
      pr_reserved := reserving (pre @ f a # post), pr_updated_at := u\<rparr>" using p'(1) by simp
  have "inbox_inv (db_inbox (tx_db st))" using inv by (simp add: tx_inv_def db_inv_def)
  then have "tx_inv st'" "core_frame (lp_id (tx_product st)) (tx_db st) (tx_db st')"
    by - (rule tx_step [OF inv mem step g(1) p(1,2) p2 p'(2)]; simp add: st' mem repl_mem g)+
  moreover have "balance q (tx_db st') = balance q (tx_db st)" for q
    by (rule tx_balance_step [OF inv p(1) _ _ g(1), where p' = p' and d' = "tx_db st'"])
       (use p p'(1) s ident g(4,8) in \<open>auto simp: st'\<close>)
  ultimately show ?thesis using p(2) p'(1) by (simp add: op_safe_def st' tx_inv_def)
qed

lemma purchase_attempt_Inr:
  assumes inv: "tx_inv st" and a: "a \<in> set (tx_attempts st)" and s: "qa_state a = Checkout"
    and buy: "purchase_attempt st cmd a = Inr st'"
  shows "tx_inv st' \<and> op_safe st st' \<and> lp_stock (tx_product st') = lp_stock (tx_product st) - 1 \<and>
     set_purchased (pc_provider cmd) (pc_reference cmd) (tx_now st) a \<in> set (db_attempts (tx_db st'))"
proof -
  let ?f = "set_purchased (pc_provider cmd) (pc_reference cmd) (tx_now st)"
  obtain d st1 where upd: "update_attempts (guarded_row (qa_id a) Checkout (qa_version a)) ?f (tx_db st) = Inr (d, 1)"
    and c: "consume_inventory (st\<lparr>tx_db := d\<rparr>) = Inr st1"
    and st': "st' = st1\<lparr>tx_attempts := replace_by_id (?f a) (tx_attempts st1)\<rparr>"
    using buy by (auto simp: purchase_attempt_def Let_def)
  have step: "attempt_step a (?f a)" by (rule attempt_step.purchase [OF s])
  obtain pre post where mem: "tx_attempts st = pre @ a # post" using a by (auto simp: in_set_conv_decomp)
  note g = guarded_transition [OF inv mem s [symmetric] step upd]
  obtain ppre p ppost where p: "db_products (tx_db st) = ppre @ p # ppost" "tx_product st = locked_of_row p"
    "product_ok p" using tx_inv_row [OF inv] by metis
  have "distinct (map pr_id (db_products (tx_db st)))" using inv by (simp add: tx_inv_def db_inv_def)
  with consume_inventory_Inr [OF _ _ _ p(3) c, of ppre ppost] p(1,2) g(2)
  obtain p' where p': "p' = p\<lparr>pr_stock := pr_stock p - 1, pr_reserved := pr_reserved p - 1, pr_updated_at := tx_now st\<rparr>"
      "product_ok p'" and st1: "st1 = st\<lparr>tx_db := d\<lparr>db_products := ppre @ p' # ppost\<rparr>, tx_product := locked_of_row p'\<rparr>"
    by auto
  have "tx_inv st' \<and> op_safe st st'"
    by (rule checkout_leaves [OF inv a s step _ upd p(1,2) _ p'(2)])
       (use p' st1 in \<open>simp_all add: st' set_purchased_def set_terminal_def reserves_stock_def\<close>)
  then show ?thesis using p(2) p'(1) g(1) by (auto simp: st' st1 attempt_replaced_def)
qed

lemma fail_attempt_Inr:
  assumes inv: "tx_inv st" and a: "a \<in> set (tx_attempts st)" and s: "qa_state a = Checkout"
    and fail: "fail_attempt st a = Inr st'"
  shows "tx_inv st' \<and> op_safe st st'"
proof -
  let ?f = "set_terminal PaymentFailedState ''payment_failed'' (tx_now st)"
  obtain d st1 where upd: "update_attempts (guarded_row (qa_id a) Checkout (qa_version a)) ?f (tx_db st) = Inr (d, 1)"
    and c: "release_failed_payment (st\<lparr>tx_db := d\<rparr>) = Inr st1"
    and st': "st' = st1\<lparr>tx_attempts := replace_by_id (?f a) (tx_attempts st1)\<rparr>"
    using fail by (auto simp: fail_attempt_def Let_def wrap_error_def)
  have step: "attempt_step a (?f a)" by (rule attempt_step.fail_payment [OF s])
  obtain pre post where mem: "tx_attempts st = pre @ a # post" using a by (auto simp: in_set_conv_decomp)
  note g = guarded_transition [OF inv mem s [symmetric] step upd]
  obtain ppre p ppost where p: "db_products (tx_db st) = ppre @ p # ppost" "tx_product st = locked_of_row p"
    "product_ok p" using tx_inv_row [OF inv] by metis
  have "distinct (map pr_id (db_products (tx_db st)))" using inv by (simp add: tx_inv_def db_inv_def)
  with release_failed_payment_Inr [OF _ _ _ p(3) c, of ppre ppost] p(1,2) g(2)
  obtain p' where p': "p' = p\<lparr>pr_reserved := pr_reserved p - 1, pr_updated_at := tx_now st\<rparr>"
      "product_ok p'" and st1: "st1 = st\<lparr>tx_db := d\<lparr>db_products := ppre @ p' # ppost\<rparr>, tx_product := locked_of_row p'\<rparr>"
    by auto
  show ?thesis
    by (rule checkout_leaves [OF inv a s step _ upd p(1,2) _ p'(2)])
       (use p' st1 in \<open>simp_all add: st' set_terminal_def reserves_stock_def\<close>)
qed

section \<open>Claimed payments\<close>

lemma apply_succeeded_payment_safe:
  assumes inv: "tx_inv st" and a: "a \<in> set (tx_attempts st)"
    and body: "apply_succeeded_payment rp env claim a st = Inr (st', r)"
  shows "op_safe st st'"
proof -
  consider (finished) code where "complete_in_tx env claim 200 code st = Inr (st', r)"
    | (compensate) "complete_with_compensation env claim a st = Inr (st', r)"
    | (buy) st1 st2 where "qa_state a = Checkout" "purchase_attempt st (cl_command claim) a = Inr st1"
        "reconcile_locked_product rp env st1 = Inr st2" "complete_in_tx env claim 200 ''accepted'' st2 = Inr (st', r)"
    using body by (auto simp: apply_succeeded_payment_def Let_def split: if_splits option.splits)
  then show ?thesis
  proof cases
    case finished
    then show ?thesis by (rule complete_in_tx_safe [OF inv])
  next
    case compensate
    then show ?thesis by (rule complete_with_compensation_safe [OF inv])
  next
    case buy
    note P = purchase_attempt_Inr [OF inv a buy(1,2)]
    then have R: "tx_inv st2 \<and> op_safe st1 st2" using reconcile_safe [OF _ buy(3)] by blast
    then have "op_safe st2 st'" using complete_in_tx_safe [OF _ buy(4)] by blast
    then show ?thesis using P R op_safe_trans by blast
  qed
qed

lemma apply_failed_payment_safe:
  assumes inv: "tx_inv st" and a: "a \<in> set (tx_attempts st)"
    and body: "apply_failed_payment rp env claim a st = Inr (st', r)"
  shows "op_safe st st'"
proof -
  consider (finished) status code where "complete_in_tx env claim status code st = Inr (st', r)"
    | (fail) st1 st2 where "qa_state a = Checkout" "fail_attempt st a = Inr st1"
        "reconcile_locked_product rp env st1 = Inr st2" "complete_in_tx env claim 200 ''accepted'' st2 = Inr (st', r)"
    using body by (auto simp: apply_failed_payment_def split: attempt_state.splits if_splits)
  then show ?thesis
  proof cases
    case finished
    then show ?thesis by (rule complete_in_tx_safe [OF inv])
  next
    case fail
    note P = fail_attempt_Inr [OF inv a fail(1,2)]
    then have R: "tx_inv st2 \<and> op_safe st1 st2" using reconcile_safe [OF _ fail(3)] by blast
    then have "op_safe st2 st'" using complete_in_tx_safe [OF _ fail(4)] by blast
    then show ?thesis using P R op_safe_trans by blast
  qed
qed

lemma process_claim_body_parts:
  assumes body: "process_claim_body rp env claim force st = Inr (st', r)"
  obtains st1 a where "lock_and_validate_payment_claim (en_ext env) (tx_db st) claim = Inr ()"
    and "reconcile_locked_product rp env st = Inr st1"
    and "a \<in> set (tx_attempts st1)" and "qa_id a = pc_attempt (cl_command claim)"
    and "(if force then complete_with_compensation env claim a st1
       else if pc_outcome (cl_command claim) = PaymentSucceeded
       then apply_succeeded_payment rp env claim a st1
       else apply_failed_payment rp env claim a st1) = Inr (st', r)"
proof -
  obtain st1 where v: "lock_and_validate_payment_claim (en_ext env) (tx_db st) claim = Inr ()"
    and rec: "reconcile_locked_product rp env st = Inr st1"
    using body by (auto simp: process_claim_body_def)
  show thesis
  proof (cases "find_attempt_by_id (tx_attempts st1) (pc_attempt (cl_command claim))")
    case None
    then show ?thesis using body v rec by (simp add: process_claim_body_def)
  next
    case (Some a)
    then have "qa_product a = lp_id (tx_product st)"
      using body v rec by (simp add: process_claim_body_def split: if_splits)
    then have "(if force then complete_with_compensation env claim a st1
       else if pc_outcome (cl_command claim) = PaymentSucceeded
       then apply_succeeded_payment rp env claim a st1
       else apply_failed_payment rp env claim a st1) = Inr (st', r)"
      using body v rec Some by (simp add: process_claim_body_def)
    with find_attempt_by_id_Some [OF Some] show ?thesis by (intro that [OF v rec, of a]) simp_all
  qed
qed

lemma process_claim_body_safe:
  assumes inv: "tx_inv st" and body: "process_claim_body rp env claim force st = Inr (st', r)"
  shows "op_safe st st'"
proof -
  obtain st1 a where rec: "reconcile_locked_product rp env st = Inr st1"
    and a: "a \<in> set (tx_attempts st1)"
    and rest: "(if force then complete_with_compensation env claim a st1
       else if pc_outcome (cl_command claim) = PaymentSucceeded
       then apply_succeeded_payment rp env claim a st1
       else apply_failed_payment rp env claim a st1) = Inr (st', r)"
    using process_claim_body_parts [OF body] by metis
  note R = reconcile_safe [OF inv rec]
  have "op_safe st1 st'"
    using rest R apply_succeeded_payment_safe [OF _ a] apply_failed_payment_safe [OF _ a]
      complete_with_compensation_safe by (auto split: if_splits)
  then show ?thesis using R op_safe_trans by blast
qed

interpretation payment_op: conserving_operation pid "process_claim_body rp env claim force"
  for pid rp env claim force
  by (rule conserving_operationI) (rule process_claim_body_safe)

section \<open>Whole calls\<close>

text \<open>
  What every call of the repository guarantees about the database, whatever it returns: the
  invariant, the same products, conservation of stock, and forward-only tables.
\<close>

definition sound_step :: "db \<Rightarrow> db \<Rightarrow> bool" where
  "sound_step d d' \<longleftrightarrow> db_inv d' \<and> map pr_id (db_products d') = map pr_id (db_products d) \<and>
     (\<forall>q. balance q d' = balance q d) \<and>
     table_evolves (db_attempts d) (db_attempts d') \<and> inbox_evolves (db_inbox d) (db_inbox d') \<and>
     outbox_evolves (db_outbox d) (db_outbox d')"

lemma sound_step_refl: "db_inv d \<Longrightarrow> sound_step d d"
  by (simp add: sound_step_def)

lemma sound_step_trans [trans]: "sound_step d d' \<Longrightarrow> sound_step d' d'' \<Longrightarrow> sound_step d d''"
  unfolding sound_step_def
  using table_evolves_trans inbox_evolves_trans outbox_evolves_trans by metis

lemma core_frame_products:
  assumes "core_frame pid d d'"
  shows "map pr_id (db_products d') = map pr_id (db_products d)"
proof -
  have "list_all2 (product_evolves pid) (db_products d) (db_products d')" using assms by (simp add: core_frame_def)
  then show ?thesis by (induction rule: list_all2_induct) (auto simp: product_evolves_def)
qed

lemma core_frame_sound:
  "db_inv d' \<Longrightarrow> core_frame pid d d' \<Longrightarrow> (\<And>q. balance q d' = balance q d) \<Longrightarrow> sound_step d d'"
  by (frule core_frame_products)
     (auto simp: sound_step_def core_frame_def intro: attempts_evolve_table outbox_extends_evolves)

context conserving_operation
begin

lemma call_sound: "db_inv d \<Longrightarrow> sound_step d (fst (finish d (with_locked_product env d pid scope operation)))"
  by (rule core_frame_sound [OF call call_balance])

lemma commit_sound:
  "db_inv d \<Longrightarrow> with_locked_product env d pid scope operation = Inr (d', r) \<Longrightarrow> sound_step d d'"
  using call_sound [of d env scope] by (simp add: finish_def)

end

lemma insert_inbox_once_keeps:
  assumes inv: "db_inv d" and ins: "insert_inbox_once row d = Inr d'"
  shows "sound_step d d'"
proof -
  have "d' = d \<or> d' = d\<lparr>db_inbox := db_inbox d @ [row]\<rparr> \<and> inbox_violation row (db_inbox d) = None"
    using ins by (auto simp: insert_inbox_once_def sql_insert_Inr split: if_splits)
  then show ?thesis
  proof
    assume new: "d' = d\<lparr>db_inbox := db_inbox d @ [row]\<rparr> \<and> inbox_violation row (db_inbox d) = None"
    then have v: "inbox_checks row" "ib_id row \<notin> ib_id ` set (db_inbox d)" "inbox_key row \<notin> inbox_key ` set (db_inbox d)"
      by (auto simp: inbox_violation_def list_ex_iff inbox_key_def image_iff split: if_splits)
    then have "inbox_inv (db_inbox d')" using db_invD(5) [OF inv] new by (auto simp: inbox_inv_def)
    moreover have "inbox_evolves (db_inbox d) (db_inbox d')"
      unfolding inbox_evolves_def using new by (simp add: forward_append)
    ultimately show ?thesis using inv new by (auto simp: sound_step_def db_inv_def balance_def)
  qed (use sound_step_refl [OF inv] in simp)
qed

lemma claim_payment_tx_sound:
  assumes inv: "db_inv d" and c: "claim_payment_tx env d cmd digest = Inr (d', r)"
  shows "sound_step d d'"
proof -
  obtain d1 stored where ins: "insert_inbox_once (new_inbox_row (en_uuid env 0) cmd
        (canonical_payment_payload (en_ext env) cmd) digest (en_stmt_clock env)) d = Inr d1"
    and st: "lock_stored_payment d1 (pc_provider cmd) (pc_event_id cmd) = Inr stored"
    using c by (auto simp: claim_payment_tx_def Let_def)
  have s1: "sound_step d d1" by (rule insert_inbox_once_keeps [OF inv ins])
  show ?thesis
  proof (cases "answer_without_claim (en_clock env) digest stored")
    case (Some x)
    then show ?thesis using c ins st s1 by (simp add: claim_payment_tx_def Let_def)
  next
    case None
    let ?f = "set_claimed (en_uuid env 1) (i64 (ib_claim_generation stored + 1)) (en_clock env)"
    have upd: "update_inbox (\<lambda>r. ib_id r = ib_id stored \<and> ib_payload_hash r = digest) ?f d1 = Inr (d', Suc 0)"
      using c ins st None by (auto simp: claim_payment_tx_def Let_def)
    have inv1: "db_inv d1" using s1 by (simp add: sound_step_def)
    obtain pre r post where t: "db_inbox d1 = pre @ r # post" "ib_id r = ib_id stored"
      and d': "d' = d1\<lparr>db_inbox := pre @ ?f r # post\<rparr>" and ch: "inbox_checks (?f r)"
      by (rule update_inbox_one [OF db_invD(5) [OF inv1] _ upd]) auto
    have "stored \<in> set (db_inbox d1)"
      using st by (auto simp: lock_stored_payment_def split: option.splits dest: find_in_set)
    then have r: "r = stored" using t db_invD(5) [OF inv1]
      by (auto simp: inbox_inv_def distinct_map inj_on_def)
    have "\<not> inbox_final (ib_status stored)"
      using None by (auto simp: answer_without_claim_def inbox_final_def split: if_splits)
    moreover have "0 \<le> i64 (ib_claim_generation stored + 1)"
      using ch by (simp add: inbox_checks_def set_claimed_def)
    moreover have "0 \<le> ib_claim_generation stored" "ib_claim_generation stored \<le> max_int64"
      using \<open>stored \<in> set (db_inbox d1)\<close> db_invD(5) [OF inv1] by (auto simp: inbox_inv_def inbox_checks_def)
    ultimately have "\<not> inbox_final (ib_status r)"
      and "i64 (ib_claim_generation stored + 1) = ib_claim_generation stored + 1"
      using i64_next by (simp_all add: r)
    then have ev: "inbox_row_evolves r (?f r)"
      by (simp add: r inbox_row_evolves_def set_claimed_def inbox_ident_def)
    then have "inbox_evolves (db_inbox d1) (db_inbox d')"
      unfolding inbox_evolves_def by (simp add: t(1) d' forward_replace)
    moreover have "inbox_inv (db_inbox d')"
      using db_invD(5) [OF inv1] t(1) ch by (auto simp: inbox_inv_def d' set_claimed_def inbox_key_def)
    ultimately have "sound_step d1 d'"
      using inv1 by (auto simp: sound_step_def db_inv_def balance_def d')
    then show ?thesis using s1 sound_step_trans by blast
  qed
qed

lemma finish_sound:
  assumes "db_inv d" and "\<And>d' r. m = Inr (d', r) \<Longrightarrow> sound_step d d'"
  shows "sound_step d (fst (finish d m))"
  using assms sound_step_refl by (auto simp: finish_def split: sum.split)

lemma claim_payment_sound: "db_inv d \<Longrightarrow> sound_step d (fst (claim_payment env d cmd))"
  unfolding claim_payment_def by (rule finish_sound) (auto dest: claim_payment_tx_sound)

lemma finalize_payment_sound:
  "db_inv d \<Longrightarrow> finalize_payment_without_product env d claim status code = Inr (d', r) \<Longrightarrow> sound_step d d'"
  unfolding finalize_payment_without_product_def
  by (auto intro: core_frame_sound complete_payment_Inr(1-3))

lemma process_payment_claim_sound:
  assumes inv: "db_inv d"
  shows "sound_step d (fst (process_payment_claim rp env env' d claim))"
  unfolding process_payment_claim_def
proof (rule finish_sound [OF inv])
  fix d' r
  assume m: "bindE (validate_payment_claim (en_ext env) claim) (\<lambda>valid.
      case find_attempt_product d (pc_attempt (cl_command valid)) of
        Inl e \<Rightarrow> if errors_is e ErrAttemptNotFound
                 then finalize_payment_without_product env d valid 404 ''attempt_not_found'' else Inl e
      | Inr pid \<Rightarrow>
          (case process_claim_for_product rp env d pid valid False of
             Inl e \<Rightarrow> if is_accepted_payment_reference_conflict e
                      then process_claim_for_product rp env' d pid valid True else Inl e
           | Inr done \<Rightarrow> Inr done)) = Inr (d', r)"
  then obtain valid where m': "(case find_attempt_product d (pc_attempt (cl_command valid)) of
        Inl e \<Rightarrow> if errors_is e ErrAttemptNotFound
                 then finalize_payment_without_product env d valid 404 ''attempt_not_found'' else Inl e
      | Inr pid \<Rightarrow>
          (case process_claim_for_product rp env d pid valid False of
             Inl e \<Rightarrow> if is_accepted_payment_reference_conflict e
                      then process_claim_for_product rp env' d pid valid True else Inl e
           | Inr done \<Rightarrow> Inr done)) = Inr (d', r)" by auto
  have "(\<exists>status code. finalize_payment_without_product env d valid status code = Inr (d', r)) \<or>
      (\<exists>env'' pid force. process_claim_for_product rp env'' d pid valid force = Inr (d', r))"
  proof (cases "find_attempt_product d (pc_attempt (cl_command valid))")
    case (Inl e)
    then show ?thesis using m' by (auto split: if_splits)
  next
    case (Inr pid)
    then show ?thesis using m'
      by (cases "process_claim_for_product rp env d pid valid False") (auto split: if_splits)
  qed
  then show "sound_step d d'"
    using finalize_payment_sound [OF inv] payment_op.commit_sound [OF inv]
    unfolding process_claim_for_product_def by blast
qed

lemma retry_payment_claim_sound:
  assumes inv: "db_inv d"
  shows "sound_step d (fst (retry_payment_claim env d claim e))"
proof (cases "update_inbox (held_by claim) (set_retry e (en_stmt_clock env)) d")
  case (Inl x)
  then show ?thesis using sound_step_refl [OF inv] by (simp add: retry_payment_claim_def)
next
  case (Inr dn)
  obtain d' n where dn: "dn = (d', n)" by (cases dn)
  let ?f = "set_retry e (en_stmt_clock env)"
  have P: "held_by claim r \<Longrightarrow> ib_id r = cl_inbox claim \<and> \<not> inbox_final (ib_status r)" for r
    by (simp add: held_by_def inbox_final_def)
  have upd: "update_inbox (held_by claim) ?f d = Inr (d', n)" using Inr dn by simp
  have "d' = d \<or> n = Suc 0"
    using update_inbox_cases [OF db_invD(5) [OF inv] _ upd] P by blast
  then show ?thesis
  proof
    assume "d' = d"
    then show ?thesis using sound_step_refl [OF inv] Inr dn by (simp add: retry_payment_claim_def)
  next
    assume "n = Suc 0"
    then have upd1: "update_inbox (held_by claim) ?f d = Inr (d', Suc 0)" using upd by simp
    have f: "inbox_ident (?f r) = inbox_ident r \<and> ib_claim_generation r \<le> ib_claim_generation (?f r)" for r
      by (simp add: set_retry_def inbox_ident_def)
    have "sound_step d d'" by (rule core_frame_sound [OF update_inbox_keeps(1-3) [OF inv P f upd1]])
    then show ?thesis using Inr dn by (simp add: retry_payment_claim_def)
  qed
qed

lemma process_payment_sound:
  assumes inv: "db_inv d"
  shows "sound_step d (fst (process_payment rp envs d cmd))"
proof -
  obtain d1 r1 e1 where c: "claim_payment (pe_claim envs) d cmd = (d1, r1, e1)" by (metis prod_cases3)
  have s1: "sound_step d d1" using claim_payment_sound [OF inv] c by (metis fst_conv)
  then have inv1: "db_inv d1" by (simp add: sound_step_def)
  have step2: "sound_step d d2" if "process_payment_claim rp (pe_apply envs) (pe_compensate envs) d1 claim = (d2, x)"
    for claim d2 x
    using process_payment_claim_sound [OF inv1] that s1 sound_step_trans by (metis fst_conv)
  have step3: "sound_step d d3" if "process_payment_claim rp (pe_apply envs) (pe_compensate envs) d1 claim = (d2, x)"
      "retry_payment_claim (pe_retry envs) d2 claim e = (d3, y)" for claim d2 x d3 e y
  proof -
    have "db_inv d2" using step2 [OF that(1)] by (simp add: sound_step_def)
    then have "sound_step d2 d3" using retry_payment_claim_sound that(2) by (metis fst_conv)
    then show ?thesis using step2 [OF that(1)] sound_step_trans by blast
  qed
  show ?thesis using s1 step2 step3
    by (auto simp: process_payment_def c split: option.split payment_claim_result.split prod.split)
qed

end
