(* ===== verification/Outbox.thy ===== *)
theory Outbox
  imports Payment_Safety
begin

text \<open>
  The notification outbox (\<open>internal/repository/postgres/notification_outbox.go\<close>): claiming the
  next due notification under a lease, classifying invitations that are no longer current,
  finalizing, and retrying with exponential backoff. The lemmas give the backoff's closed form
  and bounds and show that every call is a \<open>sound_step\<close>.
\<close>

section \<open>Claims\<close>

record notification_claim =
  nc_id :: uuid
  nc_attempt :: "attempt_id option"
  nc_event_type :: string
  nc_dedup_key :: string
  nc_payload :: outbox_payload
  nc_payload_hash :: bytes
  nc_attempt_count :: int
  nc_token :: uuid
  nc_generation :: int
  nc_lease_until :: time

definition notification_due :: "time \<Rightarrow> outbox_row \<Rightarrow> bool" where
  "notification_due now r \<longleftrightarrow>
     ((ob_status r = OutboxPending \<or> ob_status r = OutboxFailed) \<and> ob_available_at r \<le> now) \<or>
     (ob_status r = OutboxProcessing \<and> (case ob_lease_until r of None \<Rightarrow> False | Some t \<Rightarrow> t \<le> now))"

definition due_order :: "outbox_row \<Rightarrow> time \<times> time \<times> uuid" where
  "due_order r = (ob_available_at r, ob_created_at r, ob_id r)"

definition notification_candidate :: "env \<Rightarrow> time \<Rightarrow> db \<Rightarrow> outbox_row option" where
  "notification_candidate env now d =
     (case filter (\<lambda>r. \<not> en_row_locked env (ob_id r))
             (sort_key due_order (filter (notification_due now) (db_outbox d))) of
        [] \<Rightarrow> None | r # _ \<Rightarrow> Some r)"

definition set_leased :: "uuid \<Rightarrow> time \<Rightarrow> time \<Rightarrow> outbox_row \<Rightarrow> outbox_row" where
  "set_leased token until now r = r\<lparr>ob_status := OutboxProcessing, ob_lease_token := Some token,
     ob_lease_generation := ob_lease_generation r + 1, ob_lease_until := Some until,
     ob_attempt_count := ob_attempt_count r + 1, ob_updated_at := now, ob_last_error := None\<rparr>"

definition notification_claim_of :: "uuid \<Rightarrow> time \<Rightarrow> outbox_row \<Rightarrow> notification_claim" where
  "notification_claim_of token until r =
     \<lparr>nc_id = ob_id r, nc_attempt = ob_attempt r, nc_event_type = ob_event_type r,
      nc_dedup_key = ob_dedup_key r, nc_payload = ob_payload r, nc_payload_hash = ob_payload_hash r,
      nc_attempt_count = ob_attempt_count r, nc_token = token,
      nc_generation = ob_lease_generation r, nc_lease_until = until\<rparr>"

text \<open>
  \<open>None\<close> without an error is the nil claim of an empty outbox. A stored hash that is not 32
  bytes long fails the scan, before the commit.
\<close>

definition claim_notification ::
  "env \<Rightarrow> db \<Rightarrow> time \<Rightarrow> db \<times> notification_claim option \<times> go_error option" where
  "claim_notification env d lease =
     (if lease \<le> 0 then (d, None, Some (Wrapped [Sentinel ErrInvalidInput]))
      else let now = en_clock env; token = en_uuid env 0; until = now + lease in
      case notification_candidate env now d of
        None \<Rightarrow> (d, None, None)
      | Some c \<Rightarrow>
          (case update_outbox (\<lambda>r. ob_id r = ob_id c) (set_leased token until now) d of
             Inl e \<Rightarrow> (d, None, Some e)
           | Inr (d', n) \<Rightarrow>
               if length (ob_payload_hash c) \<noteq> 32
               then (d, None, Some (Wrapped [Sentinel ErrInternal]))
               else (d', Some (notification_claim_of token until (set_leased token until now c)), None)))"

section \<open>ClassifyInvitation\<close>

text \<open>
  Go's zero \<open>time.Time\<close> (1 January of year 1, UTC) in microseconds of the Unix epoch, and the
  \<open>invitation_deadline\<close> member of a payload: a compensation payload has none, which leaves the
  zero time.
\<close>

definition zero_time :: time where "zero_time = - 62135596800000000"

fun payload_deadline :: "outbox_payload \<Rightarrow> time" where
  "payload_deadline (InvitationPayload aid pid t) = t"
| "payload_deadline (CompensationPayload iid provider event aid reference) = zero_time"

definition classify_invitation :: "env \<Rightarrow> db \<Rightarrow> notification_claim \<Rightarrow> bool" where
  "classify_invitation env d claim =
     (if nc_event_type claim \<noteq> invitation_event_type then False
      else case nc_attempt claim of
        None \<Rightarrow> True
      | Some aid \<Rightarrow>
          let deadline = payload_deadline (nc_payload claim) in
          if deadline = zero_time then True
          else \<not> list_ex (\<lambda>a. qa_id a = aid \<and> qa_state a = Invited \<and>
                    qa_invitation_deadline a = Some deadline \<and> en_stmt_clock env < deadline)
                  (db_attempts d))"

section \<open>Finalization and retry\<close>

definition leased_by :: "notification_claim \<Rightarrow> outbox_row \<Rightarrow> bool" where
  "leased_by claim r \<longleftrightarrow> ob_id r = nc_id claim \<and> ob_status r = OutboxProcessing \<and>
     ob_lease_token r = Some (nc_token claim) \<and> ob_lease_generation r = nc_generation claim \<and>
     ob_payload_hash r = nc_payload_hash claim"

definition stale_unless_one_row :: "nat \<Rightarrow> go_error option" where
  "stale_unless_one_row n =
     (if n = 0 then Some (Sentinel ErrStaleClaim)
      else if n \<noteq> 1 then Some (Wrapped [Sentinel ErrInternal]) else None)"

definition set_sent :: "string option \<Rightarrow> time \<Rightarrow> outbox_row \<Rightarrow> outbox_row" where
  "set_sent reason clock r = r\<lparr>ob_status := OutboxSent, ob_sent_at := Some clock,
     ob_updated_at := clock, ob_lease_until := None, ob_lease_token := None, ob_last_error := reason\<rparr>"

definition finalize_notification ::
  "env \<Rightarrow> db \<Rightarrow> notification_claim \<Rightarrow> string option \<Rightarrow> db \<times> go_error option" where
  "finalize_notification env d claim reason =
     (case update_outbox (leased_by claim) (set_sent reason (en_stmt_clock env)) d of
        Inl e \<Rightarrow> (d, Some (Wrapped [e]))
      | Inr (d', n) \<Rightarrow> (d', stale_unless_one_row n))"

definition mark_notification_sent :: "env \<Rightarrow> db \<Rightarrow> notification_claim \<Rightarrow> db \<times> go_error option" where
  "mark_notification_sent env d claim = finalize_notification env d claim None"

definition mark_notification_obsolete :: "env \<Rightarrow> db \<Rightarrow> notification_claim \<Rightarrow> db \<times> go_error option" where
  "mark_notification_obsolete env d claim = finalize_notification env d claim (Some ''obsolete'')"

definition max_outbox_error_length :: nat where "max_outbox_error_length = 500"

text \<open>\<open>time.Duration\<close> is an \<open>int64\<close>; the shift and the product wrap.\<close>

definition exponential_backoff :: "int \<Rightarrow> int \<Rightarrow> int \<Rightarrow> int" where
  "exponential_backoff attempt_count base_backoff max_backoff =
     (if attempt_count \<le> 1 then base_backoff
      else let exponent = attempt_count - 1 in
        if exponent \<ge> 63 \<or> base_backoff > max_backoff div i64 (2 ^ nat (min exponent 62))
        then max_backoff
        else min (i64 (base_backoff * i64 (2 ^ nat exponent))) max_backoff)"

definition set_failed :: "string \<Rightarrow> time \<Rightarrow> time \<Rightarrow> outbox_row \<Rightarrow> outbox_row" where
  "set_failed message backoff clock r = r\<lparr>ob_status := OutboxFailed, ob_available_at := clock + backoff,
     ob_updated_at := clock, ob_lease_until := None, ob_lease_token := None,
     ob_last_error := Some message\<rparr>"

text \<open>The message of the publication error is given; the backoff is the first component.\<close>

definition retry_notification ::
  "env \<Rightarrow> db \<Rightarrow> notification_claim \<Rightarrow> string \<Rightarrow> int \<Rightarrow> int \<Rightarrow> db \<times> int \<times> go_error option" where
  "retry_notification env d claim message base_backoff max_backoff =
     (if base_backoff \<le> 0 \<or> max_backoff < base_backoff
      then (d, 0, Some (Wrapped [Sentinel ErrInvalidInput]))
      else let backoff = exponential_backoff (nc_attempt_count claim) base_backoff max_backoff;
               bounded = (if length message > max_outbox_error_length
                          then take max_outbox_error_length message else message)
      in case update_outbox (leased_by claim) (set_failed bounded backoff (en_stmt_clock env)) d of
        Inl e \<Rightarrow> (d, 0, Some (Wrapped [e]))
      | Inr (d', n) \<Rightarrow>
          (case stale_unless_one_row n of
             Some e \<Rightarrow> (d', 0, Some e) | None \<Rightarrow> (d', backoff, None)))"

section \<open>The backoff\<close>

text \<open>The integer arithmetic never overflows: the result is the capped exponential.\<close>

lemma exponential_backoff_closed:
  assumes base: "0 < b" and cap: "b \<le> m" "m \<le> max_int64"
  shows "exponential_backoff n b m = min (b * 2 ^ nat (n - 1)) m"
proof (cases "n \<le> 1")
  case True
  then show ?thesis using cap by (simp add: exponential_backoff_def)
next
  case n: False
  define k where "k = nat (n - 1)"
  have nk: "n - 1 = int k" "k \<noteq> 0" using n by (simp_all add: k_def)
  show ?thesis
  proof (cases "k \<ge> 63")
    case True
    have "m < 2 ^ 63" using cap(2) by (simp add: max_int64_def)
    also have "(2::int) ^ 63 \<le> 2 ^ k" using True by (intro power_increasing) simp_all
    also have "\<dots> \<le> b * 2 ^ k" using base by simp
    finally show ?thesis using n True nk
      by (simp add: exponential_backoff_def Let_def k_def [symmetric] min_def)
  next
    case False
    then have k62: "k \<le> 62" by simp
    have "(2::int) ^ k \<le> 2 ^ 62" using k62 by (intro power_increasing) simp_all
    then have shift: "i64 (2 ^ k) = 2 ^ k" by (intro i64_id) (auto simp: max_int64_def intro: order_trans [of _ 0])
    have exp: "nat (min (n - 1) 62) = k" "nat (n - 1) = k" "\<not> n - 1 \<ge> 63"
      using nk k62 by auto
    show ?thesis
    proof (cases "b > m div 2 ^ k")
      case True
      have "m < b * 2 ^ k"
      proof (rule ccontr)
        assume "\<not> m < b * 2 ^ k"
        then have "b * 2 ^ k div 2 ^ k \<le> m div 2 ^ k" by (intro zdiv_mono1) simp_all
        then show False using True by simp
      qed
      then show ?thesis using True n exp shift
        by (simp add: exponential_backoff_def Let_def min_def)
    next
      case fits: False
      have "b * 2 ^ k \<le> m div 2 ^ k * 2 ^ k" using fits by simp
      also have "m div 2 ^ k * 2 ^ k = m - m mod 2 ^ k" by (rule minus_mod_eq_div_mult [symmetric])
      also have "\<dots> \<le> m" by simp
      finally have le: "b * 2 ^ k \<le> m" .
      then have "i64 (b * 2 ^ k) = b * 2 ^ k"
        using base cap(2) by (intro i64_id) (auto intro: order_trans [of _ 0])
      then show ?thesis using fits n exp shift le
        by (simp add: exponential_backoff_def Let_def min_def)
    qed
  qed
qed

section \<open>Every call is a sound step\<close>

lemma update_outbox_cases:
  assumes "distinct (map ob_id (db_outbox d))" and "\<And>r. P r \<Longrightarrow> ob_id r = oid"
    and "update_outbox P f d = Inr (d', n)"
  shows "n = 0 \<and> d' = d \<or> n = Suc 0 \<and> (\<exists>pre r post. db_outbox d = pre @ r # post \<and> P r \<and>
     d' = d\<lparr>db_outbox := pre @ f r # post\<rparr> \<and> outbox_violation (f r) (pre @ post) = None)"
proof -
  obtain t where t: "sql_update outbox_violation P f (db_outbox d) = Inr (t, n)"
    "d' = d\<lparr>db_outbox := t\<rparr>" using assms(3) by (auto simp: update_outbox_def)
  from sql_update_key [OF assms(1,2) t(1)] show ?thesis using t(2) by auto
qed

lemma update_outbox_evolves:
  assumes inv: "outbox_inv (db_outbox d)" and P: "\<And>r. P r \<Longrightarrow> ob_id r = oid"
    and f: "\<And>r. r \<in> set (db_outbox d) \<Longrightarrow> P r \<Longrightarrow> outbox_row_evolves r (f r)"
    and upd: "update_outbox P f d = Inr (d', n)"
  shows "\<exists>t. d' = d\<lparr>db_outbox := t\<rparr> \<and> outbox_evolves (db_outbox d) t"
proof -
  have dist: "distinct (map ob_id (db_outbox d))" using inv by (simp add: outbox_inv_def)
  have "d' = d \<or> (\<exists>pre r post. db_outbox d = pre @ r # post \<and> P r \<and>
     d' = d\<lparr>db_outbox := pre @ f r # post\<rparr> \<and> outbox_violation (f r) (pre @ post) = None)"
    using update_outbox_cases [OF dist P upd] by blast
  then show ?thesis
  proof (elim disjE exE conjE)
    fix pre r post
    assume t: "db_outbox d = pre @ r # post" and r: "P r" and d': "d' = d\<lparr>db_outbox := pre @ f r # post\<rparr>"
      and v: "outbox_violation (f r) (pre @ post) = None"
    have "outbox_row_evolves r (f r)" using f [OF _ r] t by simp
    then have "forward outbox_row_evolves (db_outbox d) (pre @ f r # post)"
      by (simp add: t forward_replace)
    moreover have "outbox_inv (pre @ f r # post)"
      using inv v by (auto simp: outbox_inv_def outbox_violation_None t)
    ultimately show ?thesis using d' by (auto simp: outbox_evolves_def)
  qed (auto intro: exI [of _ "db_outbox d"])
qed

definition outbox_step :: "db \<Rightarrow> db \<Rightarrow> bool" where
  "outbox_step d d' \<longleftrightarrow> (\<exists>t. d' = d\<lparr>db_outbox := t\<rparr> \<and> outbox_evolves (db_outbox d) t)"

lemma outbox_step_refl: "outbox_step d d"
  unfolding outbox_step_def by (rule exI [of _ "db_outbox d"]) simp

lemma outbox_step_sound: "db_inv d \<Longrightarrow> outbox_step d d' \<Longrightarrow> sound_step d d'"
  by (auto simp: outbox_step_def sound_step_def db_inv_def balance_def)

lemma claim_notification_step:
  assumes inv: "outbox_inv (db_outbox d)"
  shows "outbox_step d (fst (claim_notification env d lease))"
proof (cases "lease \<le> 0 \<or> notification_candidate env (en_clock env) d = None")
  case True
  then show ?thesis using outbox_step_refl by (auto simp: claim_notification_def Let_def)
next
  case False
  then obtain c where c: "notification_candidate env (en_clock env) d = Some c" by auto
  have mem: "c \<in> set (db_outbox d)" and due: "notification_due (en_clock env) c"
    using c by (auto simp: notification_candidate_def dest!: arg_cong [where f = set] split: list.splits)
  let ?f = "set_leased (en_uuid env 0) (en_clock env + lease) (en_clock env)"
  have same: "r = c" if "r \<in> set (db_outbox d)" "ob_id r = ob_id c" for r
    using that mem inv by (auto simp: outbox_inv_def distinct_map inj_on_def)
  have "ob_status c \<noteq> OutboxSent" using due by (auto simp: notification_due_def)
  then have ev: "outbox_row_evolves r (?f r)" if "r \<in> set (db_outbox d)" "ob_id r = ob_id c" for r
    using same [OF that] by (simp add: outbox_row_evolves_def outbox_ident_def set_leased_def)
  have "outbox_step d d'" if "update_outbox (\<lambda>r. ob_id r = ob_id c) ?f d = Inr (d', n)" for d' n
    unfolding outbox_step_def by (rule update_outbox_evolves [OF inv _ ev that])
  then show ?thesis using False c outbox_step_refl
    by (auto simp: claim_notification_def Let_def split: sum.split)
qed

lemma leased_update_step:
  assumes inv: "outbox_inv (db_outbox d)"
    and f: "\<And>r. outbox_ident (f r) = outbox_ident r \<and> ob_lease_generation (f r) = ob_lease_generation r"
    and upd: "update_outbox (leased_by claim) f d = Inr (d', n)"
  shows "outbox_step d d'"
  unfolding outbox_step_def
  by (rule update_outbox_evolves [OF inv _ _ upd, of "nc_id claim"])
     (use f in \<open>auto simp: leased_by_def outbox_row_evolves_def\<close>)

lemma finalize_notification_step:
  assumes "outbox_inv (db_outbox d)"
  shows "outbox_step d (fst (finalize_notification env d claim reason))"
  using leased_update_step [OF assms, of "set_sent reason (en_stmt_clock env)" claim] outbox_step_refl
  by (auto simp: finalize_notification_def set_sent_def outbox_ident_def split: sum.split)

lemma retry_notification_step:
  assumes "outbox_inv (db_outbox d)"
  shows "outbox_step d (fst (retry_notification env d claim message b m))"
  using leased_update_step [OF assms, of "set_failed (take max_outbox_error_length message)
       (exponential_backoff (nc_attempt_count claim) b m) (en_stmt_clock env)" claim]
    leased_update_step [OF assms, of "set_failed message
       (exponential_backoff (nc_attempt_count claim) b m) (en_stmt_clock env)" claim] outbox_step_refl
  by (auto simp: retry_notification_def Let_def set_failed_def outbox_ident_def split: sum.split option.split)

end
