(* ===== verification/System.thy ===== *)
theory System
  imports Outbox
begin

text \<open>
  The server as a transition system on the database: one rule per call of the repositories,
  with arbitrary clock readings, fresh UUIDs and arguments; the waiting-buffer percentage, which
  the adaptive queue controller changes while the server runs, is arbitrary in every Join. Calls
  on one product are serialised by the row lock every transaction takes first, and a call that
  fails is rolled back, so a run is a sequence of whole calls. \<open>store_inv\<close> holds in every
  reachable state.
\<close>

section \<open>Calls\<close>

inductive server_step :: "repo \<Rightarrow> db \<Rightarrow> db \<Rightarrow> bool" for rp where
  step_join_at: "server_step rp d (fst (join (rp\<lparr>rp_buffer_percent := percent\<rparr>) env d cmd))"
| step_start_checkout: "server_step rp d (fst (start_checkout rp env d sc))"
| step_cancel: "server_step rp d (fst (cancel rp env d cq))"
| step_find_current: "server_step rp d (fst (find_current rp env d pid user))"
| step_adjust_stock: "server_step rp d (fst (adjust_stock rp env d sa))"
| step_reconcile: "server_step rp d (fst (reconcile_next_product rp env d limit excluded))"
| step_claim_payment: "server_step rp d (fst (claim_payment env d pc))"
| step_apply_payment: "server_step rp d (fst (process_payment_claim rp env env' d claim))"
| step_retry_payment: "server_step rp d (fst (retry_payment_claim env d claim e))"
| step_claim_notification: "server_step rp d (fst (claim_notification env d lease))"
| step_finalize: "server_step rp d (fst (finalize_notification env d nclaim reason))"
| step_retry_notification: "server_step rp d (fst (retry_notification env d nclaim message b m))"

inductive_cases server_stepE: "server_step rp d d'"

lemma step_join: "server_step rp d (fst (join rp env d cmd))"
  using step_join_at [of rp d "rp_buffer_percent rp" env cmd] by simp

text \<open>A catalogue before any queue activity.\<close>

definition fresh_catalogue :: "db \<Rightarrow> bool" where
  "fresh_catalogue d \<longleftrightarrow> distinct (map pr_id (db_products d)) \<and>
     (\<forall>p\<in>set (db_products d). product_ok p \<and> pr_reserved p = 0) \<and>
     db_attempts d = [] \<and> db_outbox d = [] \<and> db_inbox d = [] \<and> db_adjustments d = []"

inductive reachable :: "repo \<Rightarrow> db \<Rightarrow> db \<Rightarrow> bool" for rp start where
  reachable_start: "reachable rp start start"
| reachable_step: "reachable rp start d \<Longrightarrow> server_step rp d d' \<Longrightarrow> reachable rp start d'"

definition store_inv :: "db \<Rightarrow> bool" where
  "store_inv d \<longleftrightarrow> db_inv d \<and> outbox_inv (db_outbox d)"

section \<open>Every call is a sound step\<close>

lemma join_sound: "db_inv d \<Longrightarrow> sound_step d (fst (join rp env d cmd))"
  unfolding join_def by (rule join_op.call_sound)

lemma start_checkout_sound:
  assumes inv: "db_inv d"
  shows "sound_step d (fst (start_checkout rp env d cmd))"
  unfolding start_checkout_def
  by (rule finish_sound [OF inv]) (auto dest: start_checkout_op.commit_sound [OF inv])

lemma cancel_sound: "db_inv d \<Longrightarrow> sound_step d (fst (cancel rp env d cmd))"
  unfolding cancel_def by (rule cancel_op.call_sound)

lemma find_current_sound: "db_inv d \<Longrightarrow> sound_step d (fst (find_current rp env d pid user))"
  unfolding find_current_def by (rule find_current_op.call_sound)

lemma find_current_each_sound:
  "db_inv d \<Longrightarrow> sound_step d (fst (find_current_each rp envs user d pids))"
proof (induction rp envs user d pids rule: find_current_each.induct)
  case (3 rp env envs user d pid pids)
  obtain d' c e where f: "find_current rp env d pid user = (d', c, e)" by (metis prod_cases3)
  have s: "sound_step d d'" using find_current_sound [OF 3(3), of rp env pid user] f by simp
  then have inv': "db_inv d'" by (simp add: sound_step_def)
  have "sound_step d' (fst (find_current_each rp envs user d' pids))"
    if "e = None \<or> (\<exists>x. e = Some x \<and> errors_is x ErrAttemptNotFound)"
    using that 3(1) [OF f [symmetric] refl] 3(2) [OF f [symmetric] refl] f inv' by auto
  then show ?case using s sound_step_trans [OF s] f
    by (auto split: option.splits prod.splits)
qed (simp_all add: sound_step_refl)

lemma adjust_stock_sound:
  assumes inv: "db_inv d"
  shows "sound_step d (fst (adjust_stock rp env d cmd))"
proof (cases "sa_delta cmd = 0")
  case True
  then show ?thesis using sound_step_refl [OF inv] by (simp add: adjust_stock_def)
next
  case False
  have "sound_step d (fst (finish d (bindE (canonical_stock_adjustment_hash (en_ext env) cmd) (\<lambda>digest.
         with_locked_product env d (sa_product cmd) no_scope (adjust_stock_body rp env cmd digest)))))"
    by (rule finish_sound [OF inv]) (auto dest: adjust_stock_op.commit_sound [OF inv])
  then show ?thesis using False by (simp add: adjust_stock_def)
qed

lemma select_eligible_product_row:
  assumes "select_eligible_product env d excluded = Some lp"
  obtains p where "p \<in> set (db_products d)" and "lp = locked_of_row p"
    and "product_eligible env d excluded p" and "\<not> en_row_locked env (pr_id p)"
proof -
  let ?l = "filter (\<lambda>p. \<not> en_row_locked env (pr_id p))
      (sort_key (\<lambda>p. (pr_updated_at p, pr_id p)) (filter (product_eligible env d excluded) (db_products d)))"
  obtain p ps where l: "?l = p # ps" "lp = locked_of_row p"
    using assms by (auto simp: select_eligible_product_def split: list.splits)
  then have "p \<in> set ?l" by simp
  then show thesis using that [of p] l(2) by simp
qed

lemma reconcile_next_product_sound:
  assumes inv: "db_inv d"
  shows "sound_step d (fst (reconcile_next_product rp env d limit excluded))"
proof (cases "limit \<le> 0 \<or> select_eligible_product env d excluded = None")
  case True
  then show ?thesis using sound_step_refl [OF inv] by (auto simp: reconcile_next_product_def)
next
  case False
  then obtain lp where lp: "select_eligible_product env d excluded = Some lp" and pos: "0 \<le> limit" by auto
  obtain p where p: "p \<in> set (db_products d)" "lp = locked_of_row p"
    using select_eligible_product_row [OF lp] .
  have "lock_product d (pr_id p) = Inr lp" using lock_product_ok [OF db_invD(2) [OF inv] p(1)] p(2) by simp
  note t = begin_tx_inv(1) [OF inv this, of env no_scope]
  have "sound_step d (tx_db st)"
    if r: "reconcile_locked_product_bounded rp env (begin_tx env d lp no_scope) limit = Inr (st, n, mw)" for st n mw
  proof -
    note R = reconcile_bounded_Inr(1,2) [OF t pos r]
    have "tx_db (begin_tx env d lp no_scope) = d" by (simp add: begin_tx_def)
    then show ?thesis
      using R reconcile_core_frame [OF R(2)] reconcile_balance [OF R(2)]
      by (intro core_frame_sound [of "tx_db st" "lp_id (tx_product (begin_tx env d lp no_scope))"])
         (simp_all add: tx_inv_def)
  qed
  then show ?thesis using False lp sound_step_refl [OF inv]
    by (auto simp: reconcile_next_product_def split: sum.split)
qed

lemma server_step_sound:
  assumes "server_step rp d d'" and inv: "store_inv d"
  shows "sound_step d d'"
proof -
  have i: "db_inv d" and o': "outbox_inv (db_outbox d)" using inv by (simp_all add: store_inv_def)
  show ?thesis using assms(1)
    by (rule server_stepE)
       (simp_all add: i o' join_sound start_checkout_sound cancel_sound find_current_sound adjust_stock_sound
         reconcile_next_product_sound claim_payment_sound process_payment_claim_sound
         retry_payment_claim_sound outbox_step_sound claim_notification_step
         finalize_notification_step retry_notification_step)
qed

lemma sound_step_store_inv: "store_inv d \<Longrightarrow> sound_step d d' \<Longrightarrow> store_inv d'"
  by (simp add: store_inv_def sound_step_def outbox_evolves_def)

lemma fresh_catalogue_inv: "fresh_catalogue d \<Longrightarrow> store_inv d"
  by (auto simp: fresh_catalogue_def store_inv_def db_inv_def attempts_inv_def inbox_inv_def
      outbox_inv_def product_counts_def reserved_in_def)

lemma reachable_sound:
  assumes "reachable rp start d" and "store_inv start"
  shows "store_inv d \<and> sound_step start d"
  using assms
proof (induction rule: reachable.induct)
  case reachable_start
  then show ?case using sound_step_refl by (simp add: store_inv_def)
next
  case (reachable_step d d')
  then have "sound_step d d'" using server_step_sound by blast
  then show ?case using reachable_step sound_step_store_inv sound_step_trans by blast
qed

lemmas reachable_inv = reachable_sound [THEN conjunct1, OF _ fresh_catalogue_inv]

end
