(* ===== verification/Example.thy ===== *)
theory Example
  imports System
begin

text \<open>
  A concrete store on which the properties are instantiated: one product with a single unit in
  stock, two customers, and a deterministic outside world (clock readings in thousands, UUIDs
  and digests that are easy to compute). Nothing else depends on this theory.
\<close>

definition demo_externals :: externals where
  "demo_externals = \<lparr>ext_uuid_parse = (\<lambda>s. if s = [] then None else Some (of_nat (read_nat s))),
     ext_uuid_string = (\<lambda>u. show_nat (unat u)), ext_sha256 = (\<lambda>s. take 32 (s @ replicate 32 (CHR ''0'')))\<rparr>"

definition demo_env :: "nat \<Rightarrow> env" where
  "demo_env k = \<lparr>en_ext = demo_externals, en_clock = 1000 * int k, en_stmt_clock = 1000 * int k,
     en_select_clock = 1000 * int k, en_uuid = (\<lambda>j. of_nat (8 * k + j)),
     en_payload_hash = (\<lambda>p. replicate 32 (CHR ''0'')), en_row_locked = (\<lambda>u. False)\<rparr>"

definition demo_repo :: repo where
  "demo_repo = \<lparr>rp_invitation_ttl = 10000, rp_checkout_ttl = 20000, rp_buffer_percent = 200\<rparr>"

definition demo_product :: product_row where
  "demo_product = \<lparr>pr_id = 7, pr_title = ''shoe'', pr_description = [], pr_image_url = [], pr_category = [],
     pr_price_cents = 100, pr_queue_enabled = True, pr_stock = 1, pr_reserved = 0, pr_next_sequence = 1,
     pr_created_at = 0, pr_updated_at = 0\<rparr>"

definition demo_db :: db where
  "demo_db = \<lparr>db_products = [demo_product], db_attempts = [], db_outbox = [], db_inbox = [], db_adjustments = []\<rparr>"

definition demo_join :: "nat \<Rightarrow> join_queue_command" where
  "demo_join k = \<lparr>jq_product = 7, jq_user = ''u'' @ show_nat k, jq_key = ''k'' @ show_nat k\<rparr>"


text \<open>The store after the first customer joined, and after the second one did.\<close>

definition demo_one :: db where
  "demo_one = fst (join demo_repo (demo_env 1) demo_db (demo_join 1))"

definition demo_two :: db where
  "demo_two = fst (join demo_repo (demo_env 2) demo_one (demo_join 2))"

lemma demo_fresh: "fresh_catalogue demo_db"
  by (simp add: fresh_catalogue_def demo_db_def demo_product_def product_ok_def max_int32_def max_int64_def)

lemma demo_reachable:
  "reachable demo_repo demo_db demo_db" "reachable demo_repo demo_db demo_one"
  "reachable demo_repo demo_db demo_two"
proof -
  show z: "reachable demo_repo demo_db demo_db" by (rule reachable_start)
  show s: "reachable demo_repo demo_db demo_one"
    unfolding demo_one_def by (rule reachable_step [OF z step_join])
  show "reachable demo_repo demo_db demo_two"
    unfolding demo_two_def by (rule reachable_step [OF s step_join])
qed

lemma demo_inv: "store_inv demo_db" "store_inv demo_one" "store_inv demo_two"
  using demo_reachable [THEN reachable_inv, OF demo_fresh] by simp_all

lemma demo_db_inv: "db_inv demo_db" "db_inv demo_one" "db_inv demo_two"
  using demo_inv by (simp_all add: store_inv_def)

lemma demo_states:
  "map qa_state (db_attempts demo_one) = [Checkout]"
  "map qa_state (db_attempts demo_two) = [Checkout, Waiting]"
  by code_simp+

text \<open>
  The first customer pays: the event is claimed, the payment applied, and the same event
  delivered again later.
\<close>

definition demo_payment :: payment_command where
  "demo_payment = \<lparr>pc_provider = ''bank'', pc_event_id = ''e1'', pc_attempt = 8,
     pc_outcome = PaymentSucceeded, pc_reference = ''r1''\<rparr>"

definition demo_claimed :: db where
  "demo_claimed = fst (claim_payment (demo_env 3) demo_two demo_payment)"

definition demo_claim :: payment_claim where
  "demo_claim = (case snd (claim_payment (demo_env 3) demo_two demo_payment) of
     (Some (Claimed c), e) \<Rightarrow> c
   | _ \<Rightarrow> \<lparr>cl_inbox = 0, cl_token = 0, cl_generation = 0, cl_payload_hash = [], cl_command = demo_payment\<rparr>)"

definition demo_sold :: db where
  "demo_sold = fst (process_payment_claim demo_repo (demo_env 4) (demo_env 5) demo_claimed demo_claim)"

definition demo_later :: db where
  "demo_later = fst (claim_payment (demo_env 6) demo_sold demo_payment)"

lemma demo_paid_reachable:
  "reachable demo_repo demo_db demo_claimed" "reachable demo_repo demo_db demo_sold"
  "reachable demo_repo demo_db demo_later"
proof -
  show c: "reachable demo_repo demo_db demo_claimed"
    unfolding demo_claimed_def by (rule reachable_step [OF demo_reachable(3) step_claim_payment])
  show s: "reachable demo_repo demo_db demo_sold"
    unfolding demo_sold_def by (rule reachable_step [OF c step_apply_payment])
  show "reachable demo_repo demo_db demo_later"
    unfolding demo_later_def by (rule reachable_step [OF s step_claim_payment])
qed

lemma demo_claimed_inv: "store_inv demo_claimed" and demo_sold_inv: "store_inv demo_sold"
  using demo_paid_reachable [THEN reachable_inv, OF demo_fresh] by simp_all

lemma demo_sold_states:
  "map qa_state (db_attempts demo_sold) = [Purchased, SoldOut]"
  "map ib_status (db_inbox demo_sold) = [InboxCompleted]" "map pr_stock (db_products demo_sold) = [0]"
  by code_simp+

end
