(* ===== verification/Store_Properties.thy ===== *)
theory Store_Properties
  imports Example
begin

text \<open>
  What every run of the server guarantees about the database, from any catalogue without queue
  activity and for any sequence of calls, clock readings and arguments: reservations are
  counted, stock is conserved, a customer has one active attempt per product, and rows only
  move forward.
\<close>

section \<open>Reachable databases\<close>

lemma reachable_db_inv: "fresh_catalogue start \<Longrightarrow> reachable rp start d \<Longrightarrow> db_inv d"
  using reachable_inv by (simp add: store_inv_def)

lemma reachable_product_row:
  assumes "fresh_catalogue start" and "reachable rp start d" and "p \<in> set (db_products d)"
  shows "product_ok p" and "product_counts (db_attempts d) p"
  using db_invD(3,4) [OF reachable_db_inv [OF assms(1,2)] assms(3)] .

text \<open>
  C2. The server never promises more units than it has: in every reachable database the
  \<open>reserved\<close> column of a product lies between zero and its stock and is exactly the number of
  its attempts that hold a reservation, those invited or in checkout.
\<close>

theorem no_oversell:
  assumes "fresh_catalogue start" and "reachable rp start d" and "p \<in> set (db_products d)"
  shows "0 \<le> pr_reserved p \<and> pr_reserved p \<le> pr_stock p \<and>
     pr_reserved p = int (length (filter (\<lambda>a. qa_product a = pr_id p \<and> reserves_stock (qa_state a)) (db_attempts d)))"
  using reachable_product_row [OF assms]
  by (simp add: product_ok_def product_counts_def reserved_in_def)

lemma no_oversell_witness:
  "pr_reserved (hd (db_products demo_two)) \<le> pr_stock (hd (db_products demo_two)) \<and>
   pr_reserved (hd (db_products demo_two)) = 1"
proof -
  have "hd (db_products demo_two) \<in> set (db_products demo_two)" by code_simp
  note n = no_oversell [OF demo_fresh demo_reachable(3) this]
  have "length (filter (\<lambda>a. qa_product a = pr_id (hd (db_products demo_two)) \<and> reserves_stock (qa_state a))
      (db_attempts demo_two)) = 1" by code_simp
  then show ?thesis using n by simp
qed

text \<open>
  C3. Stock is conserved: units for sale plus units sold are the initial stock plus the sum of
  the adjustments that were applied.
\<close>

theorem stock_ledger:
  assumes "fresh_catalogue start" and "reachable rp start d"
  shows "stock_of pid (db_products d) + purchased_in pid (db_attempts d) =
     stock_of pid (db_products start) + ledger pid (db_adjustments d)"
proof -
  have "sound_step start d" using reachable_sound [OF assms(2)] fresh_catalogue_inv [OF assms(1)] by blast
  then have "balance pid d = balance pid start" by (simp add: sound_step_def)
  then show ?thesis using assms(1)
    by (simp add: balance_def fresh_catalogue_def purchased_in_def ledger_def)
qed

lemma stock_ledger_witness:
  "stock_of 7 (db_products demo_two) + purchased_in 7 (db_attempts demo_two) =
     stock_of 7 (db_products demo_db) + ledger 7 (db_adjustments demo_two)"
  by (rule stock_ledger [OF demo_fresh demo_reachable(3)])

text \<open>
  C4. One person, one place: two attempts of a reachable database that belong to the same
  customer and product are the same attempt as soon as both are active, or both carry the same
  idempotency key; and two attempts of one product with the same queue sequence are the same
  attempt, so every place in a queue has one holder.
\<close>

theorem one_active_attempt:
  assumes "fresh_catalogue start" and "reachable rp start d"
    and "a \<in> set (db_attempts d)" and "b \<in> set (db_attempts d)"
    and "qa_product a = qa_product b"
    and "qa_user a = qa_user b \<and>
        (is_active_state (qa_state a) \<and> is_active_state (qa_state b) \<or> qa_key a = qa_key b) \<or>
      qa_sequence a = qa_sequence b"
  shows "a = b"
proof (rule ccontr)
  assume "a \<noteq> b"
  with attempts_inv_pair [OF db_invD(1) [OF reachable_db_inv [OF assms(1,2)]] assms(3,4)]
  have "compatible a b" .
  then show False using assms(5-) by (auto simp: compatible_def both_active_def)
qed

lemma one_active_attempt_witness:
  "db_attempts demo_two ! 1 = last (db_attempts demo_two)"
proof (rule one_active_attempt [OF demo_fresh demo_reachable(3)])
  show "db_attempts demo_two ! 1 \<in> set (db_attempts demo_two)" by code_simp
  show "last (db_attempts demo_two) \<in> set (db_attempts demo_two)" by code_simp
  show "qa_product (db_attempts demo_two ! 1) = qa_product (last (db_attempts demo_two))" by code_simp
  show "qa_user (db_attempts demo_two ! 1) = qa_user (last (db_attempts demo_two)) \<and>
      (is_active_state (qa_state (db_attempts demo_two ! 1)) \<and>
        is_active_state (qa_state (last (db_attempts demo_two))) \<or>
       qa_key (db_attempts demo_two ! 1) = qa_key (last (db_attempts demo_two))) \<or>
      qa_sequence (db_attempts demo_two ! 1) = qa_sequence (last (db_attempts demo_two))" by code_simp
qed

lemma attempt_evolves_versions: "attempt_evolves a b \<Longrightarrow> (attempt_step ^^ nat (qa_version b - qa_version a)) a b"
  unfolding attempt_evolves_def
proof (induction rule: rtranclp_induct)
  case (step b c)
  have v: "qa_version c = qa_version b + 1" using attempt_step_version [OF step(2)] .
  have "qa_version a \<le> qa_version b"
    by (rule attempt_evolves_version) (simp add: attempt_evolves_def step(1))
  then have "nat (qa_version c - qa_version a) = Suc (nat (qa_version b - qa_version a))" using v by simp
  then show ?case using step(2,3) by (simp add: relcomppI)
qed simp

lemma attempt_moves:
  assumes "store_inv d" and "reachable rp d d'" and "a \<in> set (db_attempts d)"
  shows "\<exists>b\<in>set (db_attempts d'). qa_id b = qa_id a \<and>
     (attempt_step ^^ nat (qa_version b - qa_version a)) a b \<and> qa_version b \<le> 4 \<and>
     (\<not> is_active_state (qa_state a) \<longrightarrow> b = a)"
proof -
  have s: "store_inv d'" "table_evolves (db_attempts d) (db_attempts d')"
    using reachable_sound [OF assms(2,1)] by (simp_all add: sound_step_def)
  obtain b where b: "b \<in> set (db_attempts d')" "attempt_evolves a b"
    using table_evolves_row [OF s(2) assms(3)] .
  have "row_ok b" using s(1) b(1) by (auto simp: store_inv_def db_inv_def attempts_inv_def)
  then have "qa_version b \<le> 4" by (cases "qa_state b") (auto simp: row_ok_def)
  then show ?thesis
    using b attempt_evolves_ident [OF b(2)] attempt_evolves_versions [OF b(2)] attempt_evolves_final [OF b(2)]
    by (auto simp: attempt_ident_def)
qed

text \<open>
  C5. Rows only move forward: from one database to any later one, an attempt is still there, has
  moved by whole transitions with one version increment each (at most three in its life), and has
  not changed at all once it is terminal or purchased; a payment event that is completed or
  rejected and a notification that is sent keep their whole row, and the fencing counters of the
  others never go back.
\<close>

theorem attempt_lifecycle:
  assumes "store_inv d" and "reachable rp d d'"
  shows "(\<forall>a\<in>set (db_attempts d). \<exists>b\<in>set (db_attempts d'). qa_id b = qa_id a \<and>
        (attempt_step ^^ nat (qa_version b - qa_version a)) a b \<and> qa_version b \<le> 4 \<and>
        (\<not> is_active_state (qa_state a) \<longrightarrow> b = a)) \<and>
     (\<forall>r\<in>set (db_inbox d). \<exists>r'\<in>set (db_inbox d'). inbox_ident r' = inbox_ident r \<and>
        ib_claim_generation r \<le> ib_claim_generation r' \<and> (inbox_final (ib_status r) \<longrightarrow> r' = r)) \<and>
     (\<forall>r\<in>set (db_outbox d). \<exists>r'\<in>set (db_outbox d'). outbox_ident r' = outbox_ident r \<and>
        ob_lease_generation r \<le> ob_lease_generation r' \<and> (ob_status r = OutboxSent \<longrightarrow> r' = r))"
proof -
  have s: "inbox_evolves (db_inbox d) (db_inbox d')" "forward outbox_row_evolves (db_outbox d) (db_outbox d')"
    using reachable_sound [OF assms(2,1)] by (simp_all add: sound_step_def outbox_evolves_def)
  have "\<exists>r'\<in>set (db_inbox d'). inbox_ident r' = inbox_ident r \<and> ib_claim_generation r \<le> ib_claim_generation r' \<and>
      (inbox_final (ib_status r) \<longrightarrow> r' = r)" if "r \<in> set (db_inbox d)" for r
    using forward_row [OF s(1) [unfolded inbox_evolves_def] that] unfolding inbox_row_evolves_def by metis
  moreover have "\<exists>r'\<in>set (db_outbox d'). outbox_ident r' = outbox_ident r \<and> ob_lease_generation r \<le> ob_lease_generation r' \<and>
      (ob_status r = OutboxSent \<longrightarrow> r' = r)" if "r \<in> set (db_outbox d)" for r
    using forward_row [OF s(2) that] unfolding outbox_row_evolves_def by metis
  ultimately show ?thesis using attempt_moves [OF assms] by blast
qed

lemma attempt_lifecycle_witness:
  "(\<exists>b\<in>set (db_attempts demo_later). qa_id b = qa_id (hd (db_attempts demo_sold)) \<and> qa_version b \<le> 4) \<and>
   (\<exists>r'\<in>set (db_inbox demo_later). r' = hd (db_inbox demo_sold) \<and> ib_status r' = InboxCompleted)"
proof -
  have "reachable demo_repo demo_sold demo_later"
    unfolding demo_later_def by (rule reachable_step [OF reachable_start step_claim_payment])
  note moved = attempt_lifecycle [OF demo_sold_inv this]
  have "hd (db_attempts demo_sold) \<in> set (db_attempts demo_sold)" "hd (db_inbox demo_sold) \<in> set (db_inbox demo_sold)"
    "ib_status (hd (db_inbox demo_sold)) = InboxCompleted" by code_simp+
  then show ?thesis using moved by (auto simp: inbox_final_def)
qed

end
