(* ===== verification/Queue_Properties.thy ===== *)
theory Queue_Properties
  imports Example
begin

text \<open>
  What the queue operations do, stated of whole calls on a database that satisfies the
  invariant: replays, the place of a new attempt, queue order, reported positions, cancellation,
  checkout and stock adjustments, each with a concrete instance.
\<close>

section \<open>Rows of a locked product\<close>

lemma lock_product_exists:
  assumes "p \<in> set (db_products d)" and "db_inv d"
  shows "lock_product d (pr_id p) = Inr (locked_of_row p)"
  using lock_product_ok [OF db_invD(2) [OF assms(2)] assms(1)] .

lemma row_nonempty: "row_ok a \<Longrightarrow> qa_user a \<noteq> [] \<and> qa_key a \<noteq> []"
  by (auto simp: row_ok_def attempt_check_defs idempotency_key_pattern_def)

lemma replay_unique:
  assumes "attempts_inv t" and "a \<in> set t" and "b \<in> set t"
    and "qa_product a = qa_product b" and "qa_user a = qa_user b" and "qa_key a = qa_key b"
  shows "a = b"
  using attempts_inv_pair [OF assms(1-3)] assms(4-) by (auto simp: compatible_def)

lemma active_unique:
  assumes "attempts_inv t" and "a \<in> set t" and "b \<in> set t"
    and "qa_product a = qa_product b" and "qa_user a = qa_user b"
    and "is_active_state (qa_state a)" and "is_active_state (qa_state b)"
  shows "a = b"
  using attempts_inv_pair [OF assms(1-3)] assms(4-) by (auto simp: compatible_def both_active_def)

lemma find_replay_locked:
  assumes inv: "db_inv d" and a: "a \<in> set (db_attempts d)" "qa_product a = lp_id p"
    and st: "st = begin_tx env d p \<lparr>ls_user = qa_user a, ls_key = qa_key a, ls_attempt = 0, ls_include_latest = False\<rparr>"
  shows "find_replay (tx_attempts st) (qa_user a) (qa_key a) = Some a"
proof -
  have ok: "row_ok a" using a(1) db_invD(1) [OF inv] by (simp add: attempts_inv_def)
  have mem: "a \<in> set (tx_attempts st)"
    using a row_nonempty [OF ok] by (simp add: st begin_tx_def lock_product_attempts_def in_lock_scope_def)
  then obtain b where b: "find_replay (tx_attempts st) (qa_user a) (qa_key a) = Some b"
    unfolding find_replay_def by (metis (mono_tags, lifting) find_None_iff option.exhaust)
  then have "b \<in> set (tx_attempts st)" "qa_user b = qa_user a" "qa_key b = qa_key a"
    by (auto simp: find_replay_def dest: find_in_set)
  then have "b = a"
    using replay_unique [OF db_invD(1) [OF inv], of b a] a
    by (auto simp: st begin_tx_def lock_product_attempts_def in_lock_scope_def)
  then show ?thesis using b by simp
qed

lemma final_row_kept:
  assumes "rows_evolve_at pid t t'" and "a \<in> set t" and "\<not> is_active_state (qa_state a)"
  shows "a \<in> set t'"
proof -
  obtain i where i: "i < length t" "t ! i = a" using assms(2) by (auto simp: in_set_conv_nth)
  then have "attempt_evolves a (t' ! i)" "i < length t'"
    using assms(1) by (auto simp: rows_evolve_at_def list_all2_conv_all_nth)
  then show ?thesis using attempt_evolves_final [OF _ assms(3)] by (metis nth_mem)
qed

section \<open>Committed calls\<close>

lemma finish_eq_Some: "finish d m = (d', Some x, e) \<longleftrightarrow> m = Inr (d', Some x, e)"
  by (cases m) (auto simp: finish_def)

lemma locked_call:
  assumes "db_inv d" and "with_locked_product env d pid scope operation = Inr (d', r)"
  obtains p st' where "lock_product d pid = Inr p" and "tx_inv (begin_tx env d p scope)"
    and "lp_id p = pid" and "operation (begin_tx env d p scope) = Inr (st', r)" and "d' = tx_db st'"
proof -
  obtain p st' where p: "lock_product d pid = Inr p"
    and b: "operation (begin_tx env d p scope) = Inr (st', r)" "d' = tx_db st'"
    using assms(2) by (auto simp: with_locked_product_def)
  show thesis using that [OF p begin_tx_inv [OF assms(1) p] b] .
qed

lemma begin_tx_simps [simp]:
  "tx_db (begin_tx env d p scope) = d" "tx_product (begin_tx env d p scope) = p"
  "tx_now (begin_tx env d p scope) = en_clock env"
  by (simp_all add: begin_tx_def)

text \<open>The attempts waiting for a product in the database, and those before a place.\<close>

definition waiting_for :: "product_id \<Rightarrow> queue_attempt list \<Rightarrow> queue_attempt list" where
  "waiting_for pid t = filter (\<lambda>a. qa_product a = pid \<and> qa_state a = Waiting) t"

definition ahead_of :: "product_id \<Rightarrow> int \<Rightarrow> queue_attempt list \<Rightarrow> queue_attempt list" where
  "ahead_of pid k t = filter (\<lambda>a. qa_sequence a < k) (waiting_for pid t)"

lemma tx_inv_counts:
  assumes "tx_inv st" and "lp_id (tx_product st) = pid"
  shows "count_waiting (tx_attempts st) = int (length (waiting_for pid (db_attempts (tx_db st))))"
    and "count_waiting_ahead (tx_attempts st) k = int (length (ahead_of pid k (db_attempts (tx_db st))))"
proof -
  have coh: "coherent pid (db_attempts (tx_db st)) (tx_attempts st)"
    and dist: "distinct (db_attempts (tx_db st))"
    using assms attempts_inv_distinct by (auto simp: tx_inv_def db_inv_def)
  have cong: "length (filter Q (tx_attempts st)) = length (filter (\<lambda>a. qa_product a = pid \<and> Q a) (db_attempts (tx_db st)))"
    if w: "\<And>a. Q a \<Longrightarrow> qa_state a = Waiting" for Q
  proof (rule length_filter_cong_set)
    have "(a \<in> set (tx_attempts st) \<and> Q a) = (a \<in> set (db_attempts (tx_db st)) \<and> qa_product a = pid \<and> Q a)" for a
      using coh w [of a] unfolding coherent_def is_active_state_def by blast
    then show "{a \<in> set (tx_attempts st). Q a} = {a \<in> set (db_attempts (tx_db st)). qa_product a = pid \<and> Q a}"
      by blast
  qed (use coh dist in \<open>simp_all add: coherent_def\<close>)
  show "count_waiting (tx_attempts st) = int (length (waiting_for pid (db_attempts (tx_db st))))"
    unfolding count_waiting_def waiting_for_def by (subst cong) simp_all
  have "filter (\<lambda>a. qa_sequence a < k) (waiting_for pid (db_attempts (tx_db st))) =
      filter (\<lambda>a. qa_product a = pid \<and> qa_state a = Waiting \<and> qa_sequence a < k) (db_attempts (tx_db st))"
    by (simp add: waiting_for_def conj_ac)
  then show "count_waiting_ahead (tx_attempts st) k = int (length (ahead_of pid k (db_attempts (tx_db st))))"
    unfolding count_waiting_ahead_def ahead_of_def by (subst cong) simp_all
qed

lemma tx_inv_member: "tx_inv st \<Longrightarrow> a \<in> set (tx_attempts st) \<Longrightarrow>
    a \<in> set (db_attempts (tx_db st)) \<and> qa_product a = lp_id (tx_product st)"
  by (auto simp: tx_inv_def coherent_def)

lemma reconciled:
  assumes "tx_inv st" and "reconcile_locked_product rp env st = Inr st'"
  shows "tx_inv st'" and "lp_id (tx_product st') = lp_id (tx_product st)"
    and "lp_stock (tx_product st') = lp_stock (tx_product st)" and "tx_now st' = tx_now st"
  using reconcile_Inr(1,2) [OF assms] reconcile_frameD(1-3) by auto

text \<open>Nothing is overdue and nobody waits for a unit that is free.\<close>

definition settled :: "tx_state \<Rightarrow> bool" where
  "settled st \<longleftrightarrow> (\<forall>a\<in>set (tx_attempts st). \<not> overdue_at (tx_now st) a \<and>
     (qa_state a = Waiting \<longrightarrow> lp_stock (tx_product st) \<noteq> 0 \<and>
        lp_reserved (tx_product st) = lp_stock (tx_product st)))"

lemma reconciled_settled:
  assumes inv: "tx_inv st" and ttl: "0 < rp_invitation_ttl rp"
    and rec: "reconcile_locked_product rp env st = Inr st'"
  shows "settled st'"
proof -
  let ?limit = "2 * length (tx_attempts st) + 1"
  note R = reconcile_Inr [OF inv rec] reconciled [OF inv rec]
  have "reserving (advance ?limit (overdue_at (tx_now st)) (expire_row (tx_now st)) (tx_attempts st))
      \<le> lp_stock (tx_product st)"
    by (rule order_trans [OF reserving_expired_le])
       (use tx_inv_loop_inv [OF inv] in \<open>simp add: loop_inv_def\<close>)
  note q = reconcile_spec_quiet [OF ttl _ this, folded R(3)]
  have "lp_reserved (tx_product st') = reserving (tx_attempts st')"
    using tx_inv_loop_inv [OF R(4)] by (simp add: loop_inv_def)
  then show ?thesis using q R(6,7) by (simp add: settled_def is_waiting_def)
qed

section \<open>Reported positions\<close>

lemma found_member:
  assumes "(case find_active_attempt as user of Some a \<Rightarrow> Some a | None \<Rightarrow> latest_attempt_for_user as user) = Some a"
  shows "a \<in> set as \<and> qa_user a = user"
  using assms by (auto simp: find_active_attempt_def latest_attempt_for_user_def dest: find_in_set split: option.splits)

lemma find_current_facts:
  assumes inv: "db_inv d" and call: "find_current rp env d pid user = (d', Some c, e)"
  shows "cr_attempt c \<in> set (db_attempts d') \<and> qa_user (cr_attempt c) = user \<and>
     qa_product (cr_attempt c) = pid \<and>
     cr_total_waiting c = int (length (waiting_for pid (db_attempts d'))) \<and>
     cr_position_ahead c = (if qa_state (cr_attempt c) = Waiting
       then int (length (ahead_of pid (qa_sequence (cr_attempt c)) (db_attempts d'))) else 0)"
proof -
  have "with_locked_product env d pid (latest_scope user) (find_current_body rp env user) = Inr (d', Some c, e)"
    using call by (simp add: find_current_def finish_eq_Some)
  then obtain p st' where tx: "tx_inv (begin_tx env d p (latest_scope user))" and pid: "lp_id p = pid"
    and body: "find_current_body rp env user (begin_tx env d p (latest_scope user)) = Inr (st', Some c, e)"
    and d': "d' = tx_db st'" by (rule locked_call [OF inv])
  from body obtain a where rec: "reconcile_locked_product rp env (begin_tx env d p (latest_scope user)) = Inr st'"
    and found: "(case find_active_attempt (tx_attempts st') user of Some a \<Rightarrow> Some a
        | None \<Rightarrow> latest_attempt_for_user (tx_attempts st') user) = Some a"
    and c: "c = \<lparr>cr_attempt = a, cr_position_ahead = position_of st' a,
        cr_total_waiting = count_waiting (tx_attempts st')\<rparr>"
    by (auto simp: find_current_body_def Let_def split: option.splits)
  note R = reconciled [OF tx rec]
  have id: "lp_id (tx_product st') = pid" using R(2) pid by simp
  show ?thesis
    using found_member [OF found] tx_inv_member [OF R(1)] tx_inv_counts [OF R(1) id] id d' c
    by (auto simp: position_of_def)
qed

text \<open>
  C6. FindCurrent tells the truth about the committed queue: the attempt it returns is a row of
  the database and belongs to the caller, \<open>TotalWaiting\<close> is the number of waiting attempts of
  the product, and \<open>PositionAhead\<close> the number of those with a smaller sequence (zero when the
  attempt is not waiting).
\<close>

theorem find_current_exact:
  assumes inv: "db_inv d" and call: "find_current rp env d pid user = (d', Some c, e)"
  shows "cr_attempt c \<in> set (db_attempts d') \<and> qa_user (cr_attempt c) = user \<and>
     qa_product (cr_attempt c) = pid \<and>
     cr_total_waiting c = int (length (waiting_for pid (db_attempts d'))) \<and>
     cr_position_ahead c = (if qa_state (cr_attempt c) = Waiting
       then int (length (ahead_of pid (qa_sequence (cr_attempt c)) (db_attempts d'))) else 0)"
  using assms by (rule find_current_facts)

lemma find_current_exact_witness:
  "\<exists>d' c e. find_current demo_repo (demo_env 9) demo_two 7 ''u2'' = (d', Some c, e) \<and>
     cr_total_waiting c = int (length (waiting_for 7 (db_attempts d')))"
proof -
  have "\<not> Option.is_none (fst (snd (find_current demo_repo (demo_env 9) demo_two 7 ''u2'')))" by code_simp
  then obtain d' c e where "find_current demo_repo (demo_env 9) demo_two 7 ''u2'' = (d', Some c, e)"
    by (metis Option.is_none_code(1) option.exhaust prod.collapse)
  with find_current_exact [OF demo_db_inv(3) this] show ?thesis by blast
qed

section \<open>Joining\<close>

text \<open>A join that repeats an idempotency key changes nothing and answers with the attempt it belongs to.\<close>

lemma join_repeats:
  assumes inv: "db_inv d" and a: "a \<in> set (db_attempts d)"
    and p: "p \<in> set (db_products d)" "pr_id p = qa_product a"
    and cmd: "cmd = \<lparr>jq_product = qa_product a, jq_user = qa_user a, jq_key = qa_key a\<rparr>"
  shows "\<exists>r. join rp env d cmd = (d, Some r, None) \<and> jr_attempt r = Some a \<and> \<not> jr_created r"
proof -
  let ?st = "begin_tx env d (locked_of_row p) \<lparr>ls_user = qa_user a, ls_key = qa_key a, ls_attempt = 0, ls_include_latest = False\<rparr>"
  have lock: "lock_product d (qa_product a) = Inr (locked_of_row p)"
    using lock_product_exists [OF p(1) inv] p(2) by simp
  have rep: "find_replay (tx_attempts ?st) (qa_user a) (qa_key a) = Some a"
    by (rule find_replay_locked [OF inv a _ refl]) (simp add: p(2))
  have "join rp env d cmd = finish d (Inr (tx_db ?st, snd (join_found ?st a False)))"
    using lock rep by (simp add: join_def with_locked_product_def cmd join_body_def split_beta)
      (simp add: join_found_def)
  moreover have "tx_db ?st = d" by (simp add: begin_tx_def)
  ultimately show ?thesis by (simp add: finish_def join_found_def)
qed

text \<open>A join that creates an attempt does so on a reconciled product.\<close>

lemma join_new_created:
  assumes "join_new rp env cmd st = Inr (st', Some r, e)" and "jr_created r"
  obtains st1 a where "reconcile_locked_product rp env st = Inr st1"
    and "create_attempt rp env st1 cmd = Inr (st', a)" and "jr_attempt r = Some a"
    and "jr_position_ahead r = position_of st' a" and "jr_total_waiting r = count_waiting (tx_attempts st')"
proof (cases "\<not> lp_queue_enabled (tx_product st) \<or> lp_stock (tx_product st) = 0")
  case True
  then show thesis using assms by (auto simp: join_new_def join_refused_def split: if_splits)
next
  case False
  then obtain st1 where rec: "reconcile_locked_product rp env st = Inr st1"
    using assms(1) by (auto simp: join_new_def split: if_splits)
  show thesis
  proof (cases "create_attempt rp env st1 cmd")
    case (Inl err)
    then show thesis using assms False rec
      by (auto simp: join_new_def join_refused_def split: if_splits)
  next
    case (Inr sa)
    then show thesis using assms False rec that [OF rec, of "snd sa"]
      by (cases sa) (auto simp: join_new_def join_found_def)
  qed
qed

lemma join_body_new:
  assumes "tx_inv st" and "join_body rp env cmd st = Inr (st', Some r, e)" and "jr_created r"
  obtains st0 where "tx_inv st0" and "lp_id (tx_product st0) = lp_id (tx_product st)"
    and "join_new rp env cmd st0 = Inr (st', Some r, e)"
proof (cases "find_active_attempt (tx_attempts st) (jq_user cmd)")
  case None
  then show thesis using assms that [OF assms(1) refl]
    by (auto simp: join_body_def join_found_def split: option.splits)
next
  case (Some active)
  show thesis
  proof (cases "reconcile_locked_product rp env st")
    case (Inl err)
    then show thesis using assms Some
      by (auto simp: join_body_def join_found_def split: option.splits if_splits)
  next
    case (Inr st0)
    then show thesis using assms Some that [OF reconciled(1,2) [OF assms(1) Inr]]
      by (auto simp: join_body_def join_found_def split: option.splits if_splits)
  qed
qed

lemma join_created_run:
  assumes inv: "db_inv d" and call: "join rp env d cmd = (d', Some r, e)" and new: "jr_created r"
  obtains st1 st' a where "tx_inv st1" and "lp_id (tx_product st1) = jq_product cmd"
    and "0 < rp_invitation_ttl rp \<Longrightarrow> settled st1"
    and "create_attempt rp env st1 cmd = Inr (st', a)" and "d' = tx_db st'"
    and "jr_attempt r = Some a" and "jr_position_ahead r = position_of st' a"
    and "jr_total_waiting r = count_waiting (tx_attempts st')"
proof -
  let ?scope = "\<lparr>ls_user = jq_user cmd, ls_key = jq_key cmd, ls_attempt = 0, ls_include_latest = False\<rparr>"
  have "with_locked_product env d (jq_product cmd) ?scope (join_body rp env cmd) = Inr (d', Some r, e)"
    using call by (simp add: join_def finish_eq_Some)
  then obtain p st' where tx: "tx_inv (begin_tx env d p ?scope)" and pid: "lp_id p = jq_product cmd"
    and body: "join_body rp env cmd (begin_tx env d p ?scope) = Inr (st', Some r, e)" and d': "d' = tx_db st'"
    by (rule locked_call [OF inv])
  obtain st0 where st0: "tx_inv st0" "lp_id (tx_product st0) = jq_product cmd"
    and jn: "join_new rp env cmd st0 = Inr (st', Some r, e)"
    using join_body_new [OF tx body new] pid by auto
  obtain st1 a where rec: "reconcile_locked_product rp env st0 = Inr st1"
    and c: "create_attempt rp env st1 cmd = Inr (st', a)"
    and r: "jr_attempt r = Some a" "jr_position_ahead r = position_of st' a"
      "jr_total_waiting r = count_waiting (tx_attempts st')"
    by (rule join_new_created [OF jn new])
  note R = reconciled [OF st0(1) rec]
  show thesis using that [OF R(1) _ _ c d' r] R(2) st0 reconciled_settled [OF st0(1) _ rec] by simp
qed

text \<open>The two joins of the example, as the customers see them.\<close>

lemma demo_first_join:
  obtains r where "join demo_repo (demo_env 1) demo_db (demo_join 1) = (demo_one, Some r, None)"
    and "jr_created r" and "jr_attempt r = Some (hd (db_attempts demo_one))"
proof -
  let ?c = "join demo_repo (demo_env 1) demo_db (demo_join 1)"
  have "map_option jr_created (fst (snd ?c)) = Some True" "Option.is_none (snd (snd ?c))"
    "map_option jr_attempt (fst (snd ?c)) = Some (Some (hd (db_attempts demo_one)))" by code_simp+
  then show thesis using that by (cases ?c) (auto simp: demo_one_def Option.is_none_def)
qed

lemma demo_second_join:
  obtains r where "join demo_repo (demo_env 2) demo_one (demo_join 2) = (demo_two, Some r, None)"
    and "jr_created r" and "jr_attempt r = Some (db_attempts demo_two ! 1)"
proof -
  let ?c = "join demo_repo (demo_env 2) demo_one (demo_join 2)"
  have "map_option jr_created (fst (snd ?c)) = Some True" "Option.is_none (snd (snd ?c))"
    "map_option jr_attempt (fst (snd ?c)) = Some (Some (db_attempts demo_two ! 1))" by code_simp+
  then show thesis using that by (cases ?c) (auto simp: demo_two_def Option.is_none_def)
qed

lemma create_attempt_stock:
  "create_attempt rp env st cmd = Inr (st', a) \<Longrightarrow> lp_stock (tx_product st') = lp_stock (tx_product st)"
  by (auto simp: create_attempt_def draw_uuid_def insert_new_attempt_def
      update_product_for_new_attempt_def Let_def split: if_splits)

lemma create_attempt_last:
  assumes inv: "tx_inv st" and pid: "jq_product cmd = lp_id (tx_product st)"
    and create: "create_attempt rp env st cmd = Inr (st', a)"
    and b: "b \<in> set (db_attempts (tx_db st'))" "qa_product b = jq_product cmd" "b \<noteq> a"
  shows "qa_sequence b < qa_sequence a"
proof -
  note C = create_attempt_Inr [OF inv pid create]
  obtain p where p: "tx_product st = locked_of_row p" "product_counts (db_attempts (tx_db st)) p"
    using tx_inv_row [OF inv] by metis
  then show ?thesis using b C(4,5) pid by (auto simp: product_counts_def)
qed

lemma ahead_of_last:
  assumes "\<And>b. b \<in> set t \<Longrightarrow> qa_product b = pid \<Longrightarrow> b \<noteq> a \<Longrightarrow> qa_sequence b < qa_sequence a"
    and "distinct t" and "a \<in> set t" and "qa_product a = pid" and "qa_state a = Waiting"
  shows "length (waiting_for pid t) = Suc (length (ahead_of pid (qa_sequence a) t))"
proof -
  have d: "distinct (waiting_for pid t)" using assms(2) by (simp add: waiting_for_def)
  have "set (ahead_of pid (qa_sequence a) t) = set (waiting_for pid t) - {a}"
    using assms(1) by (auto simp: ahead_of_def waiting_for_def)
  moreover have "a \<in> set (waiting_for pid t)" using assms(3-5) by (simp add: waiting_for_def)
  moreover have "distinct (ahead_of pid (qa_sequence a) t)" using d by (simp add: ahead_of_def)
  ultimately show ?thesis using d by (metis List.card_set card_Suc_Diff1 distinct_card finite_set)
qed

text \<open>A newcomer that enters checkout at once leaves nobody waiting.\<close>

lemma create_attempt_direct:
  assumes t: "tx_inv st1" and pid: "jq_product cmd = lp_id (tx_product st1)"
    and c: "create_attempt rp env st1 cmd = Inr (st', a)" and q: "settled st1"
    and id: "lp_id (tx_product st') = jq_product cmd" and direct: "qa_state a = Checkout"
  shows "waiting_for (jq_product cmd) (db_attempts (tx_db st')) = []"
proof -
  note C = create_attempt_Inr [OF t pid c]
  have free: "lp_reserved (tx_product st1) < lp_stock (tx_product st1)"
    using C(6) direct by (simp split: if_splits)
  have "\<forall>b\<in>set (tx_attempts st1). qa_state b \<noteq> Waiting" using q free by (auto simp: settled_def)
  then have "count_waiting (tx_attempts st') = 0" using C(3) direct by (auto simp: count_waiting_def filter_empty_conv)
  then show ?thesis using tx_inv_counts(1) [OF C(1) id] by fastforce
qed

text \<open>
  C7. A join that creates an attempt puts it at the back of the queue, and nobody overtakes: the
  new row carries the caller's identity and key, every other attempt of the product has a smaller
  sequence, the answer reports the waiting attempts and, when the new one waits, all the others
  ahead of it; and when it enters checkout at once, nobody is waiting for the product (given a
  positive invitation lifetime, which the configuration enforces).
\<close>

theorem join_goes_last:
  assumes inv: "db_inv d" and call: "join rp env d cmd = (d', Some r, e)" and new: "jr_created r"
  shows "\<exists>a\<in>set (db_attempts d'). jr_attempt r = Some a \<and> qa_product a = jq_product cmd \<and>
     qa_user a = jq_user cmd \<and> qa_key a = jq_key cmd \<and>
     (\<forall>b\<in>set (db_attempts d'). qa_product b = jq_product cmd \<and> b \<noteq> a \<longrightarrow> qa_sequence b < qa_sequence a) \<and>
     jr_total_waiting r = int (length (waiting_for (jq_product cmd) (db_attempts d'))) \<and>
     jr_position_ahead r = (if qa_state a = Waiting then jr_total_waiting r - 1 else 0) \<and>
     (0 < rp_invitation_ttl rp \<and> qa_state a = Checkout \<longrightarrow> waiting_for (jq_product cmd) (db_attempts d') = [])"
proof -
  obtain st1 st' a where t: "tx_inv st1" and pid: "lp_id (tx_product st1) = jq_product cmd"
    and c: "create_attempt rp env st1 cmd = Inr (st', a)" and d': "d' = tx_db st'"
    and r: "jr_attempt r = Some a" "jr_position_ahead r = position_of st' a"
      "jr_total_waiting r = count_waiting (tx_attempts st')"
    and q: "0 < rp_invitation_ttl rp \<longrightarrow> settled st1"
    by (rule join_created_run [OF inv call new]) blast
  note C = create_attempt_Inr [OF t pid [symmetric] c]
  note last = create_attempt_last [OF t pid [symmetric] c]
  have id: "lp_id (tx_product st') = jq_product cmd" using C(2) pid by (simp add: op_safe_def)
  note N = tx_inv_counts [OF C(1) id]
  have a: "a \<in> set (db_attempts d')" using C(5) d' by simp
  have dist: "distinct (db_attempts d')"
    using C(1) d' attempts_inv_distinct by (auto simp: tx_inv_def db_inv_def)
  have "jr_position_ahead r = (if qa_state a = Waiting then jr_total_waiting r - 1 else 0)"
    using ahead_of_last [OF last [folded d'] dist a C(7)] N r d' by (auto simp: position_of_def)
  moreover have "waiting_for (jq_product cmd) (db_attempts d') = []"
    if "0 < rp_invitation_ttl rp \<and> qa_state a = Checkout"
    using create_attempt_direct [OF t pid [symmetric] c _ id] q that d' by simp
  ultimately show ?thesis using a last C(7-9) N r d' by (intro bexI [of _ a]) auto
qed

lemma join_goes_last_witness:
  "(\<exists>r :: join_queue_result. \<exists>a\<in>set (db_attempts demo_two). jr_attempt r = Some a \<and> qa_user a = jq_user (demo_join 2) \<and>
     jr_total_waiting r = int (length (waiting_for (jq_product (demo_join 2)) (db_attempts demo_two)))) \<and>
   waiting_for 7 (db_attempts demo_one) = []"
proof -
  obtain r where j: "join demo_repo (demo_env 1) demo_db (demo_join 1) = (demo_one, Some r, None)"
    "jr_created r" "jr_attempt r = Some (hd (db_attempts demo_one))" by (rule demo_first_join)
  have "qa_state (hd (db_attempts demo_one)) = Checkout" by code_simp
  with join_goes_last [OF demo_db_inv(1) j(1,2)] j(3) have one: "waiting_for 7 (db_attempts demo_one) = []"
    by (auto simp: demo_repo_def demo_join_def)
  obtain r where "join demo_repo (demo_env 2) demo_one (demo_join 2) = (demo_two, Some r, None)"
    and "jr_created r" by (rule demo_second_join)
  from join_goes_last [OF demo_db_inv(2) this] one show ?thesis by blast
qed

text \<open>
  A join only waits when every unit is reserved, and the waiting attempts, the new one included,
  do not exceed the waiting capacity of the product.
\<close>

lemma waiting_room_facts:
  assumes inv: "db_inv d" and call: "join rp env d cmd = (d', Some r, e)" and new: "jr_created r"
    and waits: "jr_attempt r = Some a" "qa_state a = Waiting"
  shows "\<exists>p\<in>set (db_products d'). pr_id p = jq_product cmd \<and> pr_reserved p = pr_stock p \<and>
     (\<exists>c. waiting_capacity (pr_stock p) (rp_buffer_percent rp) = Inr c \<and>
        int (length (waiting_for (jq_product cmd) (db_attempts d'))) \<le> c)"
proof -
  obtain st1 st' where t: "tx_inv st1" and pid: "lp_id (tx_product st1) = jq_product cmd"
    and c: "create_attempt rp env st1 cmd = Inr (st', a)" and d': "d' = tx_db st'"
    using join_created_run [OF inv call new] waits(1) by (metis option.inject)
  note C = create_attempt_Inr [OF t pid [symmetric] c]
  have full: "\<not> lp_reserved (tx_product st1) < lp_stock (tx_product st1)"
    using C(6) waits(2) by (simp split: if_splits)
  obtain cap where cap: "waiting_capacity (lp_stock (tx_product st1)) (rp_buffer_percent rp) = Inr cap"
    "count_waiting (tx_attempts st1) < cap"
    by (rule create_attempt_capacity [OF c full])
  have id: "lp_id (tx_product st') = jq_product cmd" using C(2) pid by (simp add: op_safe_def)
  have "count_waiting (tx_attempts st') \<le> cap" using cap(2) C(3) waits(2) by (simp add: count_waiting_def)
  then have n: "int (length (waiting_for (jq_product cmd) (db_attempts d'))) \<le> cap"
    using tx_inv_counts(1) [OF C(1) id] d' by simp
  obtain p where p: "p \<in> set (db_products d')" "tx_product st' = locked_of_row p"
    using tx_inv_row [OF C(1)] d' by (metis in_set_conv_decomp)
  have "lp_reserved (tx_product st') = reserving (tx_attempts st1)" "reserving (tx_attempts st1) = lp_reserved (tx_product st1)"
    "lp_reserved (tx_product st1) \<le> lp_stock (tx_product st1)"
    using tx_inv_loop_inv [OF C(1)] tx_inv_loop_inv [OF t] C(3) waits(2)
    by (simp_all add: loop_inv_def reserves_stock_def)
  then have "pr_reserved p = pr_stock p" "pr_stock p = lp_stock (tx_product st1)"
    using full p(2) create_attempt_stock [OF c] by simp_all
  then show ?thesis using p id cap(1) n by (intro bexI [of _ p]) auto
qed

end
