(* ===== verification/Reconcile_Properties.thy ===== *)
theory Reconcile_Properties
  imports Queue_Properties
begin

text \<open>
  Reconciliation as the customers and the background worker see it: the bounded pass implements
  its specification, a sufficient budget leaves nothing to do, invitations go out in queue
  order, and the calls on one product leave every other product alone.
\<close>

section \<open>The specification, position by position\<close>

lemma advance_nth:
  assumes "i < length as"
  shows "advance k P f as ! i = as ! i \<or> P (as ! i) \<and> advance k P f as ! i = f (as ! i)"
  using assms
proof (induction as arbitrary: i k)
  case (Cons a as)
  then show ?case by (cases i) auto
qed simp

lemma invite_row_ident: "qa_id (invite_row rp now a) = qa_id a" "qa_state (invite_row rp now a) = Invited"
  by (simp_all add: invite_row_def set_invited_def)

lemma reconcile_spec_length [simp]: "length (reconcile_spec rp now stock limit mem) = length mem"
  by (simp add: reconcile_spec_def Let_def)

text \<open>A waiting attempt is passed over by the first pass; the second may sell it out or invite it.\<close>

lemma reconcile_spec_waiting:
  fixes now :: time and limit :: nat
  assumes "i < length mem" and "qa_state (mem ! i) = Waiting"
  defines "mem1 \<equiv> advance limit (overdue_at now) (expire_row now) mem"
  shows "mem1 ! i = mem ! i"
    and "reconcile_spec rp now stock limit mem ! i = mem ! i \<or>
      stock = 0 \<and> reconcile_spec rp now stock limit mem ! i = set_terminal SoldOut ''sold_out'' now (mem ! i) \<or>
      stock \<noteq> 0 \<and> reconcile_spec rp now stock limit mem ! i = invite_row rp now (mem ! i)"
proof -
  show m: "mem1 ! i = mem ! i"
    using advance_nth [OF assms(1), of limit "overdue_at now" "expire_row now"] assms(2)
    by (auto simp: mem1_def overdue_at_def)
  have len: "i < length mem1" using assms(1) by (simp add: mem1_def)
  show "reconcile_spec rp now stock limit mem ! i = mem ! i \<or>
      stock = 0 \<and> reconcile_spec rp now stock limit mem ! i = set_terminal SoldOut ''sold_out'' now (mem ! i) \<or>
      stock \<noteq> 0 \<and> reconcile_spec rp now stock limit mem ! i = invite_row rp now (mem ! i)"
    unfolding reconcile_spec_def Let_def mem1_def [symmetric] m [symmetric]
    using advance_nth [OF len] by (cases "stock = 0") (simp_all, metis+)
qed

lemma reconcile_spec_order:
  assumes "i < j" and "j < length mem"
    and "qa_state (mem ! i) = Waiting" and "qa_state (mem ! j) = Waiting"
    and invited: "qa_state (reconcile_spec rp now stock limit mem ! j) = Invited"
  shows "reconcile_spec rp now stock limit mem ! i = invite_row rp now (mem ! i)"
proof -
  let ?mem1 = "advance limit (overdue_at now) (expire_row now) mem"
  have i: "i < length mem" using assms(1,2) by simp
  have stock: "stock \<noteq> 0"
    using reconcile_spec_waiting(2) [OF assms(2,4), of rp now stock limit] invited assms(4)
    by (auto simp: set_terminal_def)
  have m: "?mem1 ! i = mem ! i" "?mem1 ! j = mem ! j"
    using reconcile_spec_waiting(1) i assms by blast+
  let ?k = "min (limit - matching (overdue_at now) mem) (nat (stock - reserving ?mem1))"
  have s: "reconcile_spec rp now stock limit mem = advance ?k is_waiting (invite_row rp now) ?mem1"
    using stock by (simp add: reconcile_spec_def Let_def)
  have "advance ?k is_waiting (invite_row rp now) ?mem1 ! i = invite_row rp now (?mem1 ! i)"
    by (rule advance_prefix [OF assms(1)])
       (use assms m s invited in \<open>auto simp: is_waiting_def\<close>)
  then show ?thesis using s m by simp
qed

text \<open>
  Concrete instances: a product with two units and four customers, two in checkout and two
  waiting, and a pass long after both checkouts have expired.
\<close>

fun demo_wide :: "nat \<Rightarrow> db" where
  "demo_wide 0 = demo_db\<lparr>db_products := [demo_product\<lparr>pr_stock := 2\<rparr>]\<rparr>"
| "demo_wide (Suc k) = fst (join demo_repo (demo_env (Suc k)) (demo_wide k) (demo_join (Suc k)))"

lemma demo_wide_inv: "db_inv (demo_wide k)"
proof -
  have "reachable demo_repo (demo_wide 0) (demo_wide k)"
    by (induction k) (auto intro: reachable_start reachable_step step_join)
  moreover have "fresh_catalogue (demo_wide 0)"
    by (simp add: fresh_catalogue_def demo_db_def demo_product_def product_ok_def max_int32_def max_int64_def)
  ultimately show ?thesis using reachable_inv by (simp add: store_inv_def)
qed

definition demo_full :: db where "demo_full = demo_wide 4"

definition demo_pass :: "db \<times> reconciliation_result \<times> go_error option" where
  "demo_pass = reconcile_next_product demo_repo (demo_env 30) demo_full 10 []"

definition demo_tx :: tx_state where
  "demo_tx = begin_tx (demo_env 30) demo_full (locked_of_row (hd (db_products demo_full))) no_scope"

lemma demo_tx_inv: "tx_inv demo_tx"
proof -
  have "hd (db_products demo_full) \<in> set (db_products demo_full)" by code_simp
  from begin_tx_inv(1) [OF _ lock_product_exists [OF this]] show ?thesis
    using demo_wide_inv by (simp add: demo_tx_def demo_full_def)
qed

lemma demo_full_states:
  "map qa_state (db_attempts demo_full) = [Checkout, Checkout, Waiting, Waiting]"
  "map qa_id (db_attempts demo_full) = [8, 16, 24, 32]"
  "map qa_sequence (db_attempts demo_full) = [1, 2, 3, 4]"
  "map qa_product (db_attempts demo_full) = [7, 7, 7, 7]"
  by code_simp+

lemma demo_pass_states:
  "map qa_state (db_attempts (fst demo_pass)) = [CheckoutExpired, CheckoutExpired, Invited, Invited]"
  "map qa_id (db_attempts (fst demo_pass)) = [8, 16, 24, 32]"
  "rc_transitions (fst (snd demo_pass)) = 4"
  by code_simp+

lemma demo_pass_call:
  "reconcile_next_product demo_repo (demo_env 30) demo_full 10 [] = (fst demo_pass, fst (snd demo_pass), None)"
proof -
  have "Option.is_none (snd (snd demo_pass))" by code_simp
  then show ?thesis by (cases demo_pass) (simp add: demo_pass_def Option.is_none_def)
qed

lemma nth_map_eq: "map f xs = ys \<Longrightarrow> i < length ys \<Longrightarrow> f (xs ! i) = ys ! i \<and> xs ! i \<in> set xs"
  by (metis length_map nth_map nth_mem)

lemmas demo_full_row = demo_full_states [THEN nth_map_eq]
lemmas demo_pass_row = demo_pass_states(1,2) [THEN nth_map_eq]

lemma reconcile_more_work:
  assumes inv: "tx_inv st" and limit: "0 \<le> limit"
    and rec: "reconcile_locked_product_bounded rp env st limit = Inr (st', n, mw)"
  shows "mw \<longleftrightarrow> (\<exists>a\<in>set (tx_attempts st'). overdue_at (tx_now st) a \<or>
        qa_state a = Waiting \<and> (lp_stock (tx_product st') = 0 \<or> lp_reserved (tx_product st') < lp_stock (tx_product st')))"
proof -
  note R = reconcile_bounded_Inr [OF inv limit rec]
  let ?p = "tx_product st'"
  have "0 \<le> lp_reserved ?p" "lp_reserved ?p \<le> lp_stock ?p" "lp_stock ?p \<le> max_int32"
    using tx_inv_loop_inv [OF R(1)] by (simp_all add: loop_inv_def)
  then have "i32 (lp_stock ?p - lp_reserved ?p) = lp_stock ?p - lp_reserved ?p"
    by (intro i32_id) (simp_all add: min_int32_def)
  then have "mw = (\<exists>a\<in>set (tx_attempts st'). overdue_at (tx_now st) a \<or>
      is_waiting a \<and> (lp_stock ?p = 0 \<or> lp_stock ?p - lp_reserved ?p > 0))"
    using R(6) reconcile_frameD(1) [OF R(2)] has_work_in_Inr [of "tx_attempts st'"] coherent_row_ok [OF R(1)]
    by (simp add: has_reconciliation_work_def)
  then show ?thesis by (simp add: is_waiting_def)
qed

section \<open>The background pass\<close>

lemma rows_evolve_kept:
  assumes "rows_evolve_at pid t t'" and "a \<in> set t" and "qa_product a \<noteq> pid"
  shows "a \<in> set t'"
proof -
  obtain i where "i < length t" "t ! i = a" using assms(2) by (auto simp: in_set_conv_nth)
  then have "t' ! i = a \<and> i < length t'" using assms(1,3) by (auto simp: rows_evolve_at_def list_all2_conv_all_nth)
  then show ?thesis by auto
qed

lemma reconcile_next_run:
  assumes inv: "db_inv d" and call: "reconcile_next_product rp env d limit excluded = (d', res, None)"
  obtains "d' = d" and "res = no_reconciliation"
  | p st' n mw where "lock_product d (lp_id p) = Inr p" and "tx_inv (begin_tx env d p no_scope)" and "0 < limit"
      and "reconcile_locked_product_bounded rp env (begin_tx env d p no_scope) limit = Inr (st', n, mw)"
      and "d' = tx_db st'" and "res = \<lparr>rc_product = lp_id p, rc_transitions = n, rc_more_work = mw\<rparr>"
proof (cases "limit \<le> 0 \<or> select_eligible_product env d excluded = None")
  case True
  then show thesis using call that(1) by (auto simp: reconcile_next_product_def split: if_splits)
next
  case False
  then obtain lp where lp: "select_eligible_product env d excluded = Some lp" and pos: "0 < limit" by auto
  obtain p where p: "p \<in> set (db_products d)" "lp = locked_of_row p"
    using select_eligible_product_row [OF lp] .
  have lock: "lock_product d (lp_id lp) = Inr lp" using lock_product_exists [OF p(1) inv] p(2) by simp
  obtain st' n mw where rec: "reconcile_locked_product_bounded rp env (begin_tx env d lp no_scope) limit = Inr (st', n, mw)"
    and r: "d' = tx_db st'" "res = \<lparr>rc_product = lp_id lp, rc_transitions = n, rc_more_work = mw\<rparr>"
    using call False lp pos by (auto simp: reconcile_next_product_def split: sum.splits)
  show thesis by (rule that(2) [OF lock begin_tx_inv(1) [OF inv lock] pos rec r])
qed

lemma waiting_locked:
  assumes "tx_inv st" and "a \<in> set (db_attempts (tx_db st))" and "qa_product a = lp_id (tx_product st)"
    and "qa_state a = Waiting"
  obtains i where "i < length (tx_attempts st)" and "tx_attempts st ! i = a"
proof -
  have "a \<in> set (tx_attempts st)" using assms by (auto simp: tx_inv_def coherent_def is_active_state_def)
  then show thesis using that by (auto simp: in_set_conv_nth)
qed

lemma reconcile_invites_in_order:
  assumes tx: "tx_inv st" and pos: "0 < limit"
    and rec: "reconcile_locked_product_bounded rp env st limit = Inr (st', n, mw)"
    and a: "a \<in> set (db_attempts (tx_db st))" "qa_product a = lp_id (tx_product st)" "qa_state a = Waiting"
    and b: "b \<in> set (db_attempts (tx_db st))" "qa_product b = lp_id (tx_product st)" "qa_state b = Waiting"
    and before: "qa_sequence a < qa_sequence b"
    and invited: "b' \<in> set (db_attempts (tx_db st'))" "qa_id b' = qa_id b" "qa_state b' = Invited"
  shows "\<exists>a'\<in>set (db_attempts (tx_db st')). qa_id a' = qa_id a \<and> qa_state a' = Invited"
proof -
  let ?mem = "tx_attempts st"
  let ?mem' = "reconcile_spec rp (tx_now st) (lp_stock (tx_product st)) (nat limit) ?mem"
  note R = reconcile_bounded_Inr(1-3) [OF tx less_imp_le [OF pos] rec]
  have inv': "attempts_inv (db_attempts (tx_db st'))" using R(1) by (simp add: tx_inv_def db_inv_def)
  obtain i j where i: "i < length ?mem" "?mem ! i = a" and j: "j < length ?mem" "?mem ! j = b"
    using waiting_locked [OF tx a] waiting_locked [OF tx b] by metis
  have "i < j"
  proof (rule ccontr)
    assume "\<not> i < j"
    then have "qa_sequence b \<le> qa_sequence a"
      using tx i j sorted_nth_mono [of "map qa_sequence ?mem" j i] by (simp add: tx_inv_def coherent_def)
    then show False using before by simp
  qed
  have rows: "?mem' ! j \<in> set (db_attempts (tx_db st'))" "?mem' ! i \<in> set (db_attempts (tx_db st'))"
    using tx_inv_member [OF R(1)] i(1) j(1) R(3) by simp_all
  moreover have "qa_id (?mem' ! j) = qa_id b"
    using reconcile_spec_waiting(2) [OF j(1), of rp "tx_now st" "lp_stock (tx_product st)" "nat limit"] j(2) b(3)
    by (auto simp: set_terminal_def invite_row_ident)
  ultimately have "qa_state (?mem' ! j) = Invited"
    using attempts_inv_id_eq [OF inv'] invited by metis
  then have "?mem' ! i = invite_row rp (tx_now st) a"
    using reconcile_spec_order [OF \<open>i < j\<close> j(1)] i j a(3) b(3) by simp
  then show ?thesis using rows(2) invite_row_ident by metis
qed

text \<open>
  C9. The waiting line is served in order: when a background pass invites an attempt, every
  attempt of the same product that was waiting with a smaller sequence has been invited by the
  same pass.
\<close>

theorem invitations_in_order:
  assumes inv: "db_inv d" and call: "reconcile_next_product rp env d limit excluded = (d', res, None)"
    and a: "a \<in> set (db_attempts d)" "qa_product a = pid" "qa_state a = Waiting"
    and b: "b \<in> set (db_attempts d)" "qa_product b = pid" "qa_state b = Waiting"
    and before: "qa_sequence a < qa_sequence b"
    and invited: "b' \<in> set (db_attempts d')" "qa_id b' = qa_id b" "qa_state b' = Invited"
  shows "\<exists>a'\<in>set (db_attempts d'). qa_id a' = qa_id a \<and> qa_state a' = Invited"
  using inv call
proof (rule reconcile_next_run)
  assume "d' = d"
  then have "b' = b" using attempts_inv_id_eq [OF db_invD(1) [OF inv]] invited b by blast
  then show ?thesis using invited(3) b(3) by simp
next
  fix p st' n mw
  assume tx: "tx_inv (begin_tx env d p no_scope)" and pos: "0 < limit" and d': "d' = tx_db st'"
    and rec: "reconcile_locked_product_bounded rp env (begin_tx env d p no_scope) limit = Inr (st', n, mw)"
  note R = reconcile_bounded_Inr(1,2) [OF tx less_imp_le [OF pos] rec]
  have "pid = lp_id p"
  proof (rule ccontr)
    assume "pid \<noteq> lp_id p"
    then have "b \<in> set (db_attempts d')"
      using rows_evolve_kept [OF reconcile_frameD(8) [OF R(2)], of b] b d' by auto
    then have "b' = b" using R(1) d' attempts_inv_id_eq invited by (auto simp: tx_inv_def db_inv_def)
    then show False using invited(3) b(3) by simp
  qed
  then show ?thesis
    using reconcile_invites_in_order [OF tx pos rec] a b before invited d' by simp
qed

lemma invitations_in_order_witness:
  "\<exists>a'\<in>set (db_attempts (fst demo_pass)). qa_id a' = 24 \<and> qa_state a' = Invited"
proof -
  have "\<exists>a'\<in>set (db_attempts (fst demo_pass)).
      qa_id a' = qa_id (db_attempts demo_full ! 2) \<and> qa_state a' = Invited"
    by (rule invitations_in_order [OF demo_wide_inv [of 4, folded demo_full_def] demo_pass_call, of _ 7
          "db_attempts demo_full ! 3" "db_attempts (fst demo_pass) ! 3"])
       (use demo_full_row [of 2] demo_full_row [of 3] demo_pass_row [of 3] in simp_all)
  then show ?thesis using demo_full_row(2) [of 2] by simp
qed

text \<open>
  C10. The background worker catches up: a pass whose budget is at least twice the number of
  attempts of the product reports no more work, and afterwards nothing of that product is
  overdue and nobody waits while a unit is free.
\<close>

theorem ample_pass_settles:
  assumes inv: "db_inv d" and ttl: "0 < rp_invitation_ttl rp"
    and call: "reconcile_next_product rp env d limit excluded = (d', res, None)"
    and limit: "2 * int (length (db_attempts d)) \<le> limit" and work: "res \<noteq> no_reconciliation"
  shows "\<not> rc_more_work res \<and> (\<exists>p\<in>set (db_products d'). pr_id p = rc_product res \<and>
     (\<forall>a\<in>set (db_attempts d'). \<not> attempt_eligible (en_clock env) p a))"
  using inv call
proof (rule reconcile_next_run)
  assume "res = no_reconciliation"
  then show ?thesis using work by simp
next
  fix p st' n mw
  assume tx: "tx_inv (begin_tx env d p no_scope)" and pos: "0 < limit" and d': "d' = tx_db st'"
    and rec: "reconcile_locked_product_bounded rp env (begin_tx env d p no_scope) limit = Inr (st', n, mw)"
    and res: "res = \<lparr>rc_product = lp_id p, rc_transitions = n, rc_more_work = mw\<rparr>"
  note R = reconcile_bounded_Inr(1,2,6) [OF tx less_imp_le [OF pos] rec]
  have "length (tx_attempts (begin_tx env d p no_scope)) \<le> length (db_attempts d)"
    by (simp add: begin_tx_def lock_product_attempts_def)
  then have "\<not> mw" using reconcile_bounded_quiet [OF tx ttl _ rec] limit by simp
  moreover obtain q where q: "q \<in> set (db_products d')" "tx_product st' = locked_of_row q"
    using tx_inv_row [OF R(1)] d' by (metis in_set_conv_decomp)
  moreover have "lp_id (tx_product st') = lp_id p" using reconcile_frameD(2) [OF R(2)] by simp
  moreover have "\<not> attempt_eligible (en_clock env) q a" if a: "a \<in> set (db_attempts d')" for a
  proof
    assume e: "attempt_eligible (en_clock env) q a"
    then have "is_active_state (qa_state a)" "qa_product a = lp_id (tx_product st')"
      using q(2) by (auto simp: attempt_eligible_def overdue_at_def is_active_state_def split: attempt_state.splits)
    then have "a \<in> set (tx_attempts st')" using R(1) a d' by (auto simp: tx_inv_def coherent_def)
    then show False
      using e q(2) reconcile_more_work [OF tx less_imp_le [OF pos] rec] \<open>\<not> mw\<close>
      by (auto simp: attempt_eligible_def)
  qed
  ultimately show ?thesis using res by (intro conjI bexI [of _ q]) auto
qed

lemma ample_pass_settles_witness:
  "\<not> rc_more_work (fst (snd demo_pass)) \<and> rc_transitions (fst (snd demo_pass)) = 4"
proof -
  have "fst (snd demo_pass) \<noteq> no_reconciliation" using demo_pass_states(3) by (auto simp: no_reconciliation_def)
  moreover have "length (db_attempts demo_full) = 4"
    using arg_cong [OF demo_full_states(1), of length] by simp
  ultimately show ?thesis
    using ample_pass_settles [OF demo_wide_inv [of 4, folded demo_full_def] _ demo_pass_call] demo_pass_states(3)
    by (simp add: demo_repo_def)
qed

section \<open>The stored counter is never found corrupt\<close>

lemma update_no_sentinel:
  "update_attempts P f d = Inl e \<Longrightarrow> \<not> errors_is e s" "update_products Q g d = Inl e \<Longrightarrow> \<not> errors_is e s"
  "insert_outbox r d = Inl e \<Longrightarrow> \<not> errors_is e s"
  by (auto simp: statement_defs bindE_eq_Inl pg_result_def split: sum.splits)

lemma require_one_row_Inl: "require_one_row n = Inl e \<Longrightarrow> e = Wrapped [Sentinel ErrConflict]"
  by (auto simp: require_one_row_def guardE_def split: if_splits)

lemma map_postgresql_keeps:
  "\<not> errors_is e ErrReservedInvariant \<Longrightarrow> \<not> errors_is (map_postgresql_error e) ErrReservedInvariant"
  by (auto simp: map_postgresql_error_def split: option.splits)

lemma map_error_Inl: "map_error f m = Inl e \<longleftrightarrow> (\<exists>x. m = Inl x \<and> e = f x)"
  by (cases m) (auto simp: map_error_def)

lemma transition_benign:
  "transition_to_expired d a now s reason = Inl e \<Longrightarrow> \<not> errors_is e ErrReservedInvariant"
  "transition_waiting_to_sold_out d a now = Inl e \<Longrightarrow> \<not> errors_is e ErrReservedInvariant"
  "promote_waiting_attempt rp env st a = Inl e \<Longrightarrow> \<not> errors_is e ErrReservedInvariant"
  "attempt_overdue now a = Inl e \<Longrightarrow> \<not> errors_is e ErrReservedInvariant"
proof -
  show "transition_to_expired d a now s reason = Inl e \<Longrightarrow> \<not> errors_is e ErrReservedInvariant"
    "transition_waiting_to_sold_out d a now = Inl e \<Longrightarrow> \<not> errors_is e ErrReservedInvariant"
    by (auto simp: transition_to_expired_def transition_waiting_to_sold_out_def bindE_eq_Inl
        dest!: update_no_sentinel require_one_row_Inl)
  show "promote_waiting_attempt rp env st a = Inl e \<Longrightarrow> \<not> errors_is e ErrReservedInvariant"
    by (auto simp: promote_waiting_attempt_def Let_def bindE_eq_Inl map_error_Inl draw_uuid_def
        map_postgresql_keeps dest!: update_no_sentinel [where s = ErrReservedInvariant] require_one_row_Inl)
  show "attempt_overdue now a = Inl e \<Longrightarrow> \<not> errors_is e ErrReservedInvariant"
    by (auto simp: attempt_overdue_def deadline_passed_def split: attempt_state.splits option.splits)
qed

lemma loops_benign:
  "expire_loop limit st n as = Inl e \<Longrightarrow> \<not> errors_is e ErrReservedInvariant"
  "sold_out_loop limit st n as = Inl e \<Longrightarrow> \<not> errors_is e ErrReservedInvariant"
  "promote_loop rp env limit st k n as = Inl e \<Longrightarrow> \<not> errors_is e ErrReservedInvariant"
proof -
  show "expire_loop limit st n as = Inl e \<Longrightarrow> \<not> errors_is e ErrReservedInvariant"
    by (induction as arbitrary: st n)
       (auto simp: bindE_eq_Inl dest: transition_benign split: if_splits)
  show "sold_out_loop limit st n as = Inl e \<Longrightarrow> \<not> errors_is e ErrReservedInvariant"
    by (induction as arbitrary: st n)
       (auto simp: bindE_eq_Inl dest: transition_benign split: if_splits)
  show "promote_loop rp env limit st k n as = Inl e \<Longrightarrow> \<not> errors_is e ErrReservedInvariant"
    by (induction as arbitrary: st n k)
       (auto simp: bindE_eq_Inl dest: transition_benign split: if_splits)
qed

lemma store_reserved_benign:
  assumes inv: "tx_inv st" and frame: "tx_frame st st2" and loop: "loop_inv st2 (tx_attempts st2)"
    and store: "store_reserved (lp_reserved (tx_product st)) st2 = Inl e"
  shows "\<not> errors_is e ErrReservedInvariant"
proof -
  let ?P = "\<lambda>r. pr_id r = lp_id (tx_product st2) \<and> pr_reserved r = lp_reserved (tx_product st) \<and>
      0 \<le> lp_reserved (tx_product st2) \<and> lp_reserved (tx_product st2) \<le> pr_stock r"
  note fr = tx_frameD [OF frame]
  obtain pre p post where p: "db_products (tx_db st2) = pre @ p # post" "tx_product st = locked_of_row p"
    using tx_inv_row [OF inv] fr(6) by metis
  have "?P p" using p(2) fr(2,3) loop by (simp add: loop_inv_def)
  have dist: "distinct (map pr_id (db_products (tx_db st2)))" using inv fr(6) by (simp add: tx_inv_def db_inv_def)
  have one: "n = 1" if upd: "sql_update product_violation ?P f (db_products (tx_db st2)) = Inr (t, n)" for f t n
  proof -
    have "n = 0 \<or> n = 1" using sql_update_key [OF dist _ upd] by auto
    moreover have "n = length (filter ?P (db_products (tx_db st2)))" by (rule sql_update_Inr(2) [OF upd])
    ultimately show ?thesis using \<open>?P p\<close> p(1) by (auto simp: filter_empty_conv)
  qed
  show ?thesis using store one
    by (auto simp: store_reserved_def Let_def bindE_eq_Inl guardE_def update_products_def pg_result_def
        split: if_splits sum.splits)
qed

lemma has_work_benign:
  "has_reconciliation_work st = Inl e \<Longrightarrow> \<not> errors_is e ErrReservedInvariant"
proof -
  have "has_work_in p now k as = Inl e \<Longrightarrow> \<not> errors_is e ErrReservedInvariant" for p now k as
    by (induction as) (auto simp: bindE_eq_Inl dest: transition_benign split: if_splits)
  then show "has_reconciliation_work st = Inl e \<Longrightarrow> \<not> errors_is e ErrReservedInvariant"
    by (simp add: has_reconciliation_work_def)
qed

text \<open>
  The check of the stored counter never fires: neither the comparison of \<open>reserved\<close> with the
  attempts it counts nor the guarded update at the end reports \<open>ErrReservedInvariant\<close>.
\<close>

lemma reserved_invariant_unreachable:
  assumes inv: "tx_inv st" and limit: "0 \<le> limit"
    and rec: "reconcile_locked_product_bounded rp env st limit = Inl e"
  shows "\<not> errors_is e ErrReservedInvariant"
proof -
  let ?phase = "\<lambda>st1 n1 as1. if lp_stock (tx_product st1) = 0 then sold_out_loop limit st1 n1 as1
      else promote_loop rp env limit st1 (i32 (lp_stock (tx_product st1) - lp_reserved (tx_product st1))) n1 as1"
  note loop = tx_inv_loop_inv [OF inv]
  consider (expire) "expire_loop limit st 0 (tx_attempts st) = Inl e"
    | (phase) st1 n1 as1 where "?phase st1 n1 as1 = Inl e"
    | (store) st1 n1 as1 st2 n as2 where "expire_loop limit st 0 (tx_attempts st) = Inr (st1, n1, as1)"
        "?phase st1 n1 as1 = Inr (st2, n, as2)"
        "store_reserved (lp_reserved (tx_product st)) (st2\<lparr>tx_attempts := as2\<rparr>) = Inl e"
    | (work) st3 where "has_reconciliation_work st3 = Inl e"
    using rec loop_inv_reserved_invariant [OF loop]
    unfolding reconcile_locked_product_bounded_def Let_def bindE_eq_Inl guardE_def
    by (auto simp: split_beta bindE_eq_Inl split: if_splits) (metis prod.collapse)+
  then show ?thesis
  proof cases
    case expire
    then show ?thesis by (rule loops_benign(1))
  next
    case phase
    then show ?thesis using loops_benign(2,3) by (auto split: if_splits)
  next
    case store
    note P = phases_Inr(1,2) [OF loop limit store(1,2)]
    show ?thesis
      by (rule store_reserved_benign [OF inv _ _ store(3)])
         (use P in \<open>simp_all add: tx_frame_def loop_inv_def\<close>)
  next
    case work
    then show ?thesis by (rule has_work_benign)
  qed
qed

text \<open>
  C8. One bounded reconciliation of a locked product does exactly what its specification says:
  expire what is overdue, in queue order and within the budget; then sell out the waiting
  attempts when there is no stock, or invite as many as units are free. It never exceeds the
  budget, and reports more work exactly when something is still overdue or a waiting attempt
  could still be served or sold out. When it fails, it is not because the stored counter of
  reserved units disagrees with the attempts.
\<close>

theorem reconcile_refines_spec:
  assumes inv: "tx_inv st" and limit: "0 \<le> limit"
  shows "case reconcile_locked_product_bounded rp env st limit of
     Inr (st', n, mw) \<Rightarrow>
       tx_attempts st' = reconcile_spec rp (tx_now st) (lp_stock (tx_product st)) (nat limit) (tx_attempts st) \<and>
       n \<le> limit \<and>
       (mw \<longleftrightarrow> (\<exists>a\<in>set (tx_attempts st'). overdue_at (tx_now st) a \<or>
          qa_state a = Waiting \<and> (lp_stock (tx_product st') = 0 \<or> lp_reserved (tx_product st') < lp_stock (tx_product st'))))
   | Inl e \<Rightarrow> \<not> errors_is e ErrReservedInvariant"
proof (cases "reconcile_locked_product_bounded rp env st limit")
  case (Inl e)
  then show ?thesis using reserved_invariant_unreachable [OF inv limit Inl] by simp
next
  case (Inr r)
  obtain st' n mw where r: "r = (st', n, mw)" by (cases r)
  show ?thesis
    using reconcile_bounded_Inr(3,5) [OF inv limit Inr [unfolded r]] reconcile_more_work [OF inv limit Inr [unfolded r]]
    by (simp add: Inr r)
qed

lemma reconcile_refines_spec_witness:
  "(\<exists>st' n mw. reconcile_locked_product_bounded demo_repo (demo_env 30) demo_tx 10 = Inr (st', n, mw) \<and>
     tx_attempts st' = reconcile_spec demo_repo (tx_now demo_tx) (lp_stock (tx_product demo_tx)) 10 (tx_attempts demo_tx)) \<and>
   (\<exists>e. reconcile_locked_product_bounded demo_repo ((demo_env 30)\<lparr>en_payload_hash := \<lambda>p. []\<rparr>) demo_tx 10 = Inl e \<and>
     \<not> errors_is e ErrReservedInvariant)"
proof -
  let ?call = "\<lambda>env. reconcile_locked_product_bounded demo_repo env demo_tx 10"
  have "\<not> isl (?call (demo_env 30))" "isl (?call ((demo_env 30)\<lparr>en_payload_hash := \<lambda>p. []\<rparr>))" by code_simp+
  then obtain st' n mw e where c: "?call (demo_env 30) = Inr (st', n, mw)"
    "?call ((demo_env 30)\<lparr>en_payload_hash := \<lambda>p. []\<rparr>) = Inl e"
    by (metis isl_def prod.exhaust sum.collapse(2))
  show ?thesis
    using reconcile_refines_spec [OF demo_tx_inv, of 10 demo_repo "demo_env 30"]
      reconcile_refines_spec [OF demo_tx_inv, of 10 demo_repo "(demo_env 30)\<lparr>en_payload_hash := \<lambda>p. []\<rparr>"]
    by (simp add: c)
qed

end
