(* ===== verification/Operation_Properties.thy ===== *)
theory Operation_Properties
  imports Queue_Properties
begin

text \<open>
  StartCheckout, Cancel and AdjustStock as whole calls: what a successful answer means for the
  committed database, that stock adjustments are idempotent, and that a call on one product does
  not touch the others.
\<close>

text \<open>
  Concrete calls: the first customer of the example cancels, which invites the second, who then
  starts the checkout; and a delivery of three more units.
\<close>

definition demo_cancel :: "db \<times> queue_attempt go_return" where
  "demo_cancel = cancel demo_repo (demo_env 5) demo_two \<lparr>cq_product = 7, cq_user = qa_user (hd (db_attempts demo_two))\<rparr>"

definition demo_start :: "db \<times> queue_attempt go_return" where
  "demo_start = start_checkout demo_repo (demo_env 6) (fst demo_cancel)
     \<lparr>sc_attempt = 16, sc_user = qa_user (db_attempts demo_two ! 1)\<rparr>"

definition demo_delivery :: stock_adjustment_command where
  "demo_delivery = \<lparr>sa_product = 7, sa_key = ''d1'', sa_delta = 3, sa_reason = ''delivery'', sa_reference = ''r7''\<rparr>"

definition demo_adjust :: "db \<times> stock_adjustment_result go_return" where
  "demo_adjust = adjust_stock demo_repo (demo_env 5) demo_two demo_delivery"

lemma committed_call:
  assumes "\<not> Option.is_none (fst (snd c))" and "Option.is_none (snd (snd c))"
  shows "c = (fst c, Some (the (fst (snd c))), None)"
  using assms by (cases c) (auto simp: Option.is_none_def)

lemma demo_calls:
  "demo_cancel = (fst demo_cancel, Some (the (fst (snd demo_cancel))), None)"
  "demo_start = (fst demo_start, Some (the (fst (snd demo_start))), None)"
  "demo_adjust = (fst demo_adjust, Some (the (fst (snd demo_adjust))), None)"
  by (rule committed_call; code_simp)+

lemma demo_cancel_inv: "db_inv (fst demo_cancel)"
  using cancel_sound [OF demo_db_inv(3)] by (simp add: demo_cancel_def sound_step_def)

section \<open>Rows across a reconciliation\<close>

lemma settled_rows:
  assumes "tx_inv st" and "settled st"
  shows "\<exists>p\<in>set (db_products (tx_db st)). pr_id p = lp_id (tx_product st) \<and>
     (\<forall>a\<in>set (db_attempts (tx_db st)). \<not> attempt_eligible (tx_now st) p a)"
proof -
  obtain p where p: "p \<in> set (db_products (tx_db st))" "tx_product st = locked_of_row p"
    using tx_inv_row [OF assms(1)] by (metis in_set_conv_decomp)
  have "\<not> attempt_eligible (tx_now st) p a" if a: "a \<in> set (db_attempts (tx_db st))" for a
  proof
    assume e: "attempt_eligible (tx_now st) p a"
    then have "is_active_state (qa_state a)" "qa_product a = lp_id (tx_product st)"
      using p(2) by (auto simp: attempt_eligible_def overdue_at_def is_active_state_def split: attempt_state.splits)
    then have "a \<in> set (tx_attempts st)" using assms(1) a by (auto simp: tx_inv_def coherent_def)
    then show False using e p(2) assms(2) by (auto simp: attempt_eligible_def settled_def)
  qed
  then show ?thesis using p by (intro bexI [of _ p]) auto
qed

section \<open>StartCheckout\<close>

lemma checkout_deadline_ahead:
  assumes "row_ok a" and "qa_state a = Checkout" and "\<not> overdue_at now a"
  obtains t where "qa_checkout_deadline a = Some t" and "now < t"
  using assms
  by (auto simp: row_ok_def attempt_check_defs overdue_at_def check_state_timestamps.simps split: option.splits)

lemma transition_to_checkout_row:
  assumes inv: "tx_inv st" and a: "a \<in> set (tx_attempts st)" and s: "qa_state a = Invited"
    and tr: "transition_to_checkout st a deadline = Inr (st', b)"
  shows "b = set_checkout (tx_now st) deadline a" and "b \<in> set (db_attempts (tx_db st'))"
proof -
  show b: "b = set_checkout (tx_now st) deadline a" by (rule transition_to_checkout_Inr(1) [OF assms])
  obtain pre post where mem: "tx_attempts st = pre @ a # post" using a by (auto simp: in_set_conv_decomp)
  obtain d where upd: "update_attempts (guarded_row (qa_id a) Invited (qa_version a))
      (set_checkout (tx_now st) deadline) (tx_db st) = Inr (d, 1)" and st': "st' = st\<lparr>tx_db := d\<rparr>"
    using tr by (auto simp: transition_to_checkout_def)
  have "attempt_replaced (tx_db st) a b d"
    using guarded_transition(1) [OF inv mem s [symmetric] attempt_step.start_checkout [OF s] upd] b by simp
  then show "b \<in> set (db_attempts (tx_db st'))" by (auto simp: attempt_replaced_def st')
qed

text \<open>
  C11. A checkout that starts is a checkout that can be finished: the attempt StartCheckout
  returns without an error is a row of the database, it is the one that was asked for and
  belongs to the caller, it is in checkout, and its deadline has not passed at the time of the
  call (given positive lifetimes).
\<close>

theorem start_checkout_holds:
  assumes inv: "db_inv d" and ttl: "0 < rp_invitation_ttl rp" "0 < rp_checkout_ttl rp"
    and call: "start_checkout rp env d cmd = (d', Some a, None)"
  shows "a \<in> set (db_attempts d') \<and> qa_id a = sc_attempt cmd \<and> qa_user a = sc_user cmd \<and>
     qa_state a = Checkout \<and> (\<exists>t. qa_checkout_deadline a = Some t \<and> en_clock env < t)"
proof -
  let ?scope = "no_scope\<lparr>ls_attempt := sc_attempt cmd\<rparr>"
  obtain pid where "with_locked_product env d pid ?scope (start_checkout_body rp env cmd) = Inr (d', Some a, None)"
    using call by (auto simp: start_checkout_def finish_eq_Some)
  then obtain p st' where tx: "tx_inv (begin_tx env d p ?scope)" and d': "d' = tx_db st'"
    and body: "start_checkout_body rp env cmd (begin_tx env d p ?scope) = Inr (st', Some a, None)"
    by (rule locked_call [OF inv])
  obtain st1 where rec: "reconcile_locked_product rp env (begin_tx env d p ?scope) = Inr st1"
    using body by (auto simp: start_checkout_body_def)
  note R = reconciled [OF tx rec]
  obtain b where b: "find_attempt_by_id (tx_attempts st1) (sc_attempt cmd) = Some b" "qa_user b = sc_user cmd"
    using body rec by (auto simp: start_checkout_body_def split: option.splits if_splits)
  note bm = find_attempt_by_id_Some [OF b(1)]
  have cases: "qa_state b = Checkout \<and> st' = st1 \<and> a = b \<or>
      qa_state b = Invited \<and> transition_to_checkout st1 b (tx_now st1 + rp_checkout_ttl rp) = Inr (st', a)"
    using body rec b by (auto simp: start_checkout_body_def split: if_splits)
  then show ?thesis
  proof
    assume c: "qa_state b = Checkout \<and> st' = st1 \<and> a = b"
    have "\<not> overdue_at (tx_now st1) b"
      using reconciled_settled [OF tx ttl(1) rec] bm by (auto simp: settled_def)
    then obtain t where "qa_checkout_deadline b = Some t" "tx_now st1 < t"
      using checkout_deadline_ahead [of b "tx_now st1"] coherent_row_ok [OF R(1)] bm c by blast
    then show ?thesis using c bm b(2) tx_inv_member [OF R(1)] R(4) d' by auto
  next
    assume c: "qa_state b = Invited \<and> transition_to_checkout st1 b (tx_now st1 + rp_checkout_ttl rp) = Inr (st', a)"
    note T = transition_to_checkout_row [OF R(1) bm [THEN conjunct1] c [THEN conjunct1] c [THEN conjunct2]]
    then show ?thesis using bm b(2) ttl(2) R(4) d' by (simp add: set_checkout_def)
  qed
qed

lemma start_checkout_holds_witness:
  "\<exists>a\<in>set (db_attempts (fst demo_start)). qa_id a = 16 \<and> qa_state a = Checkout"
  using start_checkout_holds [OF demo_cancel_inv _ _ demo_calls(2) [unfolded demo_start_def]]
  by (auto simp: demo_repo_def demo_start_def)

section \<open>Cancel\<close>

lemma transition_to_cancelled_row:
  assumes inv: "tx_inv st" and a: "a \<in> set (tx_attempts st)" and act: "is_active_state (qa_state a)"
    and tr: "transition_to_cancelled st a = Inr (st', b)"
  shows "b \<in> set (db_attempts (tx_db st'))"
proof -
  obtain pre post where mem: "tx_attempts st = pre @ a # post" using a by (auto simp: in_set_conv_decomp)
  obtain d st1 where upd: "update_attempts (guarded_row (qa_id a) (qa_state a) (qa_version a))
        (set_terminal Cancelled ''cancelled'' (tx_now st)) (tx_db st) = Inr (d, 1)"
    and rel: "(if reserves_stock (qa_state a) then release_reservation (st\<lparr>tx_db := d\<rparr>)
             else Inr (st\<lparr>tx_db := d\<rparr>)) = Inr st1"
    and st': "tx_db st' = tx_db st1" and b: "b = set_terminal Cancelled ''cancelled'' (tx_now st) a"
    using tr by (auto simp: transition_to_cancelled_def Let_def)
  have "db_attempts (tx_db st1) = db_attempts d"
    using rel by (auto simp: release_reservation_def update_products_def split: if_splits)
  moreover have "attempt_replaced (tx_db st) a b d"
    using guarded_transition(1) [OF inv mem refl attempt_step.cancel [OF act] upd] b by simp
  ultimately show ?thesis using st' by (auto simp: attempt_replaced_def)
qed

text \<open>
  C12. A cancelled place is given back at once: the attempt Cancel returns is a row of the
  database that belongs to the caller and is terminal (not purchased), and when the call
  commits nothing of the product is overdue and nobody waits while a unit is free.
\<close>

theorem cancel_releases:
  assumes inv: "db_inv d" and ttl: "0 < rp_invitation_ttl rp"
    and call: "cancel rp env d cmd = (d', Some a, None)"
  shows "a \<in> set (db_attempts d') \<and> qa_user a = cq_user cmd \<and> qa_product a = cq_product cmd \<and>
     is_terminal_state (qa_state a) \<and>
     (\<exists>p\<in>set (db_products d'). pr_id p = cq_product cmd \<and>
        (\<forall>x\<in>set (db_attempts d'). \<not> attempt_eligible (en_clock env) p x))"
proof -
  let ?scope = "latest_scope (cq_user cmd)"
  have "with_locked_product env d (cq_product cmd) ?scope (cancel_body rp env cmd) = Inr (d', Some a, None)"
    using call by (simp add: cancel_def finish_eq_Some)
  then obtain p st' where tx: "tx_inv (begin_tx env d p ?scope)" and pid: "lp_id p = cq_product cmd"
    and body: "cancel_body rp env cmd (begin_tx env d p ?scope) = Inr (st', Some a, None)" and d': "d' = tx_db st'"
    by (rule locked_call [OF inv])
  obtain st1 where rec: "reconcile_locked_product rp env (begin_tx env d p ?scope) = Inr st1"
    using body by (auto simp: cancel_body_def)
  note R = reconciled [OF tx rec]
  have id: "lp_id (tx_product st1) = cq_product cmd" using R(2) pid by simp
  obtain b where b: "latest_attempt_for_user (tx_attempts st1) (cq_user cmd) = Some b"
    using body rec by (auto simp: cancel_body_def split: option.splits)
  have bm: "b \<in> set (tx_attempts st1)" "qa_user b = cq_user cmd"
    using b by (auto simp: latest_attempt_for_user_def dest: find_in_set)
  have bp: "b \<in> set (db_attempts (tx_db st1))" "qa_product b = cq_product cmd"
    using tx_inv_member [OF R(1) bm(1)] id by simp_all
  have cases: "is_terminal_state (qa_state b) \<and> st' = st1 \<and> a = b \<or>
      is_active_state (qa_state b) \<and> (\<exists>st2. transition_to_cancelled st1 b = Inr (st2, a) \<and>
        reconcile_locked_product rp env st2 = Inr st')"
    using body rec b by (auto simp: cancel_body_def is_terminal_state_def split: if_splits)
  have rest: "\<exists>p\<in>set (db_products d'). pr_id p = cq_product cmd \<and>
        (\<forall>x\<in>set (db_attempts d'). \<not> attempt_eligible (en_clock env) p x)"
    if "tx_inv st'" "settled st'" "lp_id (tx_product st') = cq_product cmd" "tx_now st' = en_clock env"
    using settled_rows [OF that(1,2)] that(3,4) d' by simp
  from cases show ?thesis
  proof (elim disjE conjE exE)
    assume c: "is_terminal_state (qa_state b)" "st' = st1" "a = b"
    then show ?thesis
      using rest [unfolded c(2), OF R(1) reconciled_settled [OF tx ttl rec] id] R(4) bm bp d' by simp
  next
    fix st2
    assume act: "is_active_state (qa_state b)" and tr: "transition_to_cancelled st1 b = Inr (st2, a)"
      and rec2: "reconcile_locked_product rp env st2 = Inr st'"
    note T = transition_to_cancelled_Inr [OF R(1) bm(1) act tr]
    then have t2: "tx_inv st2" "lp_id (tx_product st2) = cq_product cmd" and a: "a = set_terminal Cancelled ''cancelled'' (tx_now st1) b"
      using id by (auto simp: op_safe_def)
    have now2: "tx_now st2 = tx_now st1"
      using tr by (auto simp: transition_to_cancelled_def Let_def release_reservation_def split: if_splits)
    note R2 = reconciled [OF t2(1) rec2]
    have "a \<in> set (db_attempts (tx_db st2))" by (rule transition_to_cancelled_row [OF R(1) bm(1) act tr])
    then have "a \<in> set (db_attempts d')"
      using final_row_kept [OF reconcile_frameD(8) [OF reconcile_Inr(2) [OF t2(1) rec2]]] a d'
      by (simp add: set_terminal_def is_active_state_def)
    then show ?thesis
      using rest [OF R2(1) reconciled_settled [OF t2(1) ttl rec2]] R2 R(4) t2(2) now2 a bm bp
      by (simp add: set_terminal_def is_terminal_state_def is_active_state_def)
  qed
qed

lemma cancel_releases_witness:
  "\<exists>a\<in>set (db_attempts (fst demo_cancel)). qa_product a = 7 \<and> is_terminal_state (qa_state a)"
  using cancel_releases [OF demo_db_inv(3) _ demo_calls(1) [unfolded demo_cancel_def]]
  by (auto simp: demo_repo_def demo_cancel_def)

section \<open>Stock adjustments\<close>

lemma find_appended: "find P xs = None \<Longrightarrow> P x \<Longrightarrow> find P (xs @ [x]) = Some x"
  by (induction xs) (auto split: if_splits)

lemma find_stock_adjustment_None:
  "find_stock_adjustment d pid key = Inr None \<longleftrightarrow>
     find (\<lambda>r. ad_product r = pid \<and> ad_key r = key) (db_adjustments d) = None"
  by (auto simp: find_stock_adjustment_def split: option.splits)

lemma inserted_adjustment:
  assumes "insert_adjustment row d = Inr d'" and "find_stock_adjustment d (ad_product row) (ad_key row) = Inr None"
  shows "find (\<lambda>r. ad_product r = ad_product row \<and> ad_key r = ad_key row) (db_adjustments d') = Some row"
    and "db_products d' = db_products d"
  using assms
  by (auto simp: find_stock_adjustment_None insert_adjustment_def sql_insert_Inr intro!: find_appended)

text \<open>A message of the three rejections is found in its own body and not in the others.\<close>

lemma rejection_messages:
  "rejected_adjustment_error (rejected_adjustment_body ErrStockBelowZero) = ErrStockBelowZero"
  "rejected_adjustment_error (rejected_adjustment_body ErrStockBelowReserved) = ErrStockBelowReserved"
  "rejected_adjustment_error (rejected_adjustment_body ErrStockOverflow) = ErrStockOverflow"
  by code_simp+

text \<open>The three ways a call ends with a result.\<close>

lemma adjust_stock_run:
  assumes inv: "db_inv d" and call: "adjust_stock rp env d cmd = (d', Some r, e)"
  obtains digest p where "sa_delta cmd \<noteq> 0" and "canonical_stock_adjustment_hash (en_ext env) cmd = Inr digest"
    and "lock_product d (sa_product cmd) = Inr p" and "tx_inv (begin_tx env d p no_scope)"
    and "lp_id p = sa_product cmd"
    and "\<exists>st'. adjust_stock_body rp env cmd digest (begin_tx env d p no_scope) = Inr (st', Some r, e) \<and> d' = tx_db st'"
proof -
  obtain digest where nz: "sa_delta cmd \<noteq> 0" and h: "canonical_stock_adjustment_hash (en_ext env) cmd = Inr digest"
    and w: "with_locked_product env d (sa_product cmd) no_scope (adjust_stock_body rp env cmd digest) = Inr (d', Some r, e)"
    using call by (auto simp: adjust_stock_def finish_eq_Some split: if_splits)
  show thesis
    by (rule locked_call [OF inv w]) (use that [OF nz h] in blast)
qed

lemma adjust_body_cases:
  assumes "adjust_stock_body rp env cmd digest st = Inr (st', Some r, e)"
  obtains (replay) s where "find_stock_adjustment (tx_db st) (sa_product cmd) (sa_key cmd) = Inr (Some s)"
      and "st_payload_hash s = digest" and "st' = st" and "r = (st_result s)\<lparr>sr_replayed := True\<rparr>"
      and "e = (if st_status s = AdjustmentRejected
            then Some (Sentinel (rejected_adjustment_error (sr_body (st_result s)))) else None)"
  | (reject) x where "find_stock_adjustment (tx_db st) (sa_product cmd) (sa_key cmd) = Inr None"
      and "x \<in> {ErrStockBelowZero, ErrStockOverflow, ErrStockBelowReserved}" and "e = Some (Sentinel x)"
      and "persist_rejected_adjustment env st cmd digest x = Inr (st', Some r, e)"
      and "lp_stock (tx_product st) + sa_delta cmd < lp_reserved (tx_product st) \<or>
           lp_stock (tx_product st) + sa_delta cmd < 0 \<or> lp_stock (tx_product st) + sa_delta cmd > max_int32"
  | (applies) st1 st2 where "find_stock_adjustment (tx_db st) (sa_product cmd) (sa_key cmd) = Inr None"
      and "0 \<le> lp_stock (tx_product st) + sa_delta cmd" and "lp_stock (tx_product st) + sa_delta cmd \<le> max_int32"
      and "lp_reserved (tx_product st) \<le> lp_stock (tx_product st) + sa_delta cmd"
      and "set_stock st (lp_stock (tx_product st) + sa_delta cmd) = Inr st1"
      and "reconcile_locked_product rp env st1 = Inr st2"
      and "record_applied_adjustment env st2 cmd digest (lp_stock (tx_product st))
            (lp_stock (tx_product st) + sa_delta cmd) = Inr (st', Some r, e)"
proof -
  let ?after = "lp_stock (tx_product st) + sa_delta cmd"
  have i: "i32 ?after = ?after" if "0 \<le> ?after" "?after \<le> max_int32"
    using that by (intro i32_id) (auto simp: min_int32_def)
  have rejected: "e = Some (Sentinel x)"
    if "persist_rejected_adjustment env st cmd digest x = Inr (st', Some r, e)" for x
    using that by (auto simp: persist_rejected_adjustment_def draw_uuid_def Let_def split: sum.splits)
  obtain stored where stored: "find_stock_adjustment (tx_db st) (sa_product cmd) (sa_key cmd) = Inr stored"
    using assms by (auto simp: adjust_stock_body_def)
  show thesis
  proof (cases stored)
    case (Some s)
    then show thesis using assms stored replay [of s]
      by (auto simp: adjust_stock_body_def replay_adjustment_def split: if_splits)
  next
    case None
    then show thesis
      using assms stored i reject [of ErrStockBelowZero] reject [of ErrStockOverflow]
        reject [of ErrStockBelowReserved] applies rejected
      by (fastforce simp: adjust_stock_body_def Let_def split: if_splits)
  qed
qed

lemma stored_adjustment_replayed:
  assumes "find (\<lambda>x. ad_product x = sa_product cmd \<and> ad_key x = sa_key cmd) (db_adjustments d) = Some row"
    and "ad_response_status row = Some status" and "ad_payload_hash row = digest"
    and "canonical_stock_adjustment_hash (en_ext env) cmd = Inr digest" and "sa_delta cmd \<noteq> 0"
    and "lock_product d (sa_product cmd) = Inr p"
  shows "adjust_stock rp env d cmd = (d, Some \<lparr>sr_id = ad_id row,
      sr_before = (case ad_before row of None \<Rightarrow> 0 | Some b \<Rightarrow> b), sr_after = (case ad_after row of None \<Rightarrow> 0 | Some b \<Rightarrow> b),
      sr_http_status = status, sr_body = (case ad_response_body row of None \<Rightarrow> [] | Some b \<Rightarrow> b), sr_replayed = True\<rparr>,
      if ad_status row = AdjustmentRejected then Some (Sentinel (rejected_adjustment_error
        (case ad_response_body row of None \<Rightarrow> [] | Some b \<Rightarrow> b))) else None)"
  using assms
  by (simp add: adjust_stock_def with_locked_product_def adjust_stock_body_def find_stock_adjustment_def
      replay_adjustment_def finish_def begin_tx_def)

text \<open>
  C13. A stock adjustment is applied once: whatever the first call answered, an application, a
  rejection or a replay, repeating the command at any later time changes nothing and gives the
  same answer, marked as replayed, with the same error.
\<close>

theorem adjust_stock_idempotent:
  assumes inv: "db_inv d" and call: "adjust_stock rp env d cmd = (d', Some r, e)"
    and ext: "en_ext env' = en_ext env"
  shows "adjust_stock rp' env' d' cmd = (d', Some (r\<lparr>sr_replayed := True\<rparr>), e)"
proof -
  obtain digest p st' where nz: "sa_delta cmd \<noteq> 0"
    and h: "canonical_stock_adjustment_hash (en_ext env') cmd = Inr digest"
    and lock: "lock_product d (sa_product cmd) = Inr p" and tx: "tx_inv (begin_tx env d p no_scope)"
    and pid: "lp_id p = sa_product cmd" and d': "d' = tx_db st'"
    and body: "adjust_stock_body rp env cmd digest (begin_tx env d p no_scope) = Inr (st', Some r, e)"
    using adjust_stock_run [OF inv call] ext by metis
  from body show ?thesis
  proof (cases rule: adjust_body_cases)
    case (replay s)
    then show ?thesis using nz h lock d'
      by (auto simp: adjust_stock_def with_locked_product_def adjust_stock_body_def replay_adjustment_def finish_def)
  next
    case (reject x)
    let ?row = "\<lparr>ad_id = en_uuid env 0, ad_product = sa_product cmd, ad_key = sa_key cmd, ad_delta = sa_delta cmd,
            ad_payload_hash = digest, ad_status = AdjustmentRejected, ad_before = None, ad_after = None,
            ad_response_status = Some 409, ad_response_body = Some (rejected_adjustment_body x),
            ad_completed_at = Some (en_clock env)\<rparr>"
    have ins: "insert_adjustment ?row d = Inr d'" "r = \<lparr>sr_id = en_uuid env 0, sr_before = 0, sr_after = 0,
        sr_http_status = 409, sr_body = rejected_adjustment_body x, sr_replayed = False\<rparr>"
      using reject(4) d' by (auto simp: persist_rejected_adjustment_def draw_uuid_def Let_def begin_tx_def split: sum.splits)
    note I = inserted_adjustment [OF ins(1)]
    have "lock_product d' (sa_product cmd) = Inr p" using lock I(2) reject(1) by (simp add: lock_product_def)
    from stored_adjustment_replayed [OF _ _ _ h nz this, of ?row 409] I(1) reject(1-3) ins(2) rejection_messages
    show ?thesis by auto
  next
    case (applies st1 st2)
    let ?after = "lp_stock p + sa_delta cmd"
    let ?row = "\<lparr>ad_id = en_uuid env (tx_draws st2), ad_product = sa_product cmd, ad_key = sa_key cmd,
            ad_delta = sa_delta cmd, ad_payload_hash = digest, ad_status = AdjustmentApplied,
            ad_before = Some (lp_stock p), ad_after = Some ?after, ad_response_status = Some 200,
            ad_response_body = Some (applied_adjustment_body (lp_stock p) ?after),
            ad_completed_at = Some (tx_now st2)\<rparr>"
    have ins: "insert_adjustment ?row (tx_db st2) = Inr d'" "e = None"
      "r = \<lparr>sr_id = en_uuid env (tx_draws st2), sr_before = lp_stock p, sr_after = ?after, sr_http_status = 200,
        sr_body = applied_adjustment_body (lp_stock p) ?after, sr_replayed = False\<rparr>"
      using applies(7) d' by (auto simp: record_applied_adjustment_def draw_uuid_def Let_def)
    have S: "tx_inv st1" "lp_id (tx_product st1) = sa_product cmd"
      using set_stock_Inr(1,3) [OF tx _ _ applies(5)] applies(3,4) pid by simp_all
    have "db_adjustments (tx_db st1) = db_adjustments d"
      using applies(5) by (auto simp: set_stock_def update_products_def Let_def)
    then have fresh: "find_stock_adjustment (tx_db st2) (sa_product cmd) (sa_key cmd) = Inr None"
      using applies(1) reconcile_frameD(7) [OF reconcile_Inr(2) [OF S(1) applies(6)]]
      by (simp add: find_stock_adjustment_None)
    note R = reconciled [OF S(1) applies(6)] and I = inserted_adjustment [OF ins(1)]
    have "lock_product d' (sa_product cmd) = Inr (tx_product st2)"
      using R(1,2) S(2) I(2) fresh by (simp add: tx_inv_def lock_product_def)
    from stored_adjustment_replayed [OF _ _ _ h nz this, of ?row 200] I(1) fresh ins(2,3)
    show ?thesis by auto
  qed
qed

lemma adjust_stock_idempotent_witness:
  "adjust_stock demo_repo (demo_env 8) (fst demo_adjust) demo_delivery =
     (fst demo_adjust, Some ((the (fst (snd demo_adjust)))\<lparr>sr_replayed := True\<rparr>), None)"
  by (rule adjust_stock_idempotent [OF demo_db_inv(3) demo_calls(3) [unfolded demo_adjust_def], folded demo_adjust_def])
     (simp add: demo_env_def)

lemma stock_of_locked: "lock_product d pid = Inr p \<Longrightarrow> stock_of pid (db_products d) = lp_stock p"
  by (auto simp: lock_product_def stock_of_def split: option.splits)

text \<open>
  C14. An adjustment does what it answers: an application reports the stock before and after,
  which differ by the delta and leave room for the reservations, and the product then has that
  stock; a rejection happens only when the new stock would fall below the reserved units or
  leave the 32-bit range, and changes neither products nor attempts.
\<close>

theorem adjust_stock_effect:
  assumes inv: "db_inv d" and call: "adjust_stock rp env d cmd = (d', Some r, e)" and first: "\<not> sr_replayed r"
  shows "\<exists>p\<in>set (db_products d). pr_id p = sa_product cmd \<and>
     (if e = None
      then sr_before r = pr_stock p \<and> sr_after r = pr_stock p + sa_delta cmd \<and> pr_reserved p \<le> sr_after r \<and>
           sr_after r \<le> max_int32 \<and> stock_of (sa_product cmd) (db_products d') = sr_after r
      else db_products d' = db_products d \<and> db_attempts d' = db_attempts d \<and>
           (pr_stock p + sa_delta cmd < pr_reserved p \<or> max_int32 < pr_stock p + sa_delta cmd))"
proof -
  obtain digest lp st' where lock: "lock_product d (sa_product cmd) = Inr lp"
    and tx: "tx_inv (begin_tx env d lp no_scope)" and pid: "lp_id lp = sa_product cmd" and d': "d' = tx_db st'"
    and body: "adjust_stock_body rp env cmd digest (begin_tx env d lp no_scope) = Inr (st', Some r, e)"
    using adjust_stock_run [OF inv call] by metis
  obtain p where p: "p \<in> set (db_products d)" "lp = locked_of_row p" "product_ok p"
    using tx_inv_row [OF tx] by (metis begin_tx_simps(1,2) in_set_conv_decomp)
  have id: "pr_id p = sa_product cmd" using p(2) pid by simp
  from body show ?thesis
  proof (cases rule: adjust_body_cases)
    case (replay s)
    then show ?thesis using first by simp
  next
    case (reject x)
    have "db_products d' = db_products d \<and> db_attempts d' = db_attempts d"
      using reject(4) d' by (auto simp: persist_rejected_adjustment_def draw_uuid_def Let_def
          insert_adjustment_def split: sum.splits)
    then show ?thesis using reject(3,5) p id by (intro bexI [of _ p]) (auto simp: product_ok_def)
  next
    case (applies st1 st2)
    have ins: "e = None" "sr_before r = lp_stock lp" "sr_after r = lp_stock lp + sa_delta cmd"
      "db_products d' = db_products (tx_db st2)"
      using applies(7) d' by (auto simp: record_applied_adjustment_def draw_uuid_def Let_def insert_adjustment_def)
    have S: "tx_inv st1" "lp_id (tx_product st1) = sa_product cmd"
      using set_stock_Inr(1,3) [OF tx _ _ applies(5)] applies(3,4) pid by simp_all
    have "lp_stock (tx_product st1) = lp_stock lp + sa_delta cmd"
      using applies(5) by (auto simp: set_stock_def Let_def)
    moreover note R = reconciled [OF S(1) applies(6)]
    moreover have "stock_of (sa_product cmd) (db_products (tx_db st2)) = lp_stock (tx_product st2)"
      by (rule stock_of_locked) (use R(1,2) S(2) in \<open>simp add: tx_inv_def\<close>)
    ultimately show ?thesis using ins applies(3,4) p id by (intro bexI [of _ p]) auto
  qed
qed

lemma adjust_stock_effect_witness:
  "stock_of 7 (db_products (fst demo_adjust)) = sr_after (the (fst (snd demo_adjust))) \<and>
   sr_after (the (fst (snd demo_adjust))) = sr_before (the (fst (snd demo_adjust))) + 3"
proof -
  have "\<not> sr_replayed (the (fst (snd demo_adjust)))" by code_simp
  from adjust_stock_effect [OF demo_db_inv(3) demo_calls(3) [unfolded demo_adjust_def], folded demo_adjust_def, OF this]
  show ?thesis by (auto simp: demo_delivery_def)
qed

section \<open>Isolation of products\<close>

lemma core_frame_others:
  assumes "core_frame pid d d'" and "q \<noteq> pid"
  shows "filter (\<lambda>a. qa_product a = q) (db_attempts d') = filter (\<lambda>a. qa_product a = q) (db_attempts d)"
    and "filter (\<lambda>p. pr_id p = q) (db_products d') = filter (\<lambda>p. pr_id p = q) (db_products d)"
proof -
  obtain u new where u: "db_attempts d' = u @ new" "rows_evolve_at pid (db_attempts d) u" "\<forall>a\<in>set new. qa_product a = pid"
    using assms(1) by (auto simp: core_frame_def attempts_evolve_def)
  have "filter (\<lambda>a. qa_product a = q) u = filter (\<lambda>a. qa_product a = q) (db_attempts d)"
    using u(2) unfolding rows_evolve_at_def
  proof (induction rule: list_all2_induct)
    case (Cons a as b bs)
    then have "qa_product b = qa_product a" using attempt_evolves_ident by (fastforce simp: attempt_ident_def)
    with Cons show ?case using assms(2) by auto
  qed simp
  moreover have "filter (\<lambda>a. qa_product a = q) new = []" using u(3) assms(2) by (auto simp: filter_empty_conv)
  ultimately show "filter (\<lambda>a. qa_product a = q) (db_attempts d') = filter (\<lambda>a. qa_product a = q) (db_attempts d)"
    using u(1) by simp
  have "list_all2 (product_evolves pid) (db_products d) (db_products d')" using assms(1) by (simp add: core_frame_def)
  then show "filter (\<lambda>p. pr_id p = q) (db_products d') = filter (\<lambda>p. pr_id p = q) (db_products d)"
  proof (induction rule: list_all2_induct)
    case (Cons a as b bs)
    then have "pr_id b = pr_id a" "pr_id a \<noteq> pid \<longrightarrow> b = a" by (auto simp: product_evolves_def)
    with Cons show ?case using assms(2) by auto
  qed simp
qed

lemma adjust_stock_frame:
  assumes "db_inv d"
  shows "fst (adjust_stock rp env d cmd) = d \<or> core_frame (sa_product cmd) d (fst (adjust_stock rp env d cmd))"
  using adjust_stock_op.call(2) [OF assms]
  by (cases "canonical_stock_adjustment_hash (en_ext env) cmd") (auto simp: adjust_stock_def finish_def)

text \<open>
  C15. Products do not interfere: joining, cancelling, looking up the current attempt or
  adjusting the stock of one product leaves the row and all attempts of every other product
  exactly as they were, whether the call succeeds or fails.
\<close>

theorem calls_are_isolated:
  assumes inv: "db_inv d" and other: "q \<noteq> pid"
    and target: "jq_product j = pid" "cq_product c = pid" "sa_product s = pid"
    and call: "d' \<in> {fst (join rp env d j), fst (cancel rp env d c), fst (find_current rp env d pid user),
                 fst (adjust_stock rp env d s)}"
  shows "filter (\<lambda>a. qa_product a = q) (db_attempts d') = filter (\<lambda>a. qa_product a = q) (db_attempts d) \<and>
     filter (\<lambda>p. pr_id p = q) (db_products d') = filter (\<lambda>p. pr_id p = q) (db_products d)"
proof -
  have "d' = d \<or> core_frame pid d d'"
    using call target join_op.call(2) [OF inv] cancel_op.call(2) [OF inv]
      find_current_op.call(2) [OF inv] adjust_stock_frame [OF inv, of rp env s]
    by (auto simp: join_def cancel_def find_current_def)
  then show ?thesis using core_frame_others [OF _ other] by auto
qed

lemma calls_are_isolated_witness:
  "filter (\<lambda>a. qa_product a = 5) (db_attempts (fst demo_adjust)) = filter (\<lambda>a. qa_product a = 5) (db_attempts demo_two)"
  using calls_are_isolated [OF demo_db_inv(3), of 5 7 "demo_join 2" "\<lparr>cq_product = 7, cq_user = []\<rparr>" demo_delivery
      "fst demo_adjust" demo_repo "demo_env 5"]
  by (simp add: demo_join_def demo_delivery_def demo_adjust_def)

end
