(* ===== verification/Payment_Properties.thy ===== *)
theory Payment_Properties
  imports Queue_Properties
begin

text \<open>
  The payment inbox as its callers see it: a claim excludes others while its lease holds and is
  fenced off by the next one, a finished event is answered from its stored response, a reused
  event identifier with other contents is refused, and a successful payment ends as a purchase
  or as a compensation request. Each has an instance on the store of \<open>Example\<close>.
\<close>

section \<open>The row behind a claim\<close>

lemma insert_inbox_once_present:
  assumes "insert_inbox_once row d = Inr d'" and "r \<in> set (db_inbox d)" and "inbox_key r = inbox_key row"
  shows "d' = d"
proof -
  have "list_ex (\<lambda>q. ib_provider q = ib_provider row \<and> ib_event_id q = ib_event_id row) (db_inbox d)"
    using assms(2,3) by (auto simp: list_ex_iff inbox_key_def)
  moreover have "inbox_violation row (db_inbox d) \<noteq> None"
    using calculation by (auto simp: inbox_violation_def)
  ultimately show ?thesis using assms(1) by (auto simp: insert_inbox_once_def sql_insert_Inr split: if_splits)
qed

lemma lock_stored_payment_row:
  assumes "inbox_inv (db_inbox d)" and "r \<in> set (db_inbox d)"
  shows "lock_stored_payment d (ib_provider r) (ib_event_id r) = Inr r"
proof -
  have "distinct (map inbox_key (db_inbox d))" using assms(1) by (simp add: inbox_inv_def)
  then have "find (\<lambda>q. inbox_key q = inbox_key r) (db_inbox d) = Some r" by (rule find_unique [OF _ assms(2)])
  then show ?thesis by (simp add: lock_stored_payment_def inbox_key_def)
qed

lemma inbox_row_unique:
  assumes "inbox_inv t" and "r \<in> set t" and "q \<in> set t" and "ib_id r = ib_id q"
  shows "r = q"
  using assms by (auto simp: inbox_inv_def distinct_map inj_on_def)

lemma claimed_row:
  assumes inv: "db_inv d" and call: "claim_payment env d cmd = (d', Some (Claimed c), e)"
  obtains r where "r \<in> set (db_inbox d')" and "ib_id r = cl_inbox c" and "cl_command c = cmd"
    and "inbox_key r = (pc_provider cmd, pc_event_id cmd)"
    and "canonical_payment_hash (en_ext env) cmd = Inr (ib_payload_hash r)"
    and "ib_claim_generation r = cl_generation c" and "ib_status r = InboxProcessing"
    and "ib_lease_until r = Some (en_clock env + payment_claim_lease)"
    and "\<And>q. q \<in> set (db_inbox d) \<Longrightarrow> ib_id q = cl_inbox c \<Longrightarrow> ib_claim_generation q < cl_generation c"
proof -
  obtain digest where digest: "canonical_payment_hash (en_ext env) cmd = Inr digest"
    and tx: "claim_payment_tx env d cmd digest = Inr (d', Some (Claimed c), e)"
    using call by (auto simp: claim_payment_def finish_eq_Some)
  obtain d1 stored where ins: "insert_inbox_once (new_inbox_row (en_uuid env 0) cmd
        (canonical_payment_payload (en_ext env) cmd) digest (en_stmt_clock env)) d = Inr d1"
    and st: "lock_stored_payment d1 (pc_provider cmd) (pc_event_id cmd) = Inr stored"
    and free: "answer_without_claim (en_clock env) digest stored = None"
    using tx by (auto simp: claim_payment_tx_def Let_def split: option.splits)
  let ?f = "set_claimed (en_uuid env 1) (i64 (ib_claim_generation stored + 1)) (en_clock env)"
  have upd: "update_inbox (\<lambda>r. ib_id r = ib_id stored \<and> ib_payload_hash r = digest) ?f d1 = Inr (d', Suc 0)"
    and c: "c = \<lparr>cl_inbox = ib_id stored, cl_token = en_uuid env 1,
      cl_generation = i64 (ib_claim_generation stored + 1), cl_payload_hash = digest, cl_command = cmd\<rparr>"
    using tx ins st free by (auto simp: claim_payment_tx_def Let_def)
  have s1: "sound_step d d1" by (rule insert_inbox_once_keeps [OF inv ins])
  then have inv1: "inbox_inv (db_inbox d1)" by (simp add: sound_step_def db_inv_def)
  obtain pre r post where t: "db_inbox d1 = pre @ r # post" "ib_id r = ib_id stored" "ib_payload_hash r = digest"
    and d': "d' = d1\<lparr>db_inbox := pre @ ?f r # post\<rparr>" and ch: "inbox_checks (?f r)"
    by (rule update_inbox_one [OF inv1 _ upd]) auto
  have mem: "stored \<in> set (db_inbox d1)" and key: "inbox_key stored = (pc_provider cmd, pc_event_id cmd)"
    using st by (auto simp: lock_stored_payment_def inbox_key_def split: option.splits dest: find_in_set)
  have r: "r = stored" by (rule inbox_row_unique [OF inv1]) (use mem t in auto)
  have "0 \<le> ib_claim_generation stored" "ib_claim_generation stored \<le> max_int64"
    using mem inv1 by (auto simp: inbox_inv_def inbox_checks_def)
  moreover have "0 \<le> i64 (ib_claim_generation stored + 1)" using ch by (simp add: inbox_checks_def set_claimed_def)
  ultimately have gen: "i64 (ib_claim_generation stored + 1) = ib_claim_generation stored + 1" by (intro i64_next)
  have old: "ib_claim_generation q < cl_generation c" if q: "q \<in> set (db_inbox d)" "ib_id q = cl_inbox c" for q
  proof -
    obtain q' where q': "q' \<in> set (db_inbox d1)" "inbox_row_evolves q q'"
      using forward_row [OF _ q(1)] s1 by (auto simp: sound_step_def inbox_evolves_def)
    then have "q' = stored"
      using inbox_row_unique [OF inv1 q'(1) mem] q(2) c inbox_row_evolvesD(1) [OF q'(2)] by (simp add: inbox_ident_def)
    then show ?thesis using inbox_row_evolvesD(2) [OF q'(2)] gen c by simp
  qed
  show thesis
    by (rule that [of "?f stored"])
       (use d' c t(3) key digest old r in \<open>auto simp: set_claimed_def inbox_key_def\<close>)
qed

lemma later_row:
  assumes "reachable rp d d'" and "store_inv d" and "r \<in> set (db_inbox d)"
  obtains r' where "r' \<in> set (db_inbox d')" and "inbox_row_evolves r r'"
  using forward_row [OF _ assms(3)] reachable_sound [OF assms(1,2)]
  by (auto simp: sound_step_def inbox_evolves_def)

section \<open>Fencing\<close>

lemma stale_claim_rejected:
  assumes inv: "db_inv d" and r: "r \<in> set (db_inbox d)" "ib_id r = cl_inbox claim"
    and stale: "ib_claim_generation r \<noteq> cl_generation claim"
  shows "lock_and_validate_payment_claim ext d claim = Inl (Sentinel ErrStaleClaim)"
    and "retry_payment_claim env d claim err = (d, Some (Sentinel ErrStaleClaim))"
proof -
  have dist: "distinct (map ib_id (db_inbox d))" using db_invD(5) [OF inv] by (simp add: inbox_inv_def)
  have "find (\<lambda>q. ib_id q = ib_id r) (db_inbox d) = Some r" by (rule find_unique [OF dist r(1)])
  then show "lock_and_validate_payment_claim ext d claim = Inl (Sentinel ErrStaleClaim)"
    using r(2) stale by (simp add: lock_and_validate_payment_claim_def claim_holds_def)
  have "\<forall>q\<in>set (db_inbox d). \<not> held_by claim q"
    using inbox_row_unique [OF db_invD(5) [OF inv] r(1)] r(2) stale by (auto simp: held_by_def)
  then show "retry_payment_claim env d claim err = (d, Some (Sentinel ErrStaleClaim))"
    by (simp add: retry_payment_claim_def update_inbox_def sql_update_none)
qed

lemma process_stale_claim:
  assumes "\<And>ext claim'. cl_inbox claim' = cl_inbox claim \<Longrightarrow> cl_generation claim' = cl_generation claim \<Longrightarrow>
      lock_and_validate_payment_claim ext d claim' = Inl (Sentinel ErrStaleClaim)"
  shows "\<exists>e. process_payment_claim rp env env' d claim = (d, None, Some e)"
proof -
  have locked: "\<exists>s. process_claim_for_product rp env1 d pid valid force = Inl (Sentinel s)"
    if "cl_inbox valid = cl_inbox claim" "cl_generation valid = cl_generation claim" for env1 pid valid force
    using assms [OF that]
    by (auto simp: process_claim_for_product_def with_locked_product_def process_claim_body_def bindE_def
        lock_product_def split: option.splits)
  show ?thesis
  proof (cases "validate_payment_claim (en_ext env) claim")
    case (Inl e)
    then show ?thesis by (simp add: process_payment_claim_def finish_def)
  next
    case (Inr valid)
    then have v: "cl_inbox valid = cl_inbox claim" "cl_generation valid = cl_generation claim"
      by (auto simp: validate_payment_claim_def split: if_splits)
    show ?thesis
    proof (cases "find_attempt_product d (pc_attempt (cl_command valid))")
      case (Inl e)
      then show ?thesis using Inr assms [OF v]
        by (simp add: process_payment_claim_def finalize_payment_without_product_def finish_def)
    next
      case (Inr pid)
      obtain s where "process_claim_for_product rp env d pid valid False = Inl (Sentinel s)"
        using locked [OF v] by blast
      then show ?thesis using Inr \<open>validate_payment_claim (en_ext env) claim = Inr valid\<close>
        by (simp add: process_payment_claim_def finish_def is_accepted_payment_reference_conflict_def)
    qed
  qed
qed

lemma fenced_claim:
  assumes inv: "store_inv d"
    and first: "claim_payment env1 d cmd1 = (d1, Some (Claimed old), e1)" and "reachable rp d1 d2"
    and second: "claim_payment env2 d2 cmd2 = (d3, Some (Claimed new), e2)" and "reachable rp d3 d4"
    and same: "cl_inbox old = cl_inbox new"
  shows "(\<exists>e. process_payment_claim rp env env' d4 old = (d4, None, Some e)) \<and>
     retry_payment_claim env d4 old err = (d4, Some (Sentinel ErrStaleClaim))"
proof -
  have i1: "store_inv d1"
    using sound_step_store_inv [OF inv] claim_payment_sound [of d env1 cmd1] inv first by (simp add: store_inv_def)
  have i2: "store_inv d2" using reachable_sound [OF \<open>reachable rp d1 d2\<close> i1] by blast
  have i3: "store_inv d3"
    using sound_step_store_inv [OF i2] claim_payment_sound [of d2 env2 cmd2] i2 second by (simp add: store_inv_def)
  have i4: "store_inv d4" using reachable_sound [OF \<open>reachable rp d3 d4\<close> i3] by blast
  obtain r where r: "r \<in> set (db_inbox d1)" "ib_id r = cl_inbox old" "ib_claim_generation r = cl_generation old"
    by (rule claimed_row [OF _ first]) (use inv in \<open>auto simp: store_inv_def\<close>)
  obtain r' where r': "r' \<in> set (db_inbox d2)" "inbox_row_evolves r r'" by (rule later_row [OF assms(3) i1 r(1)])
  have "ib_id r' = cl_inbox new" using inbox_row_evolvesD(1) [OF r'(2)] r(2) same by (simp add: inbox_ident_def)
  then obtain q where q: "q \<in> set (db_inbox d3)" "ib_id q = cl_inbox new" "ib_claim_generation q = cl_generation new"
      "cl_generation old < cl_generation new"
    using claimed_row [OF _ second] i2 r' inbox_row_evolvesD(2) [OF r'(2)] r(3)
    by (metis order.strict_trans1 store_inv_def)
  obtain q' where q': "q' \<in> set (db_inbox d4)" "inbox_row_evolves q q'" by (rule later_row [OF assms(5) i3 q(1)])
  have "ib_id q' = cl_inbox old" "ib_claim_generation q' \<noteq> cl_generation old"
    using inbox_row_evolvesD(1,2) [OF q'(2)] q(2-4) same by (simp_all add: inbox_ident_def)
  note stale = stale_claim_rejected [OF _ q'(1)] and i = i4 [unfolded store_inv_def]
  show ?thesis
  proof (intro conjI)
    show "\<exists>e. process_payment_claim rp env env' d4 old = (d4, None, Some e)"
      by (rule process_stale_claim)
         (use stale(1) i \<open>ib_id q' = cl_inbox old\<close> \<open>ib_claim_generation q' \<noteq> cl_generation old\<close> in auto)
    show "retry_payment_claim env d4 old err = (d4, Some (Sentinel ErrStaleClaim))"
      using stale(2) i \<open>ib_id q' = cl_inbox old\<close> \<open>ib_claim_generation q' \<noteq> cl_generation old\<close> by blast
  qed
qed

text \<open>The example again: the lease of the first claim has run out and the event is claimed anew.\<close>

definition demo_reclaim :: "db \<times> payment_claim_result go_return" where
  "demo_reclaim = claim_payment ((demo_env 9)\<lparr>en_clock := 40000000\<rparr>) demo_claimed demo_payment"

fun claim_in :: "db \<times> payment_claim_result go_return \<Rightarrow> payment_claim option" where
  "claim_in (d, Some (Claimed c), None) = Some c"
| "claim_in r = None"

lemma claim_in_Some: "claim_in r = Some c \<longleftrightarrow> r = (fst r, Some (Claimed c), None)"
  by (cases r rule: claim_in.cases) auto

lemma demo_claim_call: "claim_payment (demo_env 3) demo_two demo_payment = (demo_claimed, Some (Claimed demo_claim), None)"
proof -
  have "\<not> Option.is_none (claim_in (claim_payment (demo_env 3) demo_two demo_payment))" by code_simp
  then obtain c where "claim_in (claim_payment (demo_env 3) demo_two demo_payment) = Some c"
    by (auto simp: Option.is_none_def)
  note c = this [unfolded claim_in_Some]
  then have "demo_claim = c" unfolding demo_claim_def
    by (cases "claim_payment (demo_env 3) demo_two demo_payment") auto
  then show ?thesis using c by (simp add: demo_claimed_def)
qed

lemma demo_reclaim_call:
  obtains c where "demo_reclaim = (fst demo_reclaim, Some (Claimed c), None)" and "cl_inbox c = cl_inbox demo_claim"
proof -
  have "map_option cl_inbox (claim_in demo_reclaim) = Some (cl_inbox demo_claim)" by code_simp
  then obtain c where "claim_in demo_reclaim = Some c" "cl_inbox c = cl_inbox demo_claim" by auto
  then show thesis using that claim_in_Some by blast
qed

section \<open>Answers without a new claim\<close>

lemma new_inbox_row_checks:
  "inbox_checks (new_inbox_row i cmd payload digest t) = inbox_checks (new_inbox_row j cmd payload' digest t')"
  by (simp add: inbox_checks_def new_inbox_row_def)

lemma insert_inbox_once_checks: "insert_inbox_once row d = Inr d' \<Longrightarrow> inbox_checks row"
  by (auto simp: insert_inbox_once_def sql_insert_Inr inbox_violation_def split: if_splits)

lemma claim_payment_checks:
  assumes "claim_payment env d cmd = (d', Some x, e)"
  obtains digest where "canonical_payment_hash (en_ext env) cmd = Inr digest"
    and "inbox_checks (new_inbox_row 0 cmd [] digest 0)"
proof -
  obtain digest where digest: "canonical_payment_hash (en_ext env) cmd = Inr digest"
    and tx: "claim_payment_tx env d cmd digest = Inr (d', Some x, e)"
    using assms by (auto simp: claim_payment_def finish_eq_Some)
  obtain d1 where "insert_inbox_once (new_inbox_row (en_uuid env 0) cmd
        (canonical_payment_payload (en_ext env) cmd) digest (en_stmt_clock env)) d = Inr d1"
    using tx by (auto simp: claim_payment_tx_def Let_def)
  from insert_inbox_once_checks [OF this] show thesis
    using that [OF digest] new_inbox_row_checks by blast
qed

lemma answered:
  assumes "inbox_inv (db_inbox d)" and "r \<in> set (db_inbox d)" and "inbox_key r = (pc_provider cmd, pc_event_id cmd)"
    and "canonical_payment_hash (en_ext env) cmd = Inr digest"
    and "inbox_checks (new_inbox_row 0 cmd [] digest 0)"
    and "answer_without_claim (en_clock env) digest r = Some response"
  shows "claim_payment env d cmd = (d, Some (Responded response), None)"
proof -
  let ?row = "new_inbox_row (en_uuid env 0) cmd (canonical_payment_payload (en_ext env) cmd) digest (en_stmt_clock env)"
  have "list_ex (\<lambda>q. ib_provider q = ib_provider ?row \<and> ib_event_id q = ib_event_id ?row) (db_inbox d)"
    using assms(2,3) by (auto simp: list_ex_iff inbox_key_def new_inbox_row_def)
  moreover have "inbox_checks ?row" using assms(5) new_inbox_row_checks by blast
  ultimately have "insert_inbox_once ?row d = Inr d" by (simp add: insert_inbox_once_def)
  moreover have "lock_stored_payment d (pc_provider cmd) (pc_event_id cmd) = Inr r"
    using lock_stored_payment_row [OF assms(1,2)] assms(3) by (simp add: inbox_key_def)
  ultimately show ?thesis
    using assms(4,6) by (simp add: claim_payment_def claim_payment_tx_def Let_def finish_def)
qed

lemma running_claim_excludes:
  assumes inv: "db_inv d" and first: "claim_payment env d cmd = (d1, Some (Claimed c), e)"
    and ext: "en_ext env' = en_ext env" and lease: "en_clock env' < en_clock env + payment_claim_lease"
  shows "claim_payment env' d1 cmd =
     (d1, Some (Responded (payment_result_of (cl_inbox c) 202 ''processing'' False)), None)"
proof -
  obtain r where r: "r \<in> set (db_inbox d1)" "ib_id r = cl_inbox c" "inbox_key r = (pc_provider cmd, pc_event_id cmd)"
      "canonical_payment_hash (en_ext env) cmd = Inr (ib_payload_hash r)" "ib_status r = InboxProcessing"
      "ib_lease_until r = Some (en_clock env + payment_claim_lease)"
    by (rule claimed_row [OF inv first]) auto
  obtain digest where ok: "canonical_payment_hash (en_ext env) cmd = Inr digest"
      "inbox_checks (new_inbox_row 0 cmd [] digest 0)" by (rule claim_payment_checks [OF first])
  have "sound_step d d1" using claim_payment_sound [OF inv, of env cmd] first by simp
  then have "inbox_inv (db_inbox d1)" by (simp add: sound_step_def db_inv_def)
  then show ?thesis
    by (rule answered [OF _ r(1,3), where digest = digest])
       (use ok r ext lease in \<open>simp_all add: answer_without_claim_def\<close>)
qed

text \<open>
  C16. One worker at a time, and never a stale one: while the lease of a claim runs, another
  delivery of the same event, whatever clock and identifiers it brings, is answered 202
  \<open>processing\<close> and changes nothing; and once the event has been claimed again, however much
  happened before and after, applying or retrying the older claim fails and leaves the database
  exactly as it is.
\<close>

theorem payment_claim_fenced:
  assumes inv: "store_inv d"
    and first: "claim_payment env1 d cmd1 = (d1, Some (Claimed old), e1)" and between: "reachable rp d1 d2"
    and second: "claim_payment env2 d2 cmd2 = (d3, Some (Claimed new), e2)" and later: "reachable rp d3 d4"
    and same: "cl_inbox old = cl_inbox new"
  shows "(\<forall>env'. en_ext env' = en_ext env1 \<and> en_clock env' < en_clock env1 + payment_claim_lease \<longrightarrow>
        claim_payment env' d1 cmd1 =
          (d1, Some (Responded (payment_result_of (cl_inbox old) 202 ''processing'' False)), None)) \<and>
     (\<exists>e. process_payment_claim rp env env' d4 old = (d4, None, Some e)) \<and>
     retry_payment_claim env d4 old err = (d4, Some (Sentinel ErrStaleClaim))"
  using running_claim_excludes [OF _ first] fenced_claim [OF assms] inv by (simp add: store_inv_def)

lemma payment_claim_fenced_witness:
  "claim_payment (demo_env 8) demo_claimed demo_payment =
     (demo_claimed, Some (Responded (payment_result_of (cl_inbox demo_claim) 202 ''processing'' False)), None) \<and>
   (\<exists>e. process_payment_claim demo_repo (demo_env 10) (demo_env 11) (fst demo_reclaim) demo_claim =
     (fst demo_reclaim, None, Some e))"
proof -
  obtain c where c: "demo_reclaim = (fst demo_reclaim, Some (Claimed c), None)" "cl_inbox c = cl_inbox demo_claim"
    by (rule demo_reclaim_call)
  note fenced = payment_claim_fenced [OF demo_inv(3) demo_claim_call reachable_start
        c(1) [unfolded demo_reclaim_def] reachable_start c(2) [symmetric], folded demo_reclaim_def,
        where rp = demo_repo and env = "demo_env 10" and env' = "demo_env 11"]
  have "en_ext (demo_env 8) = en_ext (demo_env 3)" "en_clock (demo_env 8) < en_clock (demo_env 3) + payment_claim_lease"
    by (simp_all add: demo_env_def payment_claim_lease_def)
  then show ?thesis using fenced by blast
qed

text \<open>
  C17. An event identifier is bound to its first contents: once an event has been claimed, a
  different command under the same provider and event identifier is answered 409
  \<open>event_conflict\<close> in every later database and changes nothing, unless SHA-256 maps the two
  canonical encodings to one digest.
\<close>

theorem payment_event_conflict:
  assumes inv: "store_inv d" and first: "claim_payment env d cmd = (d1, Some (Claimed c), e)"
    and later: "reachable rp d1 d2" and ext: "en_ext env' = en_ext env"
    and event: "pc_provider cmd' = pc_provider cmd" "pc_event_id cmd' = pc_event_id cmd" and other: "cmd' \<noteq> cmd"
    and stored: "canonical_payment_hash (en_ext env) cmd' = Inr digest'"
      "inbox_checks (new_inbox_row 0 cmd' [] digest' 0)"
    and hash: "no_collision (en_ext env) (frame_fields (payment_fields (en_ext env) cmd'))
        (frame_fields (payment_fields (en_ext env) cmd))" "uuid_text_injective (en_ext env)"
  shows "claim_payment env' d2 cmd' =
     (d2, Some (Responded (payment_result_of (cl_inbox c) 409 ''event_conflict'' False)), None)"
proof -
  have i1: "store_inv d1"
    using sound_step_store_inv [OF inv] claim_payment_sound [of d env cmd] inv first by (simp add: store_inv_def)
  then have i2: "inbox_inv (db_inbox d2)"
    using reachable_sound [OF later] by (simp add: store_inv_def db_inv_def)
  obtain r where r: "r \<in> set (db_inbox d1)" "ib_id r = cl_inbox c" "inbox_key r = (pc_provider cmd, pc_event_id cmd)"
      "canonical_payment_hash (en_ext env) cmd = Inr (ib_payload_hash r)"
    by (rule claimed_row [OF _ first]) (use inv in \<open>auto simp: store_inv_def\<close>)
  obtain r2 where r2: "r2 \<in> set (db_inbox d2)" "inbox_row_evolves r r2" by (rule later_row [OF later i1 r(1)])
  then have id: "ib_id r2 = cl_inbox c" "inbox_key r2 = (pc_provider cmd', pc_event_id cmd')"
      "ib_payload_hash r2 = ib_payload_hash r"
    using inbox_row_evolvesD(1) [OF r2(2)] r(2,3) event by (simp_all add: inbox_ident_def inbox_key_def)
  have "ib_payload_hash r \<noteq> digest'"
  proof
    assume "ib_payload_hash r = digest'"
    then have "payment_fields (en_ext env) cmd' = payment_fields (en_ext env) cmd"
      using canonical_hash_fields [OF _ _ hash(1)] r(4) stored(1) by (simp add: canonical_payment_hash_def)
    then show False using payment_fields_inj [OF _ hash(2)] other by blast
  qed
  then show ?thesis
    by (intro answered [OF i2 r2(1) id(2), where digest = digest'])
       (use stored ext id in \<open>simp_all add: answer_without_claim_def\<close>)
qed

definition demo_failure :: payment_command where
  "demo_failure = demo_payment\<lparr>pc_outcome := PaymentFailed, pc_reference := []\<rparr>"

lemma to_lower_digits: "(\<forall>c\<in>set s. is_digit c) \<Longrightarrow> to_lower s = s"
  by (induction s) (auto simp: to_lower_def is_upper_def is_digit_def)

lemma demo_uuid_injective: "uuid_text_injective demo_externals"
  by (auto simp: uuid_text_injective_def demo_externals_def inj_def to_lower_digits [OF show_nat_digits] show_nat_inj word_unat_eq_iff)

lemma payment_event_conflict_witness:
  "claim_payment (demo_env 8) demo_sold demo_failure =
     (demo_sold, Some (Responded (payment_result_of (cl_inbox demo_claim) 409 ''event_conflict'' False)), None)"
proof (rule payment_event_conflict [OF demo_inv(3) demo_claim_call])
  show "reachable demo_repo demo_claimed demo_sold"
    unfolding demo_sold_def by (rule reachable_step [OF reachable_start step_apply_payment])
  show "demo_failure \<noteq> demo_payment" by (auto simp: demo_failure_def demo_payment_def dest: arg_cong [where f = pc_outcome])
  show "canonical_payment_hash (en_ext (demo_env 3)) demo_failure =
      Inr (take 32 (frame_fields (payment_fields demo_externals demo_failure)))" by code_simp
  show "inbox_checks (new_inbox_row 0 demo_failure [] (take 32 (frame_fields (payment_fields demo_externals demo_failure))) 0)"
    by code_simp
  have "ext_sha256 demo_externals (frame_fields (payment_fields demo_externals demo_failure)) \<noteq>
      ext_sha256 demo_externals (frame_fields (payment_fields demo_externals demo_payment))" by code_simp
  then show "no_collision (en_ext (demo_env 3)) (frame_fields (payment_fields (en_ext (demo_env 3)) demo_failure))
      (frame_fields (payment_fields (en_ext (demo_env 3)) demo_payment))"
    by (simp add: no_collision_def demo_env_def)
qed (simp_all add: demo_failure_def demo_payment_def demo_env_def demo_uuid_injective)

section \<open>How an applied payment ends\<close>

text \<open>The codes the program stores; each is read back from its own response body.\<close>

definition payment_codes :: "string list" where
  "payment_codes = [''accepted'', ''already_accepted'', ''compensation_required'', ''attempt_not_found'',
     ''invalid_transition'', ''ignored_purchase_final'', ''ignored_terminal'']"

lemma stored_code_response: "code \<in> set payment_codes \<Longrightarrow> stored_code (payment_response_body code) = code"
proof -
  have "list_all (\<lambda>code. stored_code (payment_response_body code) = code) payment_codes" by code_simp
  then show "code \<in> set payment_codes \<Longrightarrow> stored_code (payment_response_body code) = code"
    by (simp add: list_all_iff)
qed

lemma completed_row:
  assumes inv: "db_inv d" and c: "complete_payment env d claim status code = Inr (d', x)"
  obtains r where "r \<in> set (db_inbox d')" and "ib_id r = cl_inbox claim" and "inbox_final (ib_status r)"
    and "ib_response_status r = Some status" and "ib_response_body r = Some (payment_response_body code)"
proof -
  let ?f = "set_completed (if status \<ge> 400 then InboxRejected else InboxCompleted) status
      (pt_body (payment_result_of (cl_inbox claim) status code False)) (en_stmt_clock env)"
  have upd: "update_inbox (held_by claim) ?f d = Inr (d', Suc 0)"
    using c by (auto simp: complete_payment_def Let_def wrap_error_def split: if_splits)
  obtain pre r post where "held_by claim r" "d' = d\<lparr>db_inbox := pre @ ?f r # post\<rparr>"
    by (rule update_inbox_one [OF db_invD(5) [OF inv] _ upd]) (auto simp: held_by_def)
  then show thesis
    by (intro that [of "?f r"]) (auto simp: set_completed_def held_by_def inbox_final_def payment_result_of_def)
qed

text \<open>What a succeeded payment must have left behind: the sale, or a request to compensate.\<close>

definition paid_or_compensated :: "externals \<Rightarrow> payment_claim \<Rightarrow> db \<Rightarrow> bool" where
  "paid_or_compensated ext claim d \<longleftrightarrow>
     (\<exists>a\<in>set (db_attempts d). qa_id a = pc_attempt (cl_command claim) \<and> qa_state a = Purchased \<and>
        qa_accepted_provider a = Some (pc_provider (cl_command claim)) \<and>
        qa_accepted_reference a = Some (pc_reference (cl_command claim))) \<or>
     (\<exists>r\<in>set (db_outbox d). ob_dedup_key r = compensation_dedup_key ext (cl_inbox claim))"

text \<open>Every successful application ends in one completion, whose code tells what was done.\<close>

definition finished_with :: "externals \<Rightarrow> payment_claim \<Rightarrow> db \<Rightarrow> payment_result \<Rightarrow> bool" where
  "finished_with ext claim d' x \<longleftrightarrow> (\<exists>env1 d2 status code. db_inv d2 \<and> code \<in> set payment_codes \<and>
     complete_payment env1 d2 claim status code = Inr (d', x) \<and>
     (pc_outcome (cl_command claim) = PaymentSucceeded \<and> code \<noteq> ''attempt_not_found'' \<longrightarrow>
        status = 200 \<and> paid_or_compensated ext claim d'))"

text \<open>The same, and it was the attempt of the payment that was looked at.\<close>

definition applied_with :: "externals \<Rightarrow> payment_claim \<Rightarrow> db \<Rightarrow> payment_result \<Rightarrow> bool" where
  "applied_with ext claim d' x \<longleftrightarrow> finished_with ext claim d' x \<and> pt_code x \<noteq> ''attempt_not_found''"

lemma finished_withI:
  assumes "complete_in_tx env claim status code st = Inr (st', Some x, e)" and "tx_inv st"
    and "code \<in> set payment_codes" and "code \<noteq> ''attempt_not_found''"
    and "pc_outcome (cl_command claim) = PaymentSucceeded \<Longrightarrow>
      status = 200 \<and> paid_or_compensated (en_ext env) claim (tx_db st)"
  shows "applied_with (en_ext env) claim (tx_db st') x \<and> e = None"
proof -
  have c: "complete_payment env (tx_db st) claim status code = Inr (tx_db st', x)" and e: "e = None"
    using assms(1) by (auto simp: complete_in_tx_def)
  have inv: "db_inv (tx_db st)" using assms(2) by (simp add: tx_inv_def)
  obtain t where "tx_db st' = (tx_db st)\<lparr>db_inbox := t\<rparr>" using complete_payment_Inr(4) [OF inv c] by blast
  then have "paid_or_compensated (en_ext env) claim (tx_db st') = paid_or_compensated (en_ext env) claim (tx_db st)"
    by (simp add: paid_or_compensated_def)
  moreover have "pt_code x = code" using complete_payment_Inr(7) [OF inv c] by (simp add: payment_result_of_def)
  ultimately show ?thesis unfolding applied_with_def finished_with_def using c e inv assms(3-5) by blast
qed

lemma insert_outbox_once_present:
  "insert_outbox_once row d = Inr d1 \<Longrightarrow> \<exists>r\<in>set (db_outbox d1). ob_dedup_key r = ob_dedup_key row"
  by (auto simp: insert_outbox_once_def insert_outbox_def sql_insert_Inr list_ex_iff split: if_splits)

lemma compensation_finishes:
  assumes inv: "tx_inv st" and c: "complete_with_compensation env claim a st = Inr (st', Some x, e)"
  shows "applied_with (en_ext env) claim (tx_db st') x \<and> e = None"
proof -
  let ?payload = "CompensationPayload (cl_inbox claim) (pc_provider (cl_command claim)) (pc_event_id (cl_command claim))
      (pc_attempt (cl_command claim)) (pc_reference (cl_command claim))"
  let ?row = "new_outbox_row (en_uuid env (tx_draws st)) (qa_id a) payment_compensation_type
      (compensation_dedup_key (en_ext env) (cl_inbox claim)) ?payload (en_payload_hash env ?payload) (tx_now st)"
  obtain d1 where ins: "insert_outbox_once ?row (tx_db st) = Inr d1"
    and st1: "complete_in_tx env claim 200 ''compensation_required''
        (st\<lparr>tx_draws := Suc (tx_draws st), tx_db := d1\<rparr>) = Inr (st', Some x, e)"
    using c by (auto simp: complete_with_compensation_def draw_uuid_def wrap_error_def Let_def)
  obtain t where t: "d1 = (tx_db st)\<lparr>db_outbox := t\<rparr>" "outbox_extends (db_outbox (tx_db st)) t"
    using insert_outbox_once_keeps [OF ins] by blast
  have "paid_or_compensated (en_ext env) claim d1"
    using insert_outbox_once_present [OF ins] by (simp add: paid_or_compensated_def new_outbox_row_def)
  then show ?thesis
    using finished_withI [OF st1] outbox_append_tx_inv(1) [OF inv t(2)] t(1) by (simp add: payment_codes_def)
qed

lemma purchase_finishes:
  assumes inv: "tx_inv st" and a: "a \<in> set (tx_attempts st)" "qa_id a = pc_attempt (cl_command claim)" "qa_state a = Checkout"
    and buy: "purchase_attempt st (cl_command claim) a = Inr st1" and rec: "reconcile_locked_product rp env st1 = Inr st2"
    and fin: "complete_in_tx env claim 200 ''accepted'' st2 = Inr (st', Some x, e)"
  shows "applied_with (en_ext env) claim (tx_db st') x \<and> e = None"
proof -
  let ?bought = "set_purchased (pc_provider (cl_command claim)) (pc_reference (cl_command claim)) (tx_now st) a"
  note P = purchase_attempt_Inr [OF inv a(1,3) buy]
  then have i1: "tx_inv st1" and sold: "?bought \<in> set (db_attempts (tx_db st1))" by simp_all
  have "?bought \<in> set (db_attempts (tx_db st2))"
    using final_row_kept [OF reconcile_frameD(8) [OF reconcile_Inr(2) [OF i1 rec]] sold]
    by (simp add: set_purchased_def set_terminal_def is_active_state_def)
  then have "paid_or_compensated (en_ext env) claim (tx_db st2)"
    using a(2) unfolding paid_or_compensated_def by (intro disjI1 bexI [of _ ?bought]) (simp_all add: set_purchased_def set_terminal_def)
  then show ?thesis
    using finished_withI [OF fin reconciled(1) [OF i1 rec]] by (simp add: payment_codes_def)
qed

lemma process_claim_body_finishes:
  assumes inv: "tx_inv st" and body: "process_claim_body rp env claim force st = Inr (st', Some x, e)"
  shows "lock_and_validate_payment_claim (en_ext env) (tx_db st) claim = Inr () \<and>
     applied_with (en_ext env) claim (tx_db st') x \<and> e = None"
proof -
  obtain st1 a where valid: "lock_and_validate_payment_claim (en_ext env) (tx_db st) claim = Inr ()"
    and rec: "reconcile_locked_product rp env st = Inr st1"
    and a: "a \<in> set (tx_attempts st1)" "qa_id a = pc_attempt (cl_command claim)"
    and rest: "(if force then complete_with_compensation env claim a st1
       else if pc_outcome (cl_command claim) = PaymentSucceeded then apply_succeeded_payment rp env claim a st1
       else apply_failed_payment rp env claim a st1) = Inr (st', Some x, e)"
    using process_claim_body_parts [OF body] by metis
  note i1 = reconciled(1) [OF inv rec]
  note finish = finished_withI [OF _ i1] and compensate = compensation_finishes [OF i1]
  consider (compensate) "complete_with_compensation env claim a st1 = Inr (st', Some x, e)"
    | (success) "apply_succeeded_payment rp env claim a st1 = Inr (st', Some x, e)"
    | (failure) "pc_outcome (cl_command claim) \<noteq> PaymentSucceeded" "apply_failed_payment rp env claim a st1 = Inr (st', Some x, e)"
    using rest by (auto split: if_splits)
  then have "applied_with (en_ext env) claim (tx_db st') x \<and> e = None"
  proof cases
    case compensate
    then show ?thesis by (rule compensation_finishes [OF i1])
  next
    case success
    then consider (again) "qa_state a = Purchased" "qa_accepted_provider a = Some (pc_provider (cl_command claim))"
          "qa_accepted_reference a = Some (pc_reference (cl_command claim))"
          "complete_in_tx env claim 200 ''already_accepted'' st1 = Inr (st', Some x, e)"
      | (late) "complete_with_compensation env claim a st1 = Inr (st', Some x, e)"
      | (buy) st2 st3 where "qa_state a = Checkout" "purchase_attempt st1 (cl_command claim) a = Inr st2"
          "reconcile_locked_product rp env st2 = Inr st3" "complete_in_tx env claim 200 ''accepted'' st3 = Inr (st', Some x, e)"
      by (auto simp: apply_succeeded_payment_def Let_def split: if_splits option.splits)
    then show ?thesis
    proof cases
      case again
      have "paid_or_compensated (en_ext env) claim (tx_db st1)"
        using again(1-3) a tx_inv_member [OF i1 a(1)] by (auto simp: paid_or_compensated_def)
      then show ?thesis using finish [OF again(4)] by (simp add: payment_codes_def)
    next
      case late
      then show ?thesis by (rule compensate)
    next
      case buy
      then show ?thesis by (rule purchase_finishes [OF i1 a])
    qed
  next
    case failure
    then consider (plain) status code where "code \<in> set payment_codes" "code \<noteq> ''attempt_not_found''"
          "complete_in_tx env claim status code st1 = Inr (st', Some x, e)"
      | (fail) st2 st3 where "qa_state a = Checkout" "fail_attempt st1 a = Inr st2"
          "reconcile_locked_product rp env st2 = Inr st3" "complete_in_tx env claim 200 ''accepted'' st3 = Inr (st', Some x, e)"
      by (auto simp: apply_failed_payment_def payment_codes_def split: attempt_state.splits if_splits)
    then show ?thesis
    proof cases
      case plain
      then show ?thesis using finish [OF plain(3,1,2)] failure(1) by blast
    next
      case fail
      have "tx_inv st3" using fail_attempt_Inr [OF i1 a(1) fail(1,2)] reconciled(1) [OF _ fail(3)] by blast
      then show ?thesis using finished_withI [OF fail(4)] failure(1) by (simp add: payment_codes_def)
    qed
  qed
  then show ?thesis using valid by blast
qed

text \<open>A transaction that applies a claim commits an answer or nothing.\<close>

lemma process_claim_body_answers:
  assumes "process_claim_body rp env claim force st = Inr (st', r, e)"
  shows "r \<noteq> None"
proof -
  have complete: "r \<noteq> None" if "complete_in_tx env claim status code st1 = Inr (st', r, e)" for status code st1
    using that by (auto simp: complete_in_tx_def)
  have compensate: "r \<noteq> None" if "complete_with_compensation env claim a st1 = Inr (st', r, e)" for a st1
    using that by (auto simp: complete_with_compensation_def Let_def split: prod.splits dest: complete)
  have "r \<noteq> None" if "apply_succeeded_payment rp env claim a st1 = Inr (st', r, e)" for a st1
    using that by (auto simp: apply_succeeded_payment_def Let_def split: if_splits option.splits dest: complete compensate)
  moreover have "r \<noteq> None" if "apply_failed_payment rp env claim a st1 = Inr (st', r, e)" for a st1
    using that by (auto simp: apply_failed_payment_def split: attempt_state.splits if_splits dest: complete)
  ultimately show ?thesis
    using assms by (auto simp: process_claim_body_def split: option.splits if_splits dest: compensate)
qed

lemma find_attempt_product_known: "find_attempt_product d aid = Inl e \<longleftrightarrow>
    aid \<notin> qa_id ` set (db_attempts d) \<and> e = Sentinel ErrAttemptNotFound"
  by (auto simp: find_attempt_product_def find_None_iff find_Some_iff image_iff split: option.splits)

lemma process_payment_claim_unanswered:
  assumes "process_payment_claim rp env env' d claim = (d', None, e)"
  shows "d' = d \<and> e \<noteq> None"
proof -
  have claimed: "process_claim_for_product rp env1 d pid valid force \<noteq> Inr (d2, None, e2)" for env1 pid valid force d2 e2
    using process_claim_body_answers by (fastforce simp: process_claim_for_product_def with_locked_product_def)
  have unknown: "finalize_payment_without_product env d valid status code \<noteq> Inr (d2, None, e2)" for valid status code d2 e2
    by (auto simp: finalize_payment_without_product_def)
  show ?thesis
  proof (cases "validate_payment_claim (en_ext env) claim")
    case (Inl err)
    then show ?thesis using assms by (auto simp: process_payment_claim_def finish_def)
  next
    case (Inr valid)
    note def = process_payment_claim_def finish_def Inr
    show ?thesis
    proof (cases "find_attempt_product d (pc_attempt (cl_command valid))")
      case (Inl err)
      then show ?thesis using assms unknown
        by (cases "finalize_payment_without_product env d valid 404 ''attempt_not_found''")
           (auto simp: def split: if_splits)
    next
      case (Inr pid)
      then show ?thesis using assms claimed
        by (cases "process_claim_for_product rp env d pid valid False"; cases "process_claim_for_product rp env' d pid valid True")
           (auto simp: def split: if_splits)
    qed
  qed
qed

lemma process_payment_claim_finishes:
  assumes inv: "db_inv d" and ext: "en_ext env' = en_ext env"
    and call: "process_payment_claim rp env env' d claim = (d', Some x, e)"
  shows "lock_and_validate_payment_claim (en_ext env) d claim = Inr () \<and>
     canonical_payment_hash (en_ext env) (cl_command claim) = Inr (cl_payload_hash claim) \<and>
     finished_with (en_ext env) claim d' x \<and> e = None \<and>
     (pc_attempt (cl_command claim) \<in> qa_id ` set (db_attempts d) \<longrightarrow> applied_with (en_ext env) claim d' x)"
proof -
  have hash: "canonical_payment_hash (en_ext env) (cl_command claim) = Inr (cl_payload_hash claim)"
    and valid: "validate_payment_claim (en_ext env) claim = Inr claim"
    using call by (auto simp: process_payment_claim_def validate_payment_claim_def finish_eq_Some split: if_splits)
  have product: "lock_and_validate_payment_claim (en_ext env) d claim = Inr () \<and>
      applied_with (en_ext env) claim d' x \<and> e = None"
    if "process_claim_for_product rp env1 d pid claim force = Inr (d', Some x, e)" "en_ext env1 = en_ext env" for env1 pid force
  proof -
    note run = that(1) [unfolded process_claim_for_product_def]
    obtain p st' where "tx_inv (begin_tx env1 d p (no_scope\<lparr>ls_attempt := pc_attempt (cl_command claim)\<rparr>))"
      and "process_claim_body rp env1 claim force (begin_tx env1 d p (no_scope\<lparr>ls_attempt := pc_attempt (cl_command claim)\<rparr>)) =
        Inr (st', Some x, e)" and "d' = tx_db st'"
      by (rule locked_call [OF inv run])
    from process_claim_body_finishes [OF this(1,2)] this(3) that(2) show ?thesis by simp
  qed
  have "lock_and_validate_payment_claim (en_ext env) d claim = Inr () \<and> finished_with (en_ext env) claim d' x \<and> e = None \<and>
      (pc_attempt (cl_command claim) \<in> qa_id ` set (db_attempts d) \<longrightarrow> applied_with (en_ext env) claim d' x)"
  proof (cases "find_attempt_product d (pc_attempt (cl_command claim))")
    case (Inl err)
    then have "finalize_payment_without_product env d claim 404 ''attempt_not_found'' = Inr (d', Some x, e)"
      using call valid by (auto simp: process_payment_claim_def finish_eq_Some split: if_splits)
    then have "lock_and_validate_payment_claim (en_ext env) d claim = Inr ()" "e = None"
      and "complete_payment env d claim 404 ''attempt_not_found'' = Inr (d', x)"
      by (auto simp: finalize_payment_without_product_def)
    moreover have "''attempt_not_found'' \<in> set payment_codes" by (simp add: payment_codes_def)
    moreover have "pc_attempt (cl_command claim) \<notin> qa_id ` set (db_attempts d)"
      using Inl by (simp add: find_attempt_product_known)
    ultimately show ?thesis using inv unfolding finished_with_def by blast
  next
    case (Inr pid)
    then have "process_claim_for_product rp env d pid claim False = Inr (d', Some x, e) \<or>
        process_claim_for_product rp env' d pid claim True = Inr (d', Some x, e)"
      using call valid by (auto simp: process_payment_claim_def finish_eq_Some split: sum.splits if_splits)
    then show ?thesis using product ext by (auto simp: applied_with_def)
  qed
  then show ?thesis using hash by blast
qed

text \<open>
  C18. Money is never lost: applying the claim of a succeeded payment for an attempt that exists
  answers 200, and then the committed database holds either the attempt, purchased under exactly
  this payment, or the compensation request of this event, however late the payment came and
  whatever state the attempt has reached; or it answers an error and has changed nothing, so
  that the event can be claimed again.
\<close>

theorem payment_never_lost:
  assumes inv: "db_inv d" and ext: "en_ext env' = en_ext env"
    and call: "process_payment_claim rp env env' d claim = (d', r, e)"
    and paid: "pc_outcome (cl_command claim) = PaymentSucceeded"
    and known: "pc_attempt (cl_command claim) \<in> qa_id ` set (db_attempts d)"
  shows "case r of
      Some x \<Rightarrow> e = None \<and> pt_http_status x = 200 \<and> paid_or_compensated (en_ext env) claim d'
    | None \<Rightarrow> d' = d \<and> e \<noteq> None"
proof (cases r)
  case None
  then show ?thesis using process_payment_claim_unanswered call by simp
next
  case (Some x)
  then have e: "e = None" and "applied_with (en_ext env) claim d' x"
    using process_payment_claim_finishes [OF inv ext] call known by blast+
  then obtain env1 d2 status code where c: "db_inv d2" "complete_payment env1 d2 claim status code = Inr (d', x)"
    and ok: "code \<noteq> ''attempt_not_found'' \<longrightarrow> status = 200 \<and> paid_or_compensated (en_ext env) claim d'"
    and code: "pt_code x \<noteq> ''attempt_not_found''"
    using paid unfolding applied_with_def finished_with_def by blast
  have "x = payment_result_of (cl_inbox claim) status code False" by (rule complete_payment_Inr(7) [OF c])
  then show ?thesis using Some ok code e by (simp add: payment_result_of_def)
qed

definition demo_apply :: "db \<times> payment_result go_return" where
  "demo_apply = process_payment_claim demo_repo (demo_env 4) (demo_env 5) demo_claimed demo_claim"

lemma demo_apply_call:
  obtains x e where "demo_apply = (demo_sold, Some x, e)" and "pt_code x = ''accepted''"
proof -
  have "map_option pt_code (fst (snd demo_apply)) = Some ''accepted''" by code_simp
  then show thesis
    using that by (cases demo_apply) (auto simp: demo_apply_def demo_sold_def)
qed

lemma payment_never_lost_witness: "paid_or_compensated demo_externals demo_claim demo_sold"
proof -
  obtain x e where x: "demo_apply = (demo_sold, Some x, e)" "pt_code x = ''accepted''" by (rule demo_apply_call)
  have "pc_outcome (cl_command demo_claim) = PaymentSucceeded" by code_simp
  moreover have "db_inv demo_claimed" using demo_claimed_inv by (simp add: store_inv_def)
  moreover have "pc_attempt (cl_command demo_claim) \<in> qa_id ` set (db_attempts demo_claimed)" by code_simp
  ultimately show ?thesis
    using payment_never_lost [OF _ _ x(1) [unfolded demo_apply_def]] by (auto simp: demo_env_def)
qed

text \<open>
  C19. A payment event is applied once: after a claim of the event has been applied, delivering
  the event again, at any later time and from any later database, changes nothing and answers
  what the application answered, marked as replayed.
\<close>

theorem payment_replayed:
  assumes inv: "store_inv d0" and claim: "claim_payment env0 d0 cmd = (d1, Some (Claimed claim), e0)"
    and before: "reachable rp d1 d"
    and call: "process_payment_claim rp env env' d claim = (d', Some x, e)"
    and after: "reachable rp d' d''"
    and ext: "en_ext env = en_ext env0" "en_ext env' = en_ext env0" "en_ext env2 = en_ext env0"
  shows "claim_payment env2 d'' cmd = (d'', Some (Responded (x\<lparr>pt_replayed := True\<rparr>)), None)"
proof -
  have i1: "store_inv d1"
    using sound_step_store_inv [OF inv] claim_payment_sound [of d0 env0 cmd] inv claim by (simp add: store_inv_def)
  have step: "reachable rp d1 d'" using reachable_step [OF before step_apply_payment, of env env' claim] call by simp
  have i: "db_inv d" "store_inv d'" "store_inv d''"
    using reachable_sound [OF before i1] reachable_sound [OF step i1] reachable_sound [OF after] by (auto simp: store_inv_def)
  obtain digest where ok: "canonical_payment_hash (en_ext env0) cmd = Inr digest"
      "inbox_checks (new_inbox_row 0 cmd [] digest 0)" by (rule claim_payment_checks [OF claim])
  obtain r1 where r1: "r1 \<in> set (db_inbox d1)" "ib_id r1 = cl_inbox claim"
      "inbox_key r1 = (pc_provider cmd, pc_event_id cmd)" "canonical_payment_hash (en_ext env0) cmd = Inr (ib_payload_hash r1)"
    by (rule claimed_row [OF _ claim]) (use inv in \<open>auto simp: store_inv_def\<close>)
  obtain r where r: "r \<in> set (db_inbox d')" "inbox_row_evolves r1 r" by (rule later_row [OF step i1 r1(1)])
  have id: "ib_id r = cl_inbox claim" "inbox_key r = (pc_provider cmd, pc_event_id cmd)" "ib_payload_hash r = digest"
    using inbox_row_evolvesD(1) [OF r(2)] r1 ok by (simp_all add: inbox_ident_def inbox_key_def)
  have "finished_with (en_ext env) claim d' x"
    using process_payment_claim_finishes [OF i(1) _ call] ext by simp
  then obtain env1 d2 status code where c: "db_inv d2" "complete_payment env1 d2 claim status code = Inr (d', x)"
    and code: "code \<in> set payment_codes" unfolding finished_with_def by blast
  obtain q where q: "q \<in> set (db_inbox d')" "ib_id q = cl_inbox claim" "inbox_final (ib_status q)"
      "ib_response_status q = Some status" "ib_response_body q = Some (payment_response_body code)"
    by (rule completed_row [OF c])
  have inv': "inbox_inv (db_inbox d')" using i(2) by (simp add: store_inv_def db_inv_def)
  have "q = r" by (rule inbox_row_unique [OF inv' q(1) r(1)]) (simp add: q(2) id(1))
  moreover obtain r2 where "r2 \<in> set (db_inbox d'')" "inbox_row_evolves r r2" by (rule later_row [OF after i(2) r(1)])
  ultimately have mem: "r \<in> set (db_inbox d'')" using q(3) inbox_row_evolvesD(3) [of r r2] by simp
  have inv'': "inbox_inv (db_inbox d'')" using i(3) by (simp add: store_inv_def db_inv_def)
  have x: "x = payment_result_of (cl_inbox claim) status code False" by (rule complete_payment_Inr(7) [OF c])
  have replay: "replay_stored_payment r = x\<lparr>pt_replayed := True\<rparr>"
    using q(4,5) \<open>q = r\<close> id(1) x stored_code_response [OF code]
    by (simp add: replay_stored_payment_def payment_result_of_def)
  have "answer_without_claim (en_clock env2) digest r = Some (x\<lparr>pt_replayed := True\<rparr>)"
    using q(3) \<open>q = r\<close> id(3) replay by (auto simp: answer_without_claim_def inbox_final_def)
  then show ?thesis by (intro answered [OF inv'' mem id(2) _ ok(2)]) (use ok(1) ext in simp_all)
qed

lemma payment_replayed_witness:
  "\<exists>x. claim_payment (demo_env 6) demo_sold demo_payment = (demo_sold, Some (Responded x), None) \<and>
     pt_code x = ''accepted'' \<and> pt_replayed x"
proof -
  obtain x e where x: "demo_apply = (demo_sold, Some x, e)" "pt_code x = ''accepted''" by (rule demo_apply_call)
  have "claim_payment (demo_env 6) demo_sold demo_payment = (demo_sold, Some (Responded (x\<lparr>pt_replayed := True\<rparr>)), None)"
    by (rule payment_replayed [OF demo_inv(3) demo_claim_call reachable_start x(1) [unfolded demo_apply_def] reachable_start])
       (simp_all add: demo_env_def)
  then show ?thesis using x(2) by (intro exI [of _ "x\<lparr>pt_replayed := True\<rparr>"]) simp
qed

end
