(* ===== verification/Worker.thy ===== *)
theory Worker
  imports System
begin

text \<open>
  The background worker (\<open>internal/worker/worker.go\<close>, \<open>publisher.go\<close>): one cycle of the
  reconciliation loop, one cycle of the outbox loop with the delivery of each claimed
  notification, the observer, and the loop that spaces the cycles. The Go interfaces are
  parameters: \<open>Reconciler\<close> a function, \<open>Outbox\<close> a record of functions, \<open>Publisher\<close> a function,
  each with the number of the call as its first argument so that every call has its own clock.
  \<open>cancelled k\<close> is what \<open>ctx.Err() != nil\<close> says at the \<open>k\<close>-th check of the cycle. The locales
  state what a cycle relies on and what it guarantees; they are interpreted on the repositories.
\<close>

section \<open>Configuration, outcome and observations\<close>

record worker_config =
  wc_interval :: time
  wc_batch_size :: int
  wc_max_products :: nat
  wc_max_outbox :: nat
  wc_lease :: time
  wc_retry_base :: time
  wc_retry_max :: time
  wc_publisher_timeout :: time

record cycle_outcome =
  co_immediate :: bool
  co_failed :: bool

text \<open>
  What leaves the worker: a call of the observer, with the transitions and the outcome, and a
  call of the publisher, with the deadline of its context, the time of the check before it, and
  whether it succeeded. Durations are not modelled.
\<close>

datatype worker_event =
    ObservedReconciliation int string
  | ObservedOutbox string
  | Published notification_claim time time bool

definition in_memory_observe :: "worker_event \<Rightarrow> (string \<Rightarrow> int) \<Rightarrow> string \<Rightarrow> int" where
  "in_memory_observe ev counters = (case ev of
     ObservedReconciliation transitions outcome \<Rightarrow>
       let c = counters(''reconciliation.'' @ outcome := counters (''reconciliation.'' @ outcome) + 1)
       in c(''reconciliation.transitions'' := c ''reconciliation.transitions'' + transitions)
   | ObservedOutbox outcome \<Rightarrow> counters(''outbox.'' @ outcome := counters (''outbox.'' @ outcome) + 1)
   | Published c deadline now ok \<Rightarrow> counters)"

section \<open>The reconciliation cycle\<close>

type_synonym 's reconciler =
  "nat \<Rightarrow> 's \<Rightarrow> int \<Rightarrow> product_id list \<Rightarrow> 's \<times> reconciliation_result \<times> go_error option"

text \<open>
  The loop from its \<open>k\<close>-th iteration, with \<open>n\<close> iterations left. The zero product identifier is
  the empty result. The context is never un-cancelled, so the second check after a cancelled one
  gives the same answer.
\<close>

fun reconcile_loop ::
  "'s reconciler \<Rightarrow> int \<Rightarrow> (nat \<Rightarrow> bool) \<Rightarrow> nat \<Rightarrow> nat \<Rightarrow> product_id list \<Rightarrow> bool \<Rightarrow> bool \<Rightarrow> 's \<Rightarrow>
     's \<times> cycle_outcome \<times> worker_event list \<times> product_id list" where
  "reconcile_loop reconcile batch cancelled 0 k excluded more_work failed s =
     (s, \<lparr>co_immediate = \<not> cancelled k, co_failed = failed\<rparr>, [], excluded)"
| "reconcile_loop reconcile batch cancelled (Suc n) k excluded more_work failed s =
     (if cancelled k then (s, \<lparr>co_immediate = False, co_failed = failed\<rparr>, [], excluded)
      else case reconcile k s batch excluded of
        (s', r, Some e) \<Rightarrow>
          if rc_product r \<noteq> 0 then
            (case reconcile_loop reconcile batch cancelled n (Suc k) (excluded @ [rc_product r]) more_work True s' of
               (s'', out, evs, ex) \<Rightarrow> (s'', out, ObservedReconciliation 0 ''error'' # evs, ex))
          else (s', \<lparr>co_immediate = False, co_failed = True\<rparr>, [ObservedReconciliation 0 ''error''], excluded)
      | (s', r, None) \<Rightarrow>
          if rc_product r = 0
          then (s', \<lparr>co_immediate = more_work, co_failed = failed\<rparr>, [ObservedReconciliation 0 ''empty''], excluded)
          else
            (case reconcile_loop reconcile batch cancelled n (Suc k) (excluded @ [rc_product r])
                    (more_work \<or> rc_more_work r) failed s' of
               (s'', out, evs, ex) \<Rightarrow>
                 (s'', out, ObservedReconciliation (rc_transitions r) ''success'' # evs, ex)))"

definition reconcile_cycle ::
  "worker_config \<Rightarrow> 's reconciler \<Rightarrow> (nat \<Rightarrow> bool) \<Rightarrow> 's \<Rightarrow>
     's \<times> cycle_outcome \<times> worker_event list \<times> product_id list" where
  "reconcile_cycle cfg reconcile cancelled s =
     reconcile_loop reconcile (wc_batch_size cfg) cancelled (wc_max_products cfg) 0 [] False False s"

section \<open>The outbox cycle\<close>

record 's outbox_ops =
  oo_claim :: "nat \<Rightarrow> 's \<Rightarrow> time \<Rightarrow> 's \<times> notification_claim option \<times> go_error option"
  oo_classify :: "nat \<Rightarrow> 's \<Rightarrow> notification_claim \<Rightarrow> string + bool"
  oo_sent :: "nat \<Rightarrow> 's \<Rightarrow> notification_claim \<Rightarrow> 's \<times> go_error option"
  oo_obsolete :: "nat \<Rightarrow> 's \<Rightarrow> notification_claim \<Rightarrow> 's \<times> go_error option"
  oo_retry :: "nat \<Rightarrow> 's \<Rightarrow> notification_claim \<Rightarrow> string \<Rightarrow> time \<Rightarrow> time \<Rightarrow> 's \<times> time \<times> go_error option"

text \<open>
  A publisher answers with the message of its error, \<open>None\<close> when it succeeds; the two readings
  of the clock before it are given per call.
\<close>

type_synonym notification_publisher = "nat \<Rightarrow> notification_claim \<Rightarrow> time \<Rightarrow> string option"

definition stale_outcome :: "go_error \<Rightarrow> string" where
  "stale_outcome e = (if errors_is e ErrStaleClaim then ''stale_claim'' else ''error'')"

definition earlier_time :: "time \<Rightarrow> time \<Rightarrow> time" where
  "earlier_time first second = (if first < second then first else second)"

definition observe_finalize :: "string \<Rightarrow> go_error option \<Rightarrow> worker_event" where
  "observe_finalize outcome err =
     ObservedOutbox (case err of Some e \<Rightarrow> stale_outcome e | None \<Rightarrow> outcome)"

definition retry_delivery ::
  "worker_config \<Rightarrow> 's outbox_ops \<Rightarrow> nat \<Rightarrow> 's \<Rightarrow> notification_claim \<Rightarrow> string \<Rightarrow> 's \<times> worker_event list" where
  "retry_delivery cfg ops k s claim cause =
     (case oo_retry ops k s claim cause (wc_retry_base cfg) (wc_retry_max cfg) of
        (s', backoff, Some e) \<Rightarrow> (s', [observe_finalize (stale_outcome e) (Some e)])
      | (s', backoff, None) \<Rightarrow> (s', [ObservedOutbox ''retry'']))"

definition deliver_notification ::
  "worker_config \<Rightarrow> 's outbox_ops \<Rightarrow> notification_publisher \<Rightarrow> (nat \<Rightarrow> time \<times> time) \<Rightarrow>
     nat \<Rightarrow> 's \<Rightarrow> notification_claim \<Rightarrow> 's \<times> worker_event list" where
  "deliver_notification cfg ops publish clock k s claim =
     (case oo_classify ops k s claim of
        Inl cause \<Rightarrow> retry_delivery cfg ops k s claim cause
      | Inr True \<Rightarrow> (case oo_obsolete ops k s claim of (s', err) \<Rightarrow> (s', [observe_finalize ''obsolete'' err]))
      | Inr False \<Rightarrow>
          let deadline = earlier_time (fst (clock k) + wc_publisher_timeout cfg)
                           (nc_lease_until claim - wc_publisher_timeout cfg) in
          if \<not> snd (clock k) < deadline
          then retry_delivery cfg ops k s claim ''safe publication window elapsed before publish''
          else case publish k claim deadline of
            Some cause \<Rightarrow>
              (case retry_delivery cfg ops k s claim cause of
                 (s', evs) \<Rightarrow> (s', Published claim deadline (snd (clock k)) False # evs))
          | None \<Rightarrow>
              (case oo_sent ops k s claim of
                 (s', err) \<Rightarrow> (s', [Published claim deadline (snd (clock k)) True, observe_finalize ''sent'' err])))"

fun outbox_loop ::
  "worker_config \<Rightarrow> 's outbox_ops \<Rightarrow> notification_publisher \<Rightarrow> (nat \<Rightarrow> time \<times> time) \<Rightarrow> (nat \<Rightarrow> bool) \<Rightarrow>
     nat \<Rightarrow> nat \<Rightarrow> 's \<Rightarrow> 's \<times> cycle_outcome \<times> worker_event list" where
  "outbox_loop cfg ops publish clock cancelled 0 k s =
     (s, \<lparr>co_immediate = \<not> cancelled k, co_failed = False\<rparr>, [])"
| "outbox_loop cfg ops publish clock cancelled (Suc n) k s =
     (if cancelled k then (s, \<lparr>co_immediate = False, co_failed = False\<rparr>, [])
      else case oo_claim ops k s (wc_lease cfg) of
        (s', c, Some e) \<Rightarrow> (s', \<lparr>co_immediate = False, co_failed = True\<rparr>, [ObservedOutbox ''claim_error''])
      | (s', None, None) \<Rightarrow> (s', \<lparr>co_immediate = False, co_failed = False\<rparr>, [ObservedOutbox ''empty''])
      | (s', Some c, None) \<Rightarrow>
          (case deliver_notification cfg ops publish clock k s' c of
             (s'', evs) \<Rightarrow>
               (case outbox_loop cfg ops publish clock cancelled n (Suc k) s'' of
                  (s3, out, evs') \<Rightarrow> (s3, out, ObservedOutbox ''claimed'' # evs @ evs'))))"

definition outbox_cycle ::
  "worker_config \<Rightarrow> 's outbox_ops \<Rightarrow> notification_publisher \<Rightarrow> (nat \<Rightarrow> time \<times> time) \<Rightarrow> (nat \<Rightarrow> bool) \<Rightarrow>
     's \<Rightarrow> 's \<times> cycle_outcome \<times> worker_event list" where
  "outbox_cycle cfg ops publish clock cancelled s =
     outbox_loop cfg ops publish clock cancelled (wc_max_outbox cfg) 0 s"

text \<open>
  \<open>LoggingPublisher\<close>: refuses when its context has ended, otherwise writes one log entry with
  the event type, the deduplication key and the attempt, empty when there is none.
\<close>

record published_entry =
  pe_event_type :: string
  pe_dedup_key :: string
  pe_attempt :: string

definition logging_publish ::
  "externals \<Rightarrow> string option \<Rightarrow> notification_claim \<Rightarrow> published_entry list \<Rightarrow> published_entry list \<times> string option" where
  "logging_publish ext ctx_err claim log = (case ctx_err of
     Some message \<Rightarrow> (log, Some message)
   | None \<Rightarrow>
       (log @ [\<lparr>pe_event_type = nc_event_type claim, pe_dedup_key = nc_dedup_key claim,
          pe_attempt = (case nc_attempt claim of None \<Rightarrow> [] | Some aid \<Rightarrow> ext_uuid_string ext aid)\<rparr>], None))"

section \<open>The loop around the cycles\<close>

text \<open>
  \<open>runLoop\<close>: the cycles run one after the other until the context is cancelled. After cycle \<open>k\<close>
  the context is checked (\<open>cancelled k\<close>); a cycle with immediate work that did not fail is
  followed by the next at once, any other by a wait that either ends with the timer or with the
  context (\<open>woken k\<close>). The second result lists the waits. A loop that is never cancelled has no
  result.
\<close>

partial_function (option) run_loop ::
  "(nat \<Rightarrow> 's \<Rightarrow> 's \<times> cycle_outcome) \<Rightarrow> (nat \<Rightarrow> bool) \<Rightarrow> (nat \<Rightarrow> bool) \<Rightarrow> nat \<Rightarrow> 's \<Rightarrow> nat list \<Rightarrow>
     ('s \<times> nat list) option" where
  "run_loop cycle cancelled woken k s waits =
     (let s' = fst (cycle k s); out = snd (cycle k s) in
      if cancelled k then Some (s', waits)
      else if co_immediate out \<and> \<not> co_failed out then run_loop cycle cancelled woken (Suc k) s' waits
      else if woken k then Some (s', waits @ [k])
      else run_loop cycle cancelled woken (Suc k) s' (waits @ [k]))"

section \<open>The repositories behind the interfaces\<close>

definition store_reconciler :: "repo \<Rightarrow> (nat \<Rightarrow> env) \<Rightarrow> db reconciler" where
  "store_reconciler rp envs k d batch excluded = reconcile_next_product rp (envs k) d batch excluded"

text \<open>Three statements per notification: the claim, the classification and the final update.\<close>

record delivery_envs =
  de_claim :: env
  de_classify :: env
  de_final :: env

definition store_outbox :: "(nat \<Rightarrow> delivery_envs) \<Rightarrow> db outbox_ops" where
  "store_outbox envs =
     \<lparr>oo_claim = (\<lambda>k d lease. claim_notification (de_claim (envs k)) d lease),
      oo_classify = (\<lambda>k d claim. Inr (classify_invitation (de_classify (envs k)) d claim)),
      oo_sent = (\<lambda>k d claim. mark_notification_sent (de_final (envs k)) d claim),
      oo_obsolete = (\<lambda>k d claim. mark_notification_obsolete (de_final (envs k)) d claim),
      oo_retry = (\<lambda>k d claim cause b m. retry_notification (de_final (envs k)) d claim cause b m)\<rparr>"

section \<open>What a cycle guarantees\<close>

text \<open>
  The contract of \<open>Reconciler\<close>: the product it names is not one of the excluded ones. With it, a
  cycle handles each product at most once, however many of them fail.
\<close>

locale reconciler_contract =
  fixes reconcile :: "'s reconciler"
  assumes fresh_product:
    "reconcile k s batch excluded = (s', r, e) \<Longrightarrow> rc_product r \<noteq> 0 \<Longrightarrow> rc_product r \<notin> set excluded"
begin

lemma loop_visits:
  assumes "reconcile_loop reconcile batch cancelled n k excluded more_work failed s = (s', out, evs, visited)"
    and "distinct excluded"
  shows "distinct visited \<and> length visited \<le> length excluded + n \<and> set excluded \<subseteq> set visited"
  using assms
proof (induction n arbitrary: k excluded more_work failed s evs)
  case (Suc n)
  show ?case
  proof (cases "cancelled k \<or> rc_product (fst (snd (reconcile k s batch excluded))) = 0")
    case True
    then show ?thesis using Suc.prems by (auto split: if_splits prod.splits option.splits)
  next
    case False
    obtain s1 r e where c: "reconcile k s batch excluded = (s1, r, e)" by (metis prod_cases3)
    then have nz: "rc_product r \<noteq> 0" using False by simp
    have "distinct (excluded @ [rc_product r])" using Suc.prems(2) fresh_product [OF c nz] by simp
    moreover obtain more_work' failed' evs' where
      "reconcile_loop reconcile batch cancelled n (Suc k) (excluded @ [rc_product r]) more_work' failed' s1 =
         (s', out, evs', visited)"
      using Suc.prems(1) False c nz by (auto split: prod.splits option.splits)
    ultimately show ?thesis using Suc.IH by fastforce
  qed
qed auto

lemma cycle_visits:
  "reconcile_cycle cfg reconcile cancelled s = (s', out, evs, visited) \<Longrightarrow>
     distinct visited \<and> length visited \<le> wc_max_products cfg"
  unfolding reconcile_cycle_def by (drule loop_visits) simp_all

end

text \<open>
  Cycles built from operations that keep a reflexive and transitive relation keep it, whatever
  the publisher does.
\<close>

locale worker_run =
  fixes R :: "'s \<Rightarrow> 's \<Rightarrow> bool" and reconcile :: "'s reconciler" and ops :: "'s outbox_ops"
  assumes R_refl: "R s s" and R_trans: "R s t \<Longrightarrow> R t u \<Longrightarrow> R s u"
    and R_reconcile: "R s (fst (reconcile k s batch excluded))"
    and R_claim: "R s (fst (oo_claim ops k s lease))" and R_sent: "R s (fst (oo_sent ops k s c))"
    and R_obsolete: "R s (fst (oo_obsolete ops k s c))" and R_retry: "R s (fst (oo_retry ops k s c cause b m))"
begin

lemma loop_run: "R s (fst (reconcile_loop reconcile batch cancelled n k excluded more_work failed s))"
proof (induction n arbitrary: k excluded more_work failed s)
  case (Suc n)
  obtain s1 r e where c: "reconcile k s batch excluded = (s1, r, e)" by (metis prod_cases3)
  have "R s s1" using R_reconcile [of s k batch excluded] c by simp
  then have "R s (fst (reconcile_loop reconcile batch cancelled n (Suc k) (excluded @ [rc_product r]) m f s1))" for m f
    using Suc.IH R_trans by blast
  then show ?case using \<open>R s s1\<close> R_refl c
    by (auto split: prod.splits option.splits) (metis fst_conv)+
qed (simp add: R_refl)

lemma retry_run: "R s (fst (retry_delivery cfg ops k s claim cause))"
  using R_retry [of s k claim cause "wc_retry_base cfg" "wc_retry_max cfg"]
  by (auto simp: retry_delivery_def split: prod.splits option.splits)

lemma deliver_run: "R s (fst (deliver_notification cfg ops publish clock k s claim))"
  using R_obsolete [of s k claim] R_sent [of s k claim] retry_run [of s cfg k claim]
  by (auto simp: deliver_notification_def Let_def split: sum.splits bool.splits prod.splits option.splits)
     (metis fst_conv)+

lemma outbox_run: "R s (fst (outbox_loop cfg ops publish clock cancelled n k s))"
proof (induction n arbitrary: k s)
  case (Suc n)
  obtain s1 c e where c: "oo_claim ops k s (wc_lease cfg) = (s1, c, e)" by (metis prod_cases3)
  have s1: "R s s1" using R_claim [of s k "wc_lease cfg"] c by simp
  have "R s1 (fst (outbox_loop cfg ops publish clock cancelled n (Suc k)
      (fst (deliver_notification cfg ops publish clock k s1 claim))))" for claim
    using deliver_run Suc.IH R_trans by blast
  then have "R s (fst (outbox_loop cfg ops publish clock cancelled n (Suc k)
      (fst (deliver_notification cfg ops publish clock k s1 claim))))" for claim
    using s1 R_trans by blast
  then show ?case using s1 R_refl c
    by (auto split: prod.splits option.splits) (metis fst_conv)+
qed (simp add: R_refl)

end

context worker_run
begin

text \<open>Every publication: classified as current before it, inside the safe window of its lease.\<close>

lemma deliver_published:
  assumes "deliver_notification cfg ops publish clock k s claim = (s', evs)"
    and "Published c deadline now ok \<in> set evs"
  shows "c = claim \<and> oo_classify ops k s claim = Inr False \<and> now = snd (clock k) \<and> now < deadline \<and>
     deadline \<le> nc_lease_until claim - wc_publisher_timeout cfg \<and>
     deadline \<le> fst (clock k) + wc_publisher_timeout cfg"
proof -
  have quiet: "Published c deadline now ok \<notin> set (snd (retry_delivery cfg ops k s claim cause))" for cause
    by (auto simp: retry_delivery_def observe_finalize_def split: prod.splits option.splits)
  show ?thesis
    using assms quiet
    by (auto simp: deliver_notification_def Let_def observe_finalize_def earlier_time_def
        split: sum.splits bool.splits if_splits option.splits prod.splits) (metis snd_conv)+
qed

lemma outbox_published:
  assumes "outbox_loop cfg ops publish clock cancelled n k s = (s', out, evs)" and "Published c deadline now ok \<in> set evs"
  shows "\<exists>j s1. R s s1 \<and> R s1 s' \<and> oo_classify ops j s1 c = Inr False \<and> now = snd (clock j) \<and> now < deadline \<and>
     deadline \<le> nc_lease_until c - wc_publisher_timeout cfg \<and> deadline \<le> fst (clock j) + wc_publisher_timeout cfg"
  using assms
proof (induction n arbitrary: k s evs)
  case (Suc n)
  obtain s1 claim e where c: "oo_claim ops k s (wc_lease cfg) = (s1, claim, e)" by (metis prod_cases3)
  obtain a where a: "\<not> cancelled k" "claim = Some a" "e = None"
    using Suc.prems c by (auto split: if_splits option.splits)
  obtain s2 evs1 where d: "deliver_notification cfg ops publish clock k s1 a = (s2, evs1)" by fastforce
  obtain evs2 where l: "outbox_loop cfg ops publish clock cancelled n (Suc k) s2 = (s', out, evs2)"
    and evs: "evs = ObservedOutbox ''claimed'' # evs1 @ evs2"
    using Suc.prems(1) c a d by (auto split: prod.splits)
  have r1: "R s s1" and r2: "R s1 s2" and r3: "R s2 s'"
    using R_claim [of s k "wc_lease cfg"] c deliver_run [of s1 cfg publish clock k a] d
      outbox_run [of s2 cfg publish clock cancelled n "Suc k"] l by simp_all
  show ?case
  proof (cases "Published c deadline now ok \<in> set evs1")
    case True
    show ?thesis using deliver_published [OF d True] r1 R_trans [OF r2 r3] by (intro exI [of _ k] exI [of _ s1]) simp
  next
    case False
    then have "Published c deadline now ok \<in> set evs2" using Suc.prems(2) evs by simp
    from Suc.IH [OF l this] show ?thesis using R_trans [OF R_trans [OF r1 r2]] by blast
  qed
qed simp

end

text \<open>Both contracts together: where the last question of a drained cycle was asked.\<close>

locale worker_contract = reconciler_contract + worker_run
begin

lemma cycle_drained:
  assumes "reconcile_loop reconcile batch cancelled n k excluded more_work failed s = (s', out, evs, visited)"
    and "evs \<noteq> []" and "last evs = ObservedReconciliation 0 ''empty''"
  shows "\<exists>j s0 r. R s s0 \<and> reconcile j s0 batch visited = (s', r, None) \<and> rc_product r = 0"
  using assms
proof (induction n arbitrary: k excluded more_work failed s evs)
  case (Suc n)
  obtain s1 r e where c: "reconcile k s batch excluded = (s1, r, e)" by (metis prod_cases3)
  show ?case
  proof (cases "cancelled k \<or> rc_product r = 0")
    case True
    then show ?thesis using Suc.prems c R_refl by (auto split: if_splits option.splits)
  next
    case False
    then obtain more_work' failed' evs' ev where loop:
      "reconcile_loop reconcile batch cancelled n (Suc k) (excluded @ [rc_product r]) more_work' failed' s1 =
         (s', out, evs', visited)" and evs: "evs = ev # evs'"
      and ev: "ev = ObservedReconciliation 0 ''error'' \<or> ev = ObservedReconciliation (rc_transitions r) ''success''"
      using Suc.prems(1) c by (auto split: prod.splits option.splits)
    have "evs' \<noteq> []" using Suc.prems(3) evs ev by auto
    moreover have "R s s1" using R_reconcile [of s k batch excluded] c by simp
    ultimately show ?thesis using Suc.IH [OF loop] Suc.prems(3) evs R_trans by (metis last_ConsR)
  qed
qed auto

end

section \<open>The repositories keep the contracts\<close>

lemma selected_not_excluded: "select_eligible_product env d excluded = Some p \<Longrightarrow> lp_id p \<notin> set excluded"
  using select_eligible_product_row [of env d excluded p] by (metis locked_of_row_simps(1) product_eligible_def)

interpretation store_reconciler: reconciler_contract "store_reconciler rp envs" for rp envs
  by unfold_locales
     (auto simp: store_reconciler_def reconcile_next_product_def no_reconciliation_def selected_not_excluded
       split: if_splits option.splits sum.splits)

lemma reachable_trans:
  assumes "reachable rp d1 d2" and "reachable rp d2 d3"
  shows "reachable rp d1 d3"
  using assms(2,1) by induction (auto intro: reachable_step)

interpretation store_worker: worker_run "reachable rp" "store_reconciler rp envs" "store_outbox denvs" for rp envs denvs
  by unfold_locales
     (auto simp: store_reconciler_def store_outbox_def mark_notification_sent_def mark_notification_obsolete_def
       intro: reachable_start reachable_trans reachable_step [OF reachable_start] server_step.intros)

interpretation store_cycles: worker_contract "store_reconciler rp envs" "reachable rp" "store_outbox denvs" for rp envs denvs
  by unfold_locales

section \<open>The loop around the cycles\<close>

text \<open>A loop that is cancelled at some check ends, having waited only after idle or failed cycles.\<close>

lemma run_loop_ends:
  assumes "cancelled (k + n)"
  shows "\<exists>s' ws. run_loop cycle cancelled woken k s waits = Some (s', waits @ ws) \<and>
     (\<forall>w\<in>set ws. \<exists>s0. \<not> (co_immediate (snd (cycle w s0)) \<and> \<not> co_failed (snd (cycle w s0))))"
  using assms
proof (induction n arbitrary: k s waits)
  case 0
  then show ?case by (subst run_loop.simps) (simp add: Let_def)
next
  case (Suc n)
  let ?s' = "fst (cycle k s)" and ?busy = "co_immediate (snd (cycle k s)) \<and> \<not> co_failed (snd (cycle k s))"
  have next_call: "cancelled (Suc k + n)" using Suc.prems by simp
  show ?case
  proof (cases "cancelled k")
    case True
    then show ?thesis by (subst run_loop.simps) (simp add: Let_def)
  next
    case running: False
    show ?thesis
    proof (cases ?busy)
      case True
      then show ?thesis using running Suc.IH [OF next_call, of ?s' waits]
        by (subst run_loop.simps) (simp add: Let_def)
    next
      case idle: False
      show ?thesis
      proof (cases "woken k")
        case True
        then show ?thesis using running idle
          by (subst run_loop.simps) (auto simp: Let_def intro!: exI [of _ "[k]"])
      next
        case False
        obtain s2 ws where "run_loop cycle cancelled woken (Suc k) ?s' (waits @ [k]) = Some (s2, (waits @ [k]) @ ws)"
          and "\<forall>w\<in>set ws. \<exists>s0. \<not> (co_immediate (snd (cycle w s0)) \<and> \<not> co_failed (snd (cycle w s0)))"
          using Suc.IH [OF next_call, of ?s' "waits @ [k]"] by blast
        then show ?thesis using False running idle
          by (subst run_loop.simps) (auto simp: Let_def intro!: exI [of _ "k # ws"])
      qed
    qed
  qed
qed

end
