(* ===== verification/Delivery_Properties.thy ===== *)
theory Delivery_Properties
  imports Worker Reconcile_Properties
begin

text \<open>
  The worker on the repositories: cycles are runs of the server, each product is handled once
  per cycle, a notification is held by one worker at a time and fenced off when its lease was
  taken over, and an invitation is only published while it stands.
\<close>

section \<open>A concrete worker\<close>

text \<open>
  The checkout of the first customer of the example has expired: a cycle invites the second,
  and the invitation is delivered.
\<close>

definition demo_config :: worker_config where
  "demo_config = \<lparr>wc_interval = 1000, wc_batch_size = 10, wc_max_products = 3, wc_max_outbox = 3, wc_lease = 1000,
     wc_retry_base = 10, wc_retry_max = 100, wc_publisher_timeout = 100\<rparr>"

definition demo_cycle :: "db \<times> cycle_outcome \<times> worker_event list \<times> product_id list" where
  "demo_cycle = reconcile_cycle demo_config (store_reconciler demo_repo (\<lambda>k. demo_env (30 + k))) (\<lambda>k. False) demo_two"

definition demo_invited :: db where "demo_invited = fst demo_cycle"

definition demo_delivery_envs :: "nat \<Rightarrow> delivery_envs" where
  "demo_delivery_envs k = \<lparr>de_claim = demo_env (33 + k), de_classify = demo_env (33 + k), de_final = demo_env (33 + k)\<rparr>"

definition demo_outbox :: "db \<times> cycle_outcome \<times> worker_event list" where
  "demo_outbox = outbox_cycle demo_config (store_outbox demo_delivery_envs) (\<lambda>k c t. None) (\<lambda>k. (33000, 33000))
     (\<lambda>k. False) demo_invited"

definition demo_notice :: "db \<times> notification_claim option \<times> go_error option" where
  "demo_notice = claim_notification (demo_env 33) demo_invited 1000"

fun publication_state :: "worker_event \<Rightarrow> bool option" where
  "publication_state (Published c deadline now ok) = Some ok"
| "publication_state (ObservedReconciliation n outcome) = None"
| "publication_state (ObservedOutbox outcome) = None"

lemma demo_cycle_facts:
  "length (snd (snd (snd demo_cycle))) = 1" "map qa_state (db_attempts demo_invited) = [CheckoutExpired, Invited]"
  "map ob_event_type (db_outbox demo_invited) = [''queue.invited'']"
  "map publication_state (snd (snd demo_outbox)) = [None, Some True, None, None]"
  by code_simp+

lemma demo_two_inv: "store_inv demo_two" using demo_inv(3) .

lemma demo_cycle_call:
  "reconcile_cycle demo_config (store_reconciler demo_repo (\<lambda>k. demo_env (30 + k))) (\<lambda>k. False) demo_two =
     (demo_invited, fst (snd demo_cycle), fst (snd (snd demo_cycle)), snd (snd (snd demo_cycle)))"
  by (simp add: demo_cycle_def demo_invited_def)

lemma demo_invited_inv: "store_inv demo_invited"
  using store_worker.loop_run [of demo_repo demo_two "\<lambda>k. demo_env (30 + k)" 10 "\<lambda>k. False" 3 0 "[]" False False]
    reachable_sound [OF _ demo_two_inv]
  by (auto simp: demo_invited_def demo_cycle_def reconcile_cycle_def demo_config_def)

section \<open>Reconciliation cycles\<close>

text \<open>
  C20. A reconciliation cycle is a run of the server that handles every product at most once and
  at most \<open>MaxReconciledProducts\<close> of them, whether or not some of them fail.
\<close>

theorem cycle_handles_each_product_once:
  assumes "reconcile_cycle cfg (store_reconciler rp envs) cancelled d = (d', out, evs, visited)"
  shows "reachable rp d d' \<and> distinct visited \<and> length visited \<le> wc_max_products cfg"
  using store_reconciler.cycle_visits [OF assms]
    store_worker.loop_run [of rp d envs "wc_batch_size cfg" cancelled "wc_max_products cfg" 0 "[]" False False] assms
  by (simp add: reconcile_cycle_def)

lemma cycle_handles_each_product_once_witness:
  "reachable demo_repo demo_two demo_invited \<and> distinct (snd (snd (snd demo_cycle)))"
  using cycle_handles_each_product_once [OF demo_cycle_call] by simp

lemma product_ids_kept:
  assumes "db_inv d"
  shows "map pr_id (db_products (fst (reconcile_next_product rp env d batch excluded))) = map pr_id (db_products d)"
proof (cases "batch \<le> 0 \<or> select_eligible_product env d excluded = None")
  case True
  then show ?thesis by (auto simp: reconcile_next_product_def)
next
  case False
  then obtain lp where lp: "select_eligible_product env d excluded = Some lp" and pos: "0 \<le> batch" by auto
  obtain p where p: "p \<in> set (db_products d)" "lp = locked_of_row p"
    using select_eligible_product_row [OF lp] .
  have "lock_product d (pr_id p) = Inr lp" using lock_product_ok [OF db_invD(2) [OF assms] p(1)] p(2) by simp
  note t = begin_tx_inv(1) [OF assms this, of env no_scope]
  have "map pr_id (db_products (tx_db st)) = map pr_id (db_products d)"
    if r: "reconcile_locked_product_bounded rp env (begin_tx env d lp no_scope) batch = Inr (st, n, mw)" for st n mw
  proof -
    have "list_all2 (product_evolves (lp_id lp)) (db_products d) (db_products (tx_db st))"
      using reconcile_core_frame [OF reconcile_bounded_Inr(2) [OF t pos r]] by (simp add: core_frame_def begin_tx_def)
    then show ?thesis by (induction rule: list_all2_induct) (auto simp: product_evolves_def)
  qed
  then show ?thesis using False lp by (auto simp: reconcile_next_product_def split: sum.split)
qed

text \<open>
  C21. Poisoned products do not starve the others: when a cycle drains the work list (its last
  observation is \<open>empty\<close>), no product outside those it handled has anything left to do at that
  moment, unless another transaction holds its row. Product identifiers are non-zero.
\<close>

theorem drained_cycle_leaves_nothing:
  assumes inv: "store_inv d"
    and cycle: "reconcile_cycle cfg (store_reconciler rp envs) cancelled d = (d', out, evs, visited)"
    and drained: "evs \<noteq> []" "last evs = ObservedReconciliation 0 ''empty''"
    and ids: "\<forall>p\<in>set (db_products d'). pr_id p \<noteq> 0"
  shows "\<exists>j. \<forall>p\<in>set (db_products d'). pr_id p \<notin> set visited \<and> \<not> en_row_locked (envs j) (pr_id p) \<longrightarrow>
     (\<forall>a\<in>set (db_attempts d'). \<not> attempt_eligible (en_select_clock (envs j)) p a)"
proof -
  obtain j s0 r where run: "reachable rp d s0"
    and r: "store_reconciler rp envs j s0 (wc_batch_size cfg) visited = (d', r, None)" "rc_product r = 0"
    using store_cycles.cycle_drained [OF cycle [unfolded reconcile_cycle_def] drained] by blast
  have s0: "db_inv s0" using reachable_sound [OF run inv] by (simp add: store_inv_def)
  have d': "d' = fst (reconcile_next_product rp (envs j) s0 (wc_batch_size cfg) visited)"
    using r(1) by (simp add: store_reconciler_def)
  have none: "select_eligible_product (envs j) s0 visited = None"
  proof (rule ccontr)
    assume "select_eligible_product (envs j) s0 visited \<noteq> None"
    then obtain lp where lp: "select_eligible_product (envs j) s0 visited = Some lp" by auto
    obtain p where "p \<in> set (db_products s0)" "lp = locked_of_row p" using select_eligible_product_row [OF lp] .
    moreover have "lp_id lp = 0"
      using r lp by (auto simp: store_reconciler_def reconcile_next_product_def split: if_splits sum.splits)
    ultimately have "0 \<in> pr_id ` set (db_products s0)" by force
    then have "0 \<in> set (map pr_id (db_products d'))" using product_ids_kept [OF s0] d' by (metis set_map)
    then show False using ids by auto
  qed
  then have same: "d' = s0" using r(1) by (auto simp: store_reconciler_def reconcile_next_product_def split: if_splits)
  let ?l = "sort_key (\<lambda>p. (pr_updated_at p, pr_id p)) (filter (product_eligible (envs j) s0 visited) (db_products s0))"
  have "filter (\<lambda>p. \<not> en_row_locked (envs j) (pr_id p)) ?l = []"
    using none by (simp add: select_eligible_product_def split: list.splits)
  then have "\<forall>p\<in>set ?l. en_row_locked (envs j) (pr_id p)" by (simp add: filter_empty_conv)
  then show ?thesis
    unfolding same by (intro exI [of _ j]) (auto simp: product_eligible_def list_ex_iff)
qed

lemma drained_cycle_leaves_nothing_witness:
  "\<exists>j. \<forall>p\<in>set (db_products demo_invited). pr_id p \<notin> set (snd (snd (snd demo_cycle))) \<and>
       \<not> en_row_locked (demo_env (30 + j)) (pr_id p) \<longrightarrow>
     (\<forall>a\<in>set (db_attempts demo_invited). \<not> attempt_eligible (en_select_clock (demo_env (30 + j))) p a)"
proof (rule drained_cycle_leaves_nothing [OF demo_two_inv demo_cycle_call])
  show "fst (snd (snd demo_cycle)) \<noteq> []" by code_simp
  show "last (fst (snd (snd demo_cycle))) = ObservedReconciliation 0 ''empty''" by code_simp
  have "list_all (\<lambda>p. pr_id p \<noteq> 0) (db_products demo_invited)" by code_simp
  then show "\<forall>p\<in>set (db_products demo_invited). pr_id p \<noteq> 0" by (simp add: list_all_iff)
qed

section \<open>Publications\<close>

text \<open>
  C22. Only invitations that stand are published, inside the safe window: for every publication
  of an outbox cycle, the context of the publisher ends at least \<open>PublisherTimeout\<close> before the
  lease and had not ended when it was called, and an invitation it publishes was, in a database
  of the same run at the time of the classification, an invited attempt with exactly this
  deadline, still ahead.
\<close>

theorem published_invitations_stand:
  assumes cycle: "outbox_cycle cfg (store_outbox envs) publish clock cancelled d = (d', out, evs)"
    and pub: "Published c deadline now ok \<in> set evs"
  shows "now < deadline \<and> deadline + wc_publisher_timeout cfg \<le> nc_lease_until c \<and>
     (\<exists>j d1. reachable rp d d1 \<and> reachable rp d1 d' \<and>
       (nc_event_type c = invitation_event_type \<longrightarrow>
         (\<exists>a\<in>set (db_attempts d1). nc_attempt c = Some (qa_id a) \<and> qa_state a = Invited \<and>
            qa_invitation_deadline a = Some (payload_deadline (nc_payload c)) \<and>
            en_stmt_clock (de_classify (envs j)) < payload_deadline (nc_payload c))))"
proof -
  obtain j d1 where run: "reachable rp d d1" "reachable rp d1 d'"
    and cl: "oo_classify (store_outbox envs) j d1 c = Inr False"
    and window: "now < deadline" "deadline \<le> nc_lease_until c - wc_publisher_timeout cfg"
    using store_worker.outbox_published [OF cycle [unfolded outbox_cycle_def] pub] by blast
  have "nc_event_type c = invitation_event_type \<longrightarrow>
      (\<exists>a\<in>set (db_attempts d1). nc_attempt c = Some (qa_id a) \<and> qa_state a = Invited \<and>
         qa_invitation_deadline a = Some (payload_deadline (nc_payload c)) \<and>
         en_stmt_clock (de_classify (envs j)) < payload_deadline (nc_payload c))"
    using cl by (auto simp: store_outbox_def classify_invitation_def Let_def list_ex_iff split: option.splits if_splits)
  then show ?thesis using run window by auto
qed

lemma published_invitations_stand_witness:
  "\<exists>c deadline now ok. Published c deadline now ok \<in> set (snd (snd demo_outbox)) \<and>
     now < deadline \<and> deadline + 100 \<le> nc_lease_until c"
proof -
  have "Some True \<in> set (map publication_state (snd (snd demo_outbox)))" by (simp add: demo_cycle_facts(4))
  then obtain ev where ev: "ev \<in> set (snd (snd demo_outbox))" "publication_state ev = Some True" by auto
  obtain c deadline now ok where "ev = Published c deadline now ok" using ev(2) by (cases ev) auto
  then have p: "Published c deadline now ok \<in> set (snd (snd demo_outbox))" using ev(1) by simp
  have "outbox_cycle demo_config (store_outbox demo_delivery_envs) (\<lambda>k c t. None) (\<lambda>k. (33000, 33000)) (\<lambda>k. False)
      demo_invited = (fst demo_outbox, fst (snd demo_outbox), snd (snd demo_outbox))"
    by (simp add: demo_outbox_def)
  from published_invitations_stand [OF this p] show ?thesis using p by (auto simp: demo_config_def)
qed

section \<open>Leases of notifications\<close>

lemma notification_candidate_row:
  assumes "notification_candidate env now d = Some c"
  shows "c \<in> set (db_outbox d) \<and> notification_due now c"
proof -
  let ?l = "filter (\<lambda>r. \<not> en_row_locked env (ob_id r)) (sort_key due_order (filter (notification_due now) (db_outbox d)))"
  obtain rs where "?l = c # rs" using assms by (auto simp: notification_candidate_def split: list.splits)
  then have "c \<in> set ?l" by simp
  then show ?thesis by auto
qed

lemma claimed_notification:
  assumes inv: "outbox_inv (db_outbox d)" and call: "claim_notification env d lease = (d', Some c, None)"
  obtains r where "r \<in> set (db_outbox d)" and "ob_id r = nc_id c" and "notification_due (en_clock env) r"
    and "ob_lease_generation r < nc_generation c" and "set_leased (nc_token c) (nc_lease_until c) (en_clock env) r \<in> set (db_outbox d')"
    and "nc_generation c = ob_lease_generation r + 1"
proof -
  let ?f = "set_leased (en_uuid env 0) (en_clock env + lease) (en_clock env)"
  obtain r n where cand: "notification_candidate env (en_clock env) d = Some r"
    and upd: "update_outbox (\<lambda>q. ob_id q = ob_id r) ?f d = Inr (d', n)"
    and c: "c = notification_claim_of (en_uuid env 0) (en_clock env + lease) (?f r)"
    using call by (auto simp: claim_notification_def Let_def split: if_splits option.splits sum.splits)
  note row = notification_candidate_row [OF cand]
  have dist: "distinct (map ob_id (db_outbox d))" using inv by (simp add: outbox_inv_def)
  have "\<exists>pre q post. db_outbox d = pre @ q # post \<and> ob_id q = ob_id r \<and> d' = d\<lparr>db_outbox := pre @ ?f q # post\<rparr>"
  proof -
    have n: "n = length (filter (\<lambda>q. ob_id q = ob_id r) (db_outbox d))"
      using upd sql_update_Inr(2) by (auto simp: update_outbox_def)
    have "n \<noteq> 0" using row n by (auto simp: filter_empty_conv)
    then show ?thesis using update_outbox_cases [OF dist _ upd] by blast
  qed
  then obtain pre q post where q: "db_outbox d = pre @ q # post" "ob_id q = ob_id r" "d' = d\<lparr>db_outbox := pre @ ?f q # post\<rparr>"
    by blast
  have "q = r" using dist row q(1,2) by (auto simp: distinct_map inj_on_def)
  then have "?f r \<in> set (db_outbox d')" using q(3) by simp
  moreover have "nc_token c = en_uuid env 0" "nc_lease_until c = en_clock env + lease" "nc_id c = ob_id r"
      "nc_generation c = ob_lease_generation r + 1"
    by (simp_all add: c notification_claim_of_def set_leased_def)
  ultimately show thesis using row by (intro that [of r]) simp_all
qed

lemma outbox_row_unique:
  "outbox_inv t \<Longrightarrow> r \<in> set t \<Longrightarrow> q \<in> set t \<Longrightarrow> ob_id r = ob_id q \<Longrightarrow> r = q"
  by (auto simp: outbox_inv_def distinct_map inj_on_def)

lemma claim_notification_inv:
  "store_inv d \<Longrightarrow> claim_notification env d lease = (d', c, e) \<Longrightarrow> store_inv d'"
  using sound_step_store_inv outbox_step_sound claim_notification_step
  by (metis fst_conv store_inv_def)

lemma later_notification:
  assumes "reachable rp d d'" and "store_inv d" and "q \<in> set (db_outbox d)"
  obtains q' where "q' \<in> set (db_outbox d')" and "outbox_row_evolves q q'"
proof -
  have "forward outbox_row_evolves (db_outbox d) (db_outbox d')"
    using reachable_sound [OF assms(1,2)] by (simp add: sound_step_def outbox_evolves_def)
  from forward_row [OF this assms(3)] show thesis using that by blast
qed

text \<open>
  The store with two invitations: one is claimed, another worker claims at once, a third after
  the lease, and the first fails.
\<close>

definition demo_two_notices :: db where "demo_two_notices = fst demo_pass"

definition demo_first_notice :: "db \<times> notification_claim option \<times> go_error option" where
  "demo_first_notice = claim_notification (demo_env 31) demo_two_notices 1000"

definition demo_third_notice :: "db \<times> notification_claim option \<times> go_error option" where
  "demo_third_notice = claim_notification (demo_env 34) (fst demo_first_notice) 1000"

lemma demo_two_notices_inv: "store_inv demo_two_notices"
proof -
  have "reachable demo_repo (demo_wide 0) (demo_wide k)" for k
    by (induction k) (auto intro: reachable_start reachable_step step_join)
  then have "reachable demo_repo (demo_wide 0) demo_two_notices"
    unfolding demo_two_notices_def demo_pass_def demo_full_def by (rule reachable_step [OF _ step_reconcile])
  moreover have "fresh_catalogue (demo_wide 0)"
    by (simp add: fresh_catalogue_def demo_db_def demo_product_def product_ok_def max_int32_def max_int64_def)
  ultimately show ?thesis using reachable_inv by blast
qed

lemma claimed_notice:
  assumes "\<not> Option.is_none (fst (snd n))" and "Option.is_none (snd (snd n))"
  shows "n = (fst n, Some (the (fst (snd n))), None)"
  using assms by (cases n) (auto simp: Option.is_none_def)

lemma demo_notice_calls:
  "demo_first_notice = (fst demo_first_notice, Some (the (fst (snd demo_first_notice))), None)"
  "demo_third_notice = (fst demo_third_notice, Some (the (fst (snd demo_third_notice))), None)"
  by (rule claimed_notice; code_simp)+

text \<open>The same, stated of the calls.\<close>

lemma demo_notice_runs:
  "claim_notification (demo_env 31) demo_two_notices 1000 =
     (fst demo_first_notice, Some (the (fst (snd demo_first_notice))), None)"
  "claim_notification (demo_env 34) (fst demo_first_notice) 1000 =
     (fst demo_third_notice, Some (the (fst (snd demo_third_notice))), None)"
  using demo_notice_calls by (simp_all only: demo_first_notice_def demo_third_notice_def)

text \<open>While the lease of a claim runs, the next claim takes another notification.\<close>

lemma notification_lease_runs:
  assumes inv: "store_inv d" and first: "claim_notification env d lease = (d', Some c, None)"
    and lease: "en_clock env' < nc_lease_until c"
    and second: "claim_notification env' d' lease' = (d'', Some c', None)"
  shows "nc_id c' \<noteq> nc_id c"
proof
  assume same: "nc_id c' = nc_id c"
  have i: "outbox_inv (db_outbox d)" "outbox_inv (db_outbox d')"
    using inv claim_notification_inv [OF inv first] by (simp_all add: store_inv_def)
  obtain r where r: "set_leased (nc_token c) (nc_lease_until c) (en_clock env) r \<in> set (db_outbox d')" "ob_id r = nc_id c"
    by (rule claimed_notification [OF i(1) first])
  obtain q where q: "q \<in> set (db_outbox d')" "ob_id q = nc_id c'" "notification_due (en_clock env') q"
    by (rule claimed_notification [OF i(2) second])
  have "q = set_leased (nc_token c) (nc_lease_until c) (en_clock env) r"
    by (rule outbox_row_unique [OF i(2) q(1) r(1)]) (use same q(2) r(2) in \<open>simp add: set_leased_def\<close>)
  then show False using lease q(3) by (simp add: notification_due_def set_leased_def)
qed

text \<open>
  C23. One worker holds a notification, and a worker whose lease was taken over cannot finish: the
  claim that follows a claim directly takes the same notification only when its lease has run out,
  and after the notification has been claimed again, whatever happened in between and since,
  finalizing or retrying the older claim reports \<open>ErrStaleClaim\<close> and changes nothing.
\<close>

theorem notification_fenced:
  assumes inv: "store_inv d"
    and first: "claim_notification env1 d lease1 = (d1, Some old, None)" and "reachable rp d1 d2"
    and second: "claim_notification env2 d2 lease2 = (d3, Some new, None)" and "reachable rp d3 d4"
    and same: "nc_id old = nc_id new" and valid: "0 < b" "b \<le> m"
  shows "(d2 = d1 \<longrightarrow> nc_lease_until old \<le> en_clock env2) \<and>
     finalize_notification env d4 old reason = (d4, Some (Sentinel ErrStaleClaim)) \<and>
     retry_notification env d4 old message b m = (d4, 0, Some (Sentinel ErrStaleClaim))"
proof -
  have lease: "d2 = d1 \<longrightarrow> nc_lease_until old \<le> en_clock env2"
    using notification_lease_runs [OF inv first, of env2 lease2 d3 new] second same by (metis not_le)
  note i1 = claim_notification_inv [OF inv first]
  have i2: "store_inv d2" using reachable_sound [OF \<open>reachable rp d1 d2\<close> i1] by blast
  note i3 = claim_notification_inv [OF i2 second]
  have i4: "store_inv d4" using reachable_sound [OF \<open>reachable rp d3 d4\<close> i3] by blast
  have ob: "outbox_inv (db_outbox d)" "outbox_inv (db_outbox d2)" "outbox_inv (db_outbox d4)"
    using inv i2 i4 by (simp_all add: store_inv_def)
  obtain r where r: "ob_id r = nc_id old" "nc_generation old = ob_lease_generation r + 1"
      "set_leased (nc_token old) (nc_lease_until old) (en_clock env1) r \<in> set (db_outbox d1)"
    by (rule claimed_notification [OF ob(1) first])
  obtain r2 where r2: "r2 \<in> set (db_outbox d2)"
      "outbox_row_evolves (set_leased (nc_token old) (nc_lease_until old) (en_clock env1) r) r2"
    by (rule later_notification [OF assms(3) i1 r(3)])
  have g2: "ob_id r2 = nc_id old" "nc_generation old \<le> ob_lease_generation r2"
    using r2(2) r(1,2) by (simp_all add: outbox_row_evolves_def outbox_ident_def set_leased_def)
  obtain q where q: "q \<in> set (db_outbox d2)" "ob_id q = nc_id new" "nc_generation new = ob_lease_generation q + 1"
      "set_leased (nc_token new) (nc_lease_until new) (en_clock env2) q \<in> set (db_outbox d3)"
    by (rule claimed_notification [OF ob(2) second])
  have "q = r2" using outbox_row_unique [OF ob(2) q(1) r2(1)] q(2) g2(1) same by simp
  then have gen: "nc_generation old < nc_generation new" using q(3) g2(2) by simp
  obtain r4 where r4: "r4 \<in> set (db_outbox d4)"
      "outbox_row_evolves (set_leased (nc_token new) (nc_lease_until new) (en_clock env2) q) r4"
    by (rule later_notification [OF assms(5) i3 q(4)])
  have g4: "ob_id r4 = nc_id old" "nc_generation old < ob_lease_generation r4"
    using r4(2) q(2,3) gen same by (simp_all add: outbox_row_evolves_def outbox_ident_def set_leased_def)
  have "\<forall>x\<in>set (db_outbox d4). \<not> leased_by old x"
    using outbox_row_unique [OF ob(3) r4(1)] g4 by (auto simp: leased_by_def)
  then have "update_outbox (leased_by old) f d4 = Inr (d4, 0)" for f
    by (simp add: update_outbox_def sql_update_none)
  then show ?thesis using valid lease
    by (simp add: finalize_notification_def retry_notification_def stale_unless_one_row_def Let_def)
qed

lemma notification_fenced_witness:
  "nc_lease_until (the (fst (snd demo_first_notice))) \<le> en_clock (demo_env 34) \<and>
   finalize_notification (demo_env 35) (fst demo_third_notice) (the (fst (snd demo_first_notice))) None =
     (fst demo_third_notice, Some (Sentinel ErrStaleClaim))"
proof -
  have "nc_id (the (fst (snd demo_first_notice))) = nc_id (the (fst (snd demo_third_notice)))" by code_simp
  from notification_fenced [OF demo_two_notices_inv demo_notice_runs(1) reachable_start [of demo_repo]
      demo_notice_runs(2) reachable_start [of demo_repo] this, of 10 100]
  show ?thesis by simp
qed

text \<open>
  C24. The retry backoff is the capped exponential: \<open>base * 2^(attempts-1)\<close>, never below the base,
  never above the maximum, computed without overflow for every attempt count; the notification
  becomes due again exactly that much later, with an error message of at most 500 bytes.
\<close>

theorem retry_backoff:
  assumes inv: "outbox_inv (db_outbox d)" and limit: "m \<le> max_int64"
    and call: "retry_notification env d c message b m = (d', backoff, None)"
  shows "backoff = min (b * 2 ^ nat (nc_attempt_count c - 1)) m \<and> b \<le> backoff \<and> backoff \<le> m \<and>
     (\<exists>r\<in>set (db_outbox d'). ob_id r = nc_id c \<and> ob_status r = OutboxFailed \<and>
        ob_available_at r = en_stmt_clock env + backoff \<and>
        (\<exists>text. ob_last_error r = Some text \<and> length text \<le> 500))"
proof -
  have pos: "0 < b" "b \<le> m" using call by (auto simp: retry_notification_def split: if_splits)
  define bounded where "bounded = (if length message > max_outbox_error_length then take max_outbox_error_length message else message)"
  obtain n where upd: "update_outbox (leased_by c) (set_failed bounded backoff (en_stmt_clock env)) d = Inr (d', n)"
    and one: "stale_unless_one_row n = None" and bo: "backoff = exponential_backoff (nc_attempt_count c) b m"
    using call pos by (auto simp: retry_notification_def Let_def bounded_def split: if_splits sum.splits option.splits)
  have closed: "backoff = min (b * 2 ^ nat (nc_attempt_count c - 1)) m"
    unfolding bo by (rule exponential_backoff_closed [OF pos limit])
  have "b * 1 \<le> b * 2 ^ nat (nc_attempt_count c - 1)" using pos by (intro mult_left_mono) simp_all
  then have bounds: "b \<le> backoff" "backoff \<le> m" using closed pos by auto
  have "n = Suc 0" using one by (auto simp: stale_unless_one_row_def split: if_splits)
  then obtain pre r post where r: "leased_by c r" "d' = d\<lparr>db_outbox := pre @ set_failed bounded backoff (en_stmt_clock env) r # post\<rparr>"
    using update_outbox_cases [OF _ _ upd, of "nc_id c"] inv by (auto simp: outbox_inv_def leased_by_def)
  have "length bounded \<le> 500" by (auto simp: bounded_def max_outbox_error_length_def)
  then show ?thesis using closed bounds r
    by (intro conjI bexI [of _ "set_failed bounded backoff (en_stmt_clock env) r"]) (auto simp: set_failed_def leased_by_def)
qed

lemma retry_backoff_witness:
  "\<exists>r\<in>set (db_outbox (fst (retry_notification (demo_env 32) (fst demo_first_notice)
       (the (fst (snd demo_first_notice))) ''timeout'' 10 100))). ob_status r = OutboxFailed \<and> ob_available_at r = 32010"
proof -
  let ?call = "retry_notification (demo_env 32) (fst demo_first_notice) (the (fst (snd demo_first_notice))) ''timeout'' 10 100"
  have "fst (snd ?call) = 10" "Option.is_none (snd (snd ?call))" by code_simp+
  then have call: "?call = (fst ?call, 10, None)" by (cases ?call) (auto simp: Option.is_none_def)
  have "outbox_inv (db_outbox (fst demo_first_notice))"
    using claim_notification_inv [OF demo_two_notices_inv demo_notice_runs(1)] by (simp add: store_inv_def)
  from retry_backoff [OF this _ call] show ?thesis by (auto simp: max_int64_def demo_env_def)
qed

end
