(* ===== verification/Domain_Properties.thy ===== *)
theory Domain_Properties
  imports Payment
begin

text \<open>
  The pure part of the domain: the waiting capacity is the exact ceiling whenever it is defined,
  the digests that recognise replays determine the command, and a parsed payment command always
  fits the constraints of the table it is stored in.
\<close>

section \<open>Waiting capacity\<close>

lemma ceiling_100: "x + 99 = 100 * q + r \<Longrightarrow> 0 \<le> r \<Longrightarrow> r < 100 \<Longrightarrow> 100 * (q - 1) < x \<and> x \<le> 100 * (q :: int)"
  by arith

lemma le_div_int:
  assumes "0 < s"
  shows "p \<le> m div s \<longleftrightarrow> p * s \<le> (m :: int)"
proof
  assume "p \<le> m div s"
  then have "p * s \<le> m div s * s" using assms by (intro mult_right_mono) simp_all
  also have "\<dots> \<le> m" using pos_mod_sign [OF assms, of m] by (simp add: minus_mod_eq_div_mult [symmetric])
  finally show "p * s \<le> m" .
next
  assume "p * s \<le> m"
  then have "p * s div s \<le> m div s" using assms by (rule zdiv_mono1)
  then show "p \<le> m div s" using assms by simp
qed

text \<open>
  C25. The waiting capacity is \<open>stock * percent / 100\<close> rounded up, and is refused exactly when an
  argument is negative or the computation would leave the 64-bit range: no overflow goes
  unnoticed.
\<close>

theorem waiting_capacity_exact:
  assumes "stock \<le> max_int64" and "percent \<le> max_int64"
  shows "if stock < 0 \<or> percent < 0 \<or> stock * percent > max_int64 - 99
     then waiting_capacity stock percent = Inl (Wrapped [Sentinel ErrInvalidInput])
     else \<exists>c. waiting_capacity stock percent = Inr c \<and> 100 * (c - 1) < stock * percent \<and> stock * percent \<le> 100 * c"
proof (cases "stock < 0 \<or> percent < 0")
  case True
  then show ?thesis by (auto simp: waiting_capacity_def)
next
  case nonneg: False
  then have sp: "0 \<le> stock" "0 \<le> percent" "0 \<le> stock * percent" by auto
  have exact: "stock \<noteq> 0 \<and> percent > max_int64 div stock \<longleftrightarrow> stock * percent > max_int64"
  proof (cases "stock = 0")
    case False
    then have "percent \<le> max_int64 div stock \<longleftrightarrow> percent * stock \<le> max_int64"
      using sp(1) by (intro le_div_int) simp
    then show ?thesis using False by (simp add: mult.commute not_le [symmetric])
  qed (simp add: max_int64_def)
  show ?thesis
  proof (cases "stock * percent > max_int64 - 99")
    case True
    have "- 9223372036854775808 \<le> stock * percent" using sp(3) by linarith
    then show ?thesis using True exact nonneg i64_id [of "stock * percent"]
      by (auto simp: waiting_capacity_def Let_def not_less)
  next
    case False
    then have small: "stock * percent \<le> max_int64 - 99" by simp
    then have "i64 (stock * percent) = stock * percent" "i64 (stock * percent + 99) = stock * percent + 99"
      using sp(3) by (intro i64_id; simp)+
    then have c: "waiting_capacity stock percent = Inr ((stock * percent + 99) div 100)"
      using nonneg exact small by (auto simp: waiting_capacity_def Let_def max_int64_def)
    have "stock * percent + 99 = 100 * ((stock * percent + 99) div 100) + (stock * percent + 99) mod 100" by simp
    from ceiling_100 [OF this] c False nonneg show ?thesis by simp
  qed
qed

lemma waiting_capacity_exact_witness:
  "\<exists>c. waiting_capacity 7 130 = Inr c \<and> 100 * (c - 1) < 910 \<and> 910 \<le> 100 * c"
  using waiting_capacity_exact [of 7 130] by (simp add: max_int64_def)

section \<open>Digests\<close>

text \<open>
  C26. The digests tell commands apart: two payment commands with the same canonical hash are
  equal, and two stock adjustments with the same canonical hash agree on product, delta and the
  trimmed reason and reference, unless SHA-256 collides on their encodings.
\<close>

theorem equal_digests_equal_commands:
  assumes uuid: "uuid_text_injective ext"
    and pay: "canonical_payment_hash ext c = Inr h" "canonical_payment_hash ext c' = Inr h"
      "no_collision ext (frame_fields (payment_fields ext c)) (frame_fields (payment_fields ext c'))"
    and stock: "canonical_stock_adjustment_hash ext s = Inr k" "canonical_stock_adjustment_hash ext s' = Inr k"
      "no_collision ext (frame_fields (stock_fields ext s)) (frame_fields (stock_fields ext s'))"
  shows "c = c' \<and> sa_product s = sa_product s' \<and> sa_delta s = sa_delta s' \<and>
     trim_space (sa_reason s) = trim_space (sa_reason s') \<and> trim_space (sa_reference s) = trim_space (sa_reference s')"
  using payment_fields_inj [OF canonical_hash_fields [OF pay [unfolded canonical_payment_hash_def]] uuid]
    stock_fields_inj [OF canonical_hash_fields [OF stock [unfolded canonical_stock_adjustment_hash_def]] uuid]
  by blast

text \<open>An instance with a digest that keeps everything: two adjustments that differ in white space.\<close>

definition plain_externals :: externals where
  "plain_externals = \<lparr>ext_uuid_parse = (\<lambda>s. None), ext_uuid_string = (\<lambda>u. show_nat (unat u)), ext_sha256 = (\<lambda>s. s)\<rparr>"

lemma plain_uuid_injective: "uuid_text_injective plain_externals"
proof -
  have "to_lower s = s" if "\<forall>c\<in>set s. is_digit c" for s
    using that by (induction s) (auto simp: to_lower_def is_upper_def is_digit_def)
  then show ?thesis
    by (auto simp: uuid_text_injective_def plain_externals_def inj_def show_nat_digits show_nat_inj word_unat_eq_iff)
qed

definition plain_adjustment :: "string \<Rightarrow> stock_adjustment_command" where
  "plain_adjustment reason = \<lparr>sa_product = 1, sa_key = ''k'', sa_delta = 2, sa_reason = reason, sa_reference = ''r''\<rparr>"

lemma equal_digests_equal_commands_witness:
  "trim_space (sa_reason (plain_adjustment ''new '')) = trim_space (sa_reason (plain_adjustment ''new''))"
proof -
  let ?p = "\<lparr>pc_provider = ''bank'', pc_event_id = ''e'', pc_attempt = 1, pc_outcome = PaymentSucceeded, pc_reference = ''r''\<rparr>"
  have s: "canonical_stock_adjustment_hash plain_externals (plain_adjustment ''new '') =
      Inr (frame_fields (stock_fields plain_externals (plain_adjustment ''new'')))"
    "canonical_stock_adjustment_hash plain_externals (plain_adjustment ''new'') =
      Inr (frame_fields (stock_fields plain_externals (plain_adjustment ''new'')))"
    by code_simp+
  have p: "canonical_payment_hash plain_externals ?p = Inr (frame_fields (payment_fields plain_externals ?p))"
    by code_simp
  have "no_collision plain_externals x y" for x y by (simp add: no_collision_def plain_externals_def)
  then show ?thesis using equal_digests_equal_commands [OF plain_uuid_injective p p _ s] by blast
qed

section \<open>Parsed payments\<close>

lemma trim_space_btrimmed: "btrimmed (trim_space s)"
proof -
  have blank: "[CHR '' ''] \<in> set space_runes" unfolding space_runes_code by simp
  have "no_rune_prefix space_runes (trim_left s)" by (simp add: trim_left_def drop_runes_clean)
  then have "no_rune_prefix space_runes (trim_space s)"
    unfolding no_rune_prefix_def trim_space_def using trim_right_prefix prefix_order.trans by blast
  then have "\<not> prefix [CHR '' ''] (trim_space s)" using blank by (auto simp: no_rune_prefix_def)
  have "no_rune_prefix (map rev space_runes) (rev (trim_space s))"
    by (simp add: trim_space_def trim_right_def drop_runes_clean)
  then have "\<not> prefix [CHR '' ''] (rev (trim_space s))" using blank by (force simp: no_rune_prefix_def)
  then have "trim_space s \<noteq> [] \<Longrightarrow> last (trim_space s) \<noteq> CHR '' ''" by (cases "trim_space s" rule: rev_cases) auto
  moreover have "trim_space s \<noteq> [] \<Longrightarrow> hd (trim_space s) \<noteq> CHR '' ''"
    using \<open>\<not> prefix [CHR '' ''] (trim_space s)\<close> by (cases "trim_space s") auto
  ultimately show ?thesis by (auto simp: btrimmed_def)
qed

lemma normalized_field:
  "normalize_required_payment_field s n = Inr t \<Longrightarrow> check_payment_field n (Some t)"
  by (auto simp: normalize_required_payment_field_def Let_def check_payment_field_def trim_space_btrimmed
      Suc_le_eq split: if_splits)

text \<open>
  C27. What is parsed can be stored: the inbox row of every command that
  \<open>ParsePaymentCommand\<close> accepts, under any digest of 32 bytes, satisfies all CHECK constraints
  of \<open>payment_inbox\<close>, so a well-formed callback is never refused by the database.
\<close>

theorem parsed_payment_storable:
  assumes "parse_payment_command ext provider event_id attempt outcome reference = Inr cmd"
    and "length digest = 32"
  shows "inbox_checks (new_inbox_row iid cmd payload digest clock)"
proof -
  obtain p e a out where f: "normalize_required_payment_field provider max_payment_provider_length = Inr p"
      "normalize_required_payment_field event_id max_payment_event_id_length = Inr e"
    and cmd: "cmd = \<lparr>pc_provider = p, pc_event_id = e, pc_attempt = a, pc_outcome = out,
        pc_reference = (if out = PaymentFailed then [] else trim_space reference)\<rparr>"
    and ref: "\<not> (out = PaymentSucceeded \<and> trim_space reference = [])"
      "out = PaymentSucceeded \<Longrightarrow> length (trim_space reference) \<le> max_payment_reference_length"
    using assms(1) by (auto simp: parse_payment_command_def Let_def split: option.splits if_splits)
  have "check_payment_field 64 (Some p)" "check_payment_field 200 (Some e)"
    using f [THEN normalized_field] by (simp_all add: max_payment_provider_length_def max_payment_event_id_length_def)
  moreover have "check_payment_field 200 (Some (trim_space reference))" if "out = PaymentSucceeded"
    using ref that by (auto simp: check_payment_field_def trim_space_btrimmed max_payment_reference_length_def Suc_le_eq)
  ultimately show ?thesis using assms(2)
    by (cases out) (simp_all add: inbox_checks_def new_inbox_row_def cmd nullable_payment_reference_def
        inbox_final_def max_int64_def max_int32_def)
qed

lemma parsed_payment_storable_witness:
  "\<exists>cmd. parse_payment_command (plain_externals\<lparr>ext_uuid_parse := \<lambda>s. Some 5\<rparr>) '' bank '' ''e1'' ''5'' ''Succeeded'' ''r'' = Inr cmd \<and>
     inbox_checks (new_inbox_row 1 cmd [] (replicate 32 (CHR ''0'')) 0)"
proof -
  let ?parse = "parse_payment_command (plain_externals\<lparr>ext_uuid_parse := \<lambda>s. Some 5\<rparr>) '' bank '' ''e1'' ''5'' ''Succeeded'' ''r''"
  have "?parse = Inr \<lparr>pc_provider = ''bank'', pc_event_id = ''e1'', pc_attempt = 5,
      pc_outcome = PaymentSucceeded, pc_reference = ''r''\<rparr>" by code_simp
  from parsed_payment_storable [OF this, of "replicate 32 (CHR ''0'')"] this show ?thesis by auto
qed

end
