(* ===== verification/Verifier.thy ===== *)
theory Verifier
  imports System
begin

text \<open>
  The load-test verifier (\<open>internal/loadtest/verify.go\<close>), which reads the products and attempts
  of a run from the database and checks them against the rules of the queue: the snapshots, the
  ten checks with their violation messages, and the verdict. Go's maps from strings are
  functions, its sets of strings are sets, and the order in which Go visits the products of a map
  is the argument \<open>order\<close> of the checks that do so. Where \<open>sort.Slice\<close> leaves the order of equal
  keys open, the order of the list is kept.
\<close>

section \<open>Fixture and snapshots\<close>

record load_assignment =
  as_product :: string
  as_group :: string
  as_key :: string
  as_duplicate_join :: bool
  as_planned_outcome :: string
  as_payment_event :: string
  as_payment_reference :: string

record load_user =
  lu_id :: string
  lu_name :: string
  lu_assignments :: "load_assignment list"

record load_product =
  lo_id :: string
  lo_title :: string
  lo_initial_stock :: int
  lo_queue_capacity :: int
  lo_group :: string

record load_data =
  ld_run_id :: string
  ld_users :: "load_user list"
  ld_products :: "load_product list"

record product_snapshot =
  ps_id :: string
  ps_title :: string
  ps_stock :: int
  ps_reserved :: int
  ps_next_sequence :: int

record attempt_snapshot =
  sn_id :: string
  sn_product :: string
  sn_sequence :: int
  sn_user :: string
  sn_key :: string
  sn_state :: string
  sn_created_at :: time
  sn_updated_at :: time
  sn_invited_at :: "time option"
  sn_invitation_deadline :: "time option"
  sn_checkout_started_at :: "time option"
  sn_checkout_deadline :: "time option"
  sn_terminal_at :: "time option"
  sn_purchased_at :: "time option"
  sn_accepted_provider :: "string option"
  sn_accepted_reference :: "string option"
  sn_terminal_reason :: "string option"

text \<open>The queries: the rows of the products whose title begins with the prefix of the run.\<close>

definition in_run :: "string \<Rightarrow> product_row \<Rightarrow> bool" where
  "in_run pfx p \<longleftrightarrow> take (length pfx) (pr_title p) = pfx"

definition read_products :: "externals \<Rightarrow> string \<Rightarrow> db \<Rightarrow> product_snapshot list" where
  "read_products ext pfx d = map (\<lambda>p. \<lparr>ps_id = ext_uuid_string ext (pr_id p), ps_title = pr_title p,
       ps_stock = pr_stock p, ps_reserved = pr_reserved p, ps_next_sequence = pr_next_sequence p\<rparr>)
     (sort_key pr_id (filter (in_run pfx) (db_products d)))"

definition attempt_snapshot_of :: "externals \<Rightarrow> queue_attempt \<Rightarrow> attempt_snapshot" where
  "attempt_snapshot_of ext a =
     \<lparr>sn_id = ext_uuid_string ext (qa_id a), sn_product = ext_uuid_string ext (qa_product a),
      sn_sequence = qa_sequence a, sn_user = qa_user a, sn_key = qa_key a, sn_state = state_text (qa_state a),
      sn_created_at = qa_created_at a, sn_updated_at = qa_updated_at a, sn_invited_at = qa_invited_at a,
      sn_invitation_deadline = qa_invitation_deadline a, sn_checkout_started_at = qa_checkout_started_at a,
      sn_checkout_deadline = qa_checkout_deadline a, sn_terminal_at = qa_terminal_at a,
      sn_purchased_at = qa_purchased_at a, sn_accepted_provider = qa_accepted_provider a,
      sn_accepted_reference = qa_accepted_reference a, sn_terminal_reason = qa_terminal_reason a\<rparr>"

definition read_attempts :: "externals \<Rightarrow> string \<Rightarrow> db \<Rightarrow> attempt_snapshot list" where
  "read_attempts ext pfx d = map (attempt_snapshot_of ext)
     (sort_key (\<lambda>a. (qa_product a, qa_sequence a))
       (filter (\<lambda>a. list_ex (\<lambda>p. pr_id p = qa_product a \<and> in_run pfx p) (db_products d)) (db_attempts d)))"

section \<open>Checks and violations\<close>

record verification_check =
  vc_name :: string
  vc_passed :: bool
  vc_violations :: "string list"
  vc_note :: string

definition detail_limit :: nat where "detail_limit = 20"

definition append_violation :: "string list \<Rightarrow> string \<Rightarrow> string list" where
  "append_violation vs v = (if length vs < detail_limit then vs @ [v] else vs)"

definition make_check :: "string \<Rightarrow> string list \<Rightarrow> string \<Rightarrow> verification_check" where
  "make_check name vs note = \<lparr>vc_name = name, vc_passed = (vs = []), vc_violations = vs, vc_note = note\<rparr>"

definition is_active_text :: "string \<Rightarrow> bool" where
  "is_active_text s \<longleftrightarrow> s = ''waiting'' \<or> s = ''invited'' \<or> s = ''checkout''"

definition allowed_pair_count :: "load_data \<Rightarrow> int" where
  "allowed_pair_count data = (\<Sum>u\<leftarrow>ld_users data. int (length (lu_assignments u)))"

text \<open>The key of a user and a product in the maps of the verifier.\<close>

definition pair_key :: "string \<Rightarrow> string \<Rightarrow> string" where
  "pair_key user pid = user @ ''/'' @ pid"

definition check_seed_records :: "load_data \<Rightarrow> string set \<Rightarrow> product_snapshot list \<Rightarrow> verification_check" where
  "check_seed_records data users products =
     (let actual = ps_id ` set products;
          v1 = (if card users \<noteq> length (ld_users data)
                then [''users='' @ show_nat (card users) @ '', expected='' @ show_nat (length (ld_users data))] else []);
          v2 = (if length products \<noteq> length (ld_products data)
                then v1 @ [''products='' @ show_nat (length products) @ '', expected='' @ show_nat (length (ld_products data))]
                else v1);
          v3 = fold (\<lambda>u vs. if lu_id u \<notin> users then append_violation vs (''missing user '' @ lu_id u) else vs)
                 (ld_users data) v2;
          v4 = fold (\<lambda>p vs. if lo_id p \<notin> actual then append_violation vs (''missing product '' @ lo_id p) else vs)
                 (ld_products data) v3
      in make_check ''seed_records_match_data_file'' v4 ''run-scoped users and products match data.json'')"

definition inventory_violations :: "product_snapshot \<Rightarrow> string list \<Rightarrow> string list" where
  "inventory_violations p vs =
     (let v1 = (if ps_stock p < 0 then append_violation vs (ps_id p @ '': negative allocatable_stock'') else vs);
          v2 = (if ps_reserved p < 0 then append_violation v1 (ps_id p @ '': negative reserved'') else v1)
      in if ps_reserved p > ps_stock p
         then append_violation v2 (ps_id p @ '': reserved exceeds allocatable_stock'') else v2)"

definition check_inventory :: "product_snapshot list \<Rightarrow> verification_check" where
  "check_inventory products = make_check ''inventory_bounds'' (fold inventory_violations products [])
     ''stock >= 0, reserved >= 0, reserved <= allocatable_stock''"

definition active_step :: "attempt_snapshot \<Rightarrow> (string \<Rightarrow> int) \<times> string list \<Rightarrow> (string \<Rightarrow> int) \<times> string list" where
  "active_step a st = (case st of (counts, vs) \<Rightarrow>
     if is_active_text (sn_state a) then
       (let key = pair_key (sn_user a) (sn_product a); counts' = counts(key := counts key + 1) in
        (counts', if counts' key > 1 then append_violation vs (''multiple active attempts for '' @ key) else vs))
     else (counts, vs))"

definition check_active_attempts :: "attempt_snapshot list \<Rightarrow> verification_check" where
  "check_active_attempts attempts = make_check ''one_active_attempt_per_user_product''
     (snd (fold active_step attempts (\<lambda>k. 0, []))) ''active states are waiting, invited, and checkout''"

record sequence_scan =
  sq_seen :: "string set"
  sq_maximum :: "string \<Rightarrow> int"
  sq_count :: "string \<Rightarrow> int"
  sq_violations :: "string list"

definition sequence_key :: "attempt_snapshot \<Rightarrow> string" where
  "sequence_key a = sn_product a @ ''/'' @ show_int (sn_sequence a)"

definition sequence_step :: "attempt_snapshot \<Rightarrow> sequence_scan \<Rightarrow> sequence_scan" where
  "sequence_step a s =
     (let key = sequence_key a; pid = sn_product a in
      \<lparr>sq_seen = insert key (sq_seen s),
       sq_maximum = (sq_maximum s)(pid := max (sq_maximum s pid) (sn_sequence a)),
       sq_count = (sq_count s)(pid := sq_count s pid + 1),
       sq_violations = (if key \<in> sq_seen s then append_violation (sq_violations s) (''duplicate queue_sequence '' @ key)
                        else sq_violations s)\<rparr>)"

definition sequence_product :: "sequence_scan \<Rightarrow> product_snapshot \<Rightarrow> string list \<Rightarrow> string list" where
  "sequence_product s p vs =
     (let pid = ps_id p;
          v1 = (if sq_maximum s pid \<noteq> sq_count s pid
                then append_violation vs (pid @ '': sequence max='' @ show_int (sq_maximum s pid) @ '' count='' @
                       show_int (sq_count s pid)) else vs)
      in if ps_next_sequence p \<noteq> i64 (sq_maximum s pid + 1)
         then append_violation v1 (pid @ '': next_queue_sequence='' @ show_int (ps_next_sequence p) @ '' expected='' @
                show_int (i64 (sq_maximum s pid + 1))) else v1)"

definition check_sequences :: "product_snapshot list \<Rightarrow> attempt_snapshot list \<Rightarrow> verification_check" where
  "check_sequences products attempts =
     (let s = fold sequence_step attempts \<lparr>sq_seen = {}, sq_maximum = (\<lambda>k. 0), sq_count = (\<lambda>k. 0), sq_violations = []\<rparr>
      in make_check ''queue_sequence_unique_and_contiguous'' (fold (sequence_product s) products (sq_violations s))
           ''each run starts at sequence 1 and does not delete attempts'')"

definition attempts_by_product :: "attempt_snapshot list \<Rightarrow> string \<Rightarrow> attempt_snapshot list" where
  "attempts_by_product attempts pid = filter (\<lambda>a. sn_product a = pid) attempts"

text \<open>The pairs of neighbours of a list, from the left.\<close>

fun neighbour_violations ::
  "(attempt_snapshot \<Rightarrow> attempt_snapshot \<Rightarrow> bool) \<Rightarrow> string \<Rightarrow> attempt_snapshot list \<Rightarrow> string list \<Rightarrow> string list" where
  "neighbour_violations bad message (a # b # as) vs =
     neighbour_violations bad message (b # as) (if bad a b then append_violation vs message else vs)"
| "neighbour_violations bad message _ vs = vs"

definition check_fifo :: "string list \<Rightarrow> attempt_snapshot list \<Rightarrow> verification_check" where
  "check_fifo order attempts = make_check ''fifo_sequence_order''
     (fold (\<lambda>pid. neighbour_violations (\<lambda>a b. sn_created_at b < sn_created_at a)
              (pid @ '': creation order contradicts queue_sequence'')
              (sort_key sn_sequence (attempts_by_product attempts pid))) order [])
     ''creation timestamps are monotonic in queue_sequence order''"

definition allowed_pairs :: "load_data \<Rightarrow> string set" where
  "allowed_pairs data = set (concat (map (\<lambda>u. map (\<lambda>x. pair_key (lu_id u) (as_product x)) (lu_assignments u)) (ld_users data)))"

definition check_allowed_attempts :: "load_data \<Rightarrow> attempt_snapshot list \<Rightarrow> verification_check" where
  "check_allowed_attempts data attempts =
     (let allowed = allowed_pairs data;
          v1 = fold (\<lambda>a vs. let key = pair_key (sn_user a) (sn_product a) in
                 if key \<notin> allowed then append_violation vs (''attempt outside generated assignments: '' @ key) else vs)
                 attempts [];
          v2 = (if length attempts > card allowed
                then append_violation v1 (''attempts='' @ show_nat (length attempts) @
                       '' exceed unique allowed pairs='' @ show_nat (card allowed)) else v1)
      in make_check ''attempts_within_unique_user_product_links'' v2 ''expected domain rejections may make the count lower'')"

definition tuple_key :: "attempt_snapshot \<Rightarrow> string" where
  "tuple_key a = sn_user a @ ''/'' @ sn_product a @ ''/'' @ sn_key a"

definition idempotency_step ::
  "attempt_snapshot \<Rightarrow> (string \<rightharpoonup> string) \<times> string list \<Rightarrow> (string \<rightharpoonup> string) \<times> string list" where
  "idempotency_step a st = (case st of (seen, vs) \<Rightarrow>
     (seen(tuple_key a \<mapsto> sn_id a),
      case seen (tuple_key a) of None \<Rightarrow> vs
      | Some previous \<Rightarrow> if previous \<noteq> sn_id a
          then append_violation vs (''idempotency tuple maps to multiple attempts: '' @ tuple_key a) else vs))"

definition check_idempotency :: "attempt_snapshot list \<Rightarrow> verification_check" where
  "check_idempotency attempts = make_check ''idempotent_join_single_attempt''
     (snd (fold idempotency_step attempts (Map.empty, [])))
     ''same user, product, and Idempotency-Key creates at most one attempt''"

definition check_waiting_positions :: "string list \<Rightarrow> attempt_snapshot list \<Rightarrow> verification_check" where
  "check_waiting_positions order attempts = make_check ''waiting_position_and_total''
     (fold (\<lambda>pid. neighbour_violations (\<lambda>a b. sn_sequence b \<le> sn_sequence a)
              (pid @ '': invalid waiting position order'')
              (sort_key sn_sequence (filter (\<lambda>a. sn_state a = ''waiting'') (attempts_by_product attempts pid)))) order [])
     ''position is lower-sequence waiting count + 1; total_waiting is the per-product waiting count''"

definition valid_pair :: "time option \<Rightarrow> time option \<Rightarrow> bool" where
  "valid_pair start deadline = (case (start, deadline) of (Some s, Some t) \<Rightarrow> s < t | _ \<Rightarrow> False)"

definition deadline_reached :: "time option \<Rightarrow> time option \<Rightarrow> bool" where
  "deadline_reached terminal deadline = (case (terminal, deadline) of (Some t, Some d) \<Rightarrow> \<not> t < d | _ \<Rightarrow> False)"

definition valid_timestamps :: "attempt_snapshot \<Rightarrow> bool" where
  "valid_timestamps a \<longleftrightarrow>
     \<not> sn_updated_at a < sn_created_at a \<and>
     (if sn_state a = ''waiting'' then sn_invited_at a = None \<and> sn_checkout_started_at a = None \<and>
        sn_terminal_at a = None \<and> sn_purchased_at a = None
      else if sn_state a = ''invited'' then valid_pair (sn_invited_at a) (sn_invitation_deadline a) \<and>
        sn_checkout_started_at a = None \<and> sn_terminal_at a = None
      else if sn_state a = ''checkout'' then valid_pair (sn_invited_at a) (sn_invitation_deadline a) \<and>
        valid_pair (sn_checkout_started_at a) (sn_checkout_deadline a) \<and> sn_terminal_at a = None
      else if sn_state a = ''purchased'' then sn_invited_at a \<noteq> None \<and> sn_checkout_started_at a \<noteq> None \<and>
        sn_purchased_at a \<noteq> None \<and> sn_terminal_at a \<noteq> None \<and> sn_purchased_at a = sn_terminal_at a \<and>
        sn_accepted_provider a \<noteq> None \<and> sn_accepted_reference a \<noteq> None
      else if sn_state a = ''invite_expired'' then sn_invited_at a \<noteq> None \<and> sn_invitation_deadline a \<noteq> None \<and>
        sn_checkout_started_at a = None \<and> deadline_reached (sn_terminal_at a) (sn_invitation_deadline a)
      else if sn_state a = ''checkout_expired'' then sn_invited_at a \<noteq> None \<and> sn_checkout_started_at a \<noteq> None \<and>
        deadline_reached (sn_terminal_at a) (sn_checkout_deadline a)
      else if sn_state a = ''payment_failed'' then sn_invited_at a \<noteq> None \<and> sn_checkout_started_at a \<noteq> None \<and>
        sn_terminal_at a \<noteq> None
      else if sn_state a = ''cancelled'' then sn_terminal_at a \<noteq> None \<and> sn_purchased_at a = None
      else if sn_state a = ''sold_out'' then sn_invited_at a = None \<and> sn_checkout_started_at a = None \<and>
        sn_terminal_at a \<noteq> None
      else False) \<and>
     (if is_active_text (sn_state a) then sn_terminal_reason a = None else sn_terminal_reason a \<noteq> None) \<and>
     (sn_state a \<noteq> ''purchased'' \<longrightarrow> sn_accepted_provider a = None \<and> sn_accepted_reference a = None)"

definition check_state_timestamps_of :: "attempt_snapshot list \<Rightarrow> verification_check" where
  "check_state_timestamps_of attempts = make_check ''state_timestamp_combinations''
     (fold (\<lambda>a vs. if \<not> valid_timestamps a
        then append_violation vs (sn_id a @ '': impossible state/timestamp combination for '' @ sn_state a) else vs) attempts [])
     ''matches the queue_attempts domain constraints''"

definition check_references :: "string set \<Rightarrow> product_snapshot list \<Rightarrow> attempt_snapshot list \<Rightarrow> verification_check" where
  "check_references users products attempts =
     (let ids = ps_id ` set products in
      make_check ''references_resolve''
        (fold (\<lambda>a vs.
           let v1 = (if sn_product a \<notin> ids then append_violation vs (sn_id a @ '': missing run-scoped product'') else vs)
           in if sn_user a \<notin> users
              then append_violation v1 (sn_id a @ '': external_user_id has no run-scoped user'') else v1) attempts [])
        ''product FK and external user references resolve inside the run'')"

section \<open>The verdict\<close>

record verification_counts =
  vn_users :: int
  vn_products :: int
  vn_attempts :: int
  vn_waiting :: int
  vn_invited :: int
  vn_checkout :: int
  vn_terminal :: int
  vn_allowed_pairs :: int
  vn_purchased :: int
  vn_cancelled :: int
  vn_checkout_expired :: int
  vn_queue_rejected :: int
  vn_sold_out :: int
  vn_unresolved :: int
  vn_payment_accepted :: int
  vn_payment_rejected :: int
  vn_payment_technical_error :: int

definition zero_counts :: verification_counts where
  "zero_counts = \<lparr>vn_users = 0, vn_products = 0, vn_attempts = 0, vn_waiting = 0, vn_invited = 0, vn_checkout = 0,
     vn_terminal = 0, vn_allowed_pairs = 0, vn_purchased = 0, vn_cancelled = 0, vn_checkout_expired = 0,
     vn_queue_rejected = 0, vn_sold_out = 0, vn_unresolved = 0, vn_payment_accepted = 0, vn_payment_rejected = 0,
     vn_payment_technical_error = 0\<rparr>"

record verification_result =
  vr_run_id :: string
  vr_passed :: bool
  vr_counts :: verification_counts
  vr_checks :: "verification_check list"

definition count_state :: "attempt_snapshot \<Rightarrow> verification_counts \<Rightarrow> verification_counts" where
  "count_state a c =
     (if sn_state a = ''waiting'' then c\<lparr>vn_waiting := vn_waiting c + 1\<rparr>
      else if sn_state a = ''invited'' then c\<lparr>vn_invited := vn_invited c + 1\<rparr>
      else if sn_state a = ''checkout'' then c\<lparr>vn_checkout := vn_checkout c + 1\<rparr>
      else c\<lparr>vn_terminal := vn_terminal c + 1\<rparr>)"

definition evaluate ::
  "string \<Rightarrow> load_data \<Rightarrow> string list \<Rightarrow> string set \<Rightarrow> product_snapshot list \<Rightarrow> attempt_snapshot list \<Rightarrow> verification_result" where
  "evaluate run_id data order users products attempts =
     (let counts = fold count_state attempts (zero_counts\<lparr>vn_users := int (card users),
            vn_products := int (length products), vn_attempts := int (length attempts),
            vn_allowed_pairs := allowed_pair_count data\<rparr>);
          checks = [check_seed_records data users products, check_inventory products,
            check_active_attempts attempts, check_sequences products attempts, check_fifo order attempts,
            check_allowed_attempts data attempts, check_idempotency attempts, check_waiting_positions order attempts,
            check_state_timestamps_of attempts, check_references users products attempts]
      in \<lparr>vr_run_id = run_id, vr_passed = list_all vc_passed checks, vr_counts = counts, vr_checks = checks\<rparr>)"

section \<open>The outcome of a queue scenario\<close>

text \<open>\<open>outcomes.go\<close>: the final state of every generated pair, read back from the attempts.\<close>

definition actual_outcome :: "string \<Rightarrow> string" where
  "actual_outcome state = (if state \<in> {''purchased'', ''cancelled'', ''checkout_expired'', ''sold_out''}
     then state else ''unresolved'')"

record request_log_result =
  lg_user :: string
  lg_product :: string
  lg_attempt :: "string option"
  lg_operation :: string
  lg_http_status :: "int option"
  lg_payment_event :: "string option"
  lg_payment_inbox :: "string option"
  lg_final_state :: string
  lg_actual_outcome :: string
  lg_technical_error :: "string option"

definition attempt_by_pair :: "attempt_snapshot list \<Rightarrow> string \<rightharpoonup> attempt_snapshot" where
  "attempt_by_pair attempts = fold (\<lambda>a m. m(pair_key (sn_user a) (sn_product a) \<mapsto> a)) attempts Map.empty"

definition queue_outcome_step ::
  "(string \<rightharpoonup> attempt_snapshot) \<Rightarrow> string \<times> string \<Rightarrow> verification_counts \<times> request_log_result list \<Rightarrow>
     verification_counts \<times> request_log_result list" where
  "queue_outcome_step by_pair pair ev = (case (pair, ev) of ((user, pid), (c, logs)) \<Rightarrow>
     (case by_pair (pair_key user pid) of
        None \<Rightarrow> (c\<lparr>vn_queue_rejected := vn_queue_rejected c + 1\<rparr>, logs @
          [\<lparr>lg_user = user, lg_product = pid, lg_attempt = None,
            lg_operation = ''POST /api/v1/products/{productID}/queue-entries'',
            lg_http_status = None, lg_payment_event = None, lg_payment_inbox = None,
            lg_final_state = ''queue_rejected'', lg_actual_outcome = ''queue_rejected'', lg_technical_error = None\<rparr>])
      | Some a \<Rightarrow>
          let outcome = actual_outcome (sn_state a) in
          (if outcome = ''purchased'' then c\<lparr>vn_purchased := vn_purchased c + 1\<rparr>
           else if outcome = ''cancelled'' then c\<lparr>vn_cancelled := vn_cancelled c + 1\<rparr>
           else if outcome = ''checkout_expired'' then c\<lparr>vn_checkout_expired := vn_checkout_expired c + 1\<rparr>
           else if outcome = ''sold_out'' then c\<lparr>vn_sold_out := vn_sold_out c + 1\<rparr>
           else c\<lparr>vn_unresolved := vn_unresolved c + 1\<rparr>,
           logs @ [\<lparr>lg_user = user, lg_product = pid, lg_attempt = Some (sn_id a),
             lg_operation = ''GET /api/v1/products/{productID}/queue-entry'',
             lg_http_status = None, lg_payment_event = None, lg_payment_inbox = None,
             lg_final_state = sn_state a, lg_actual_outcome = outcome, lg_technical_error = None\<rparr>])))"

definition evaluate_queue_scenario ::
  "load_data \<Rightarrow> attempt_snapshot list \<Rightarrow> verification_counts \<times> request_log_result list" where
  "evaluate_queue_scenario data attempts =
     fold (queue_outcome_step (attempt_by_pair attempts))
       (concat (map (\<lambda>u. map (\<lambda>x. (lu_id u, as_product x)) (lu_assignments u)) (ld_users data))) (zero_counts, [])"

section \<open>When the checks pass\<close>

lemma append_violation_not_Nil [simp]: "append_violation vs v \<noteq> []"
  by (cases vs) (auto simp: append_violation_def detail_limit_def)

lemma make_check_passed [simp]: "vc_passed (make_check name vs note) \<longleftrightarrow> vs = []"
  by (simp add: make_check_def)

lemma fold_violations:
  "fold (\<lambda>x vs. if P x then append_violation vs (msg x) else vs) xs vs = [] \<longleftrightarrow> vs = [] \<and> (\<forall>x\<in>set xs. \<not> P x)"
  by (induction xs arbitrary: vs) auto

lemma fold_Nil_iff:
  assumes "\<And>x vs. f x vs = [] \<longleftrightarrow> vs = [] \<and> ok x"
  shows "fold f xs vs = [] \<longleftrightarrow> vs = [] \<and> (\<forall>x\<in>set xs. ok x)"
  using assms by (induction xs arbitrary: vs) auto

lemma check_inventory_passed:
  "vc_passed (check_inventory ps) \<longleftrightarrow> (\<forall>p\<in>set ps. 0 \<le> ps_stock p \<and> 0 \<le> ps_reserved p \<and> ps_reserved p \<le> ps_stock p)"
proof -
  have "inventory_violations p vs = [] \<longleftrightarrow>
      vs = [] \<and> (0 \<le> ps_stock p \<and> 0 \<le> ps_reserved p \<and> ps_reserved p \<le> ps_stock p)" for p vs
    by (auto simp: inventory_violations_def Let_def)
  from fold_Nil_iff [of inventory_violations, OF this] show ?thesis by (simp add: check_inventory_def)
qed

definition active_keys :: "attempt_snapshot list \<Rightarrow> string list" where
  "active_keys as = map (\<lambda>a. pair_key (sn_user a) (sn_product a)) (filter (\<lambda>a. is_active_text (sn_state a)) as)"

lemma active_scan:
  assumes "\<forall>k. counts k = int (count_list seen k)" and "vs = [] \<longleftrightarrow> distinct seen"
  shows "snd (fold active_step as (counts, vs)) = [] \<longleftrightarrow> distinct (seen @ active_keys as)"
  using assms
proof (induction as arbitrary: counts vs seen)
  case Nil
  then show ?case by (simp add: active_keys_def)
next
  case (Cons a as)
  show ?case
  proof (cases "is_active_text (sn_state a)")
    case False
    then show ?thesis using Cons.IH [OF Cons.prems] by (simp add: active_step_def active_keys_def)
  next
    case True
    let ?k = "pair_key (sn_user a) (sn_product a)"
    let ?vs = "if counts ?k + 1 > 1 then append_violation vs (''multiple active attempts for '' @ ?k) else vs"
    have "counts ?k + 1 > 1 \<longleftrightarrow> ?k \<in> set seen"
      using Cons.prems(1) by (auto simp: count_list_0_iff neq0_conv [symmetric] simp del: neq0_conv)
    then have "?vs = [] \<longleftrightarrow> distinct (seen @ [?k])" using Cons.prems(2) by simp
    moreover have "\<forall>k. (counts(?k := counts ?k + 1)) k = int (count_list (seen @ [?k]) k)"
      using Cons.prems(1) by (simp add: count_list_append)
    ultimately have "snd (fold active_step as (counts(?k := counts ?k + 1), ?vs)) = [] \<longleftrightarrow>
        distinct ((seen @ [?k]) @ active_keys as)" by (rule Cons.IH [rotated])
    moreover have "active_step a (counts, vs) = (counts(?k := counts ?k + 1), ?vs)"
      using True by (simp only: active_step_def Let_def prod.case fun_upd_same if_True)
    moreover have "active_keys (a # as) = ?k # active_keys as" using True by (simp add: active_keys_def)
    ultimately show ?thesis by (simp only: fold_Cons o_apply append_assoc append_Cons append_Nil)
  qed
qed

lemma check_active_attempts_passed: "vc_passed (check_active_attempts as) \<longleftrightarrow> distinct (active_keys as)"
  using active_scan [of "\<lambda>k. 0" "[]" "[]" as] by (simp add: check_active_attempts_def)

lemma neighbours_passed:
  "neighbour_violations bad m as vs = [] \<longleftrightarrow>
     vs = [] \<and> (\<forall>i. Suc i < length as \<longrightarrow> \<not> bad (as ! i) (as ! Suc i))"
proof (induction bad m as vs rule: neighbour_violations.induct)
  case (1 bad m a b as vs)
  have "(\<forall>i. Suc i < length (a # b # as) \<longrightarrow> \<not> bad ((a # b # as) ! i) ((a # b # as) ! Suc i)) \<longleftrightarrow>
      \<not> bad a b \<and> (\<forall>i. Suc i < length (b # as) \<longrightarrow> \<not> bad ((b # as) ! i) ((b # as) ! Suc i))"
    by (auto simp: less_Suc_eq_0_disj nth_Cons split: nat.splits)
  then show ?case using 1 by auto
qed auto

end
