(* ===== verification/Verifier_Properties.thy ===== *)
theory Verifier_Properties
  imports Verifier Example
begin

text \<open>
  The verifier agrees with the server: the checks that only look at what the server writes pass
  on every database it can reach, and passing the check of the queue sequences means exactly
  that the positions of every product are one, two, three and so on.
\<close>

section \<open>Keys of the verifier's maps\<close>

text \<open>The last component of a key joined by slashes is known if it holds no slash.\<close>

lemma last_component_eq:
  "s @ c # a = t @ c # b \<Longrightarrow> c \<notin> set a \<Longrightarrow> c \<notin> set b \<Longrightarrow> s = t \<and> a = b"
  by (auto simp: append_eq_append_conv2 Cons_eq_append_conv append_eq_Cons_conv)

definition plain_uuid_text :: "externals \<Rightarrow> bool" where
  "plain_uuid_text ext \<longleftrightarrow> inj (ext_uuid_string ext) \<and> (\<forall>u. CHR ''/'' \<notin> set (ext_uuid_string ext u))"

lemma pair_key_eq:
  assumes "plain_uuid_text ext"
  shows "pair_key u (ext_uuid_string ext p) = pair_key v (ext_uuid_string ext q) \<longleftrightarrow> u = v \<and> p = q"
  using assms last_component_eq [of u "CHR ''/''" "ext_uuid_string ext p" v "ext_uuid_string ext q"]
  by (auto simp: pair_key_def plain_uuid_text_def dest: injD)

lemma no_slash_key_char: "\<not> key_char (CHR ''/'')" "\<not> is_alnum (CHR ''/'')"
  by code_simp+

lemma key_pattern_no_slash: "idempotency_key_pattern k \<Longrightarrow> CHR ''/'' \<notin> set k"
  using no_slash_key_char by (auto simp: idempotency_key_pattern_def list_all_iff split: list.splits)

section \<open>The snapshots of a reachable database\<close>

lemma set_read_attempts:
  "set (read_attempts ext pfx d) \<subseteq> attempt_snapshot_of ext ` set (db_attempts d)"
  by (auto simp: read_attempts_def)

lemma is_active_text_state [simp]: "is_active_text (state_text s) \<longleftrightarrow> is_active_state s"
  by (cases s) (simp_all add: is_active_text_def is_active_state_def)

lemma snapshot_sel [simp]:
  "sn_id (attempt_snapshot_of ext a) = ext_uuid_string ext (qa_id a)"
  "sn_product (attempt_snapshot_of ext a) = ext_uuid_string ext (qa_product a)"
  "sn_sequence (attempt_snapshot_of ext a) = qa_sequence a"
  "sn_user (attempt_snapshot_of ext a) = qa_user a" "sn_key (attempt_snapshot_of ext a) = qa_key a"
  "sn_state (attempt_snapshot_of ext a) = state_text (qa_state a)"
  by (simp_all add: attempt_snapshot_of_def)

lemma active_keys_distinct:
  assumes inv: "attempts_inv (db_attempts d)" and ext: "plain_uuid_text ext"
  shows "distinct (active_keys (read_attempts ext pfx d))"
proof -
  let ?xs = "filter (\<lambda>a. is_active_state (qa_state a)) (sort_key (\<lambda>a. (qa_product a, qa_sequence a))
       (filter (\<lambda>a. list_ex (\<lambda>p. pr_id p = qa_product a \<and> in_run pfx p) (db_products d)) (db_attempts d)))"
  let ?key = "\<lambda>a. pair_key (qa_user a) (ext_uuid_string ext (qa_product a))"
  have eq: "active_keys (read_attempts ext pfx d) = map ?key ?xs"
    by (simp add: active_keys_def read_attempts_def filter_map o_def)
  have "inj_on ?key (set ?xs)"
  proof (rule inj_onI)
    fix a b assume ab: "a \<in> set ?xs" "b \<in> set ?xs" "?key a = ?key b"
    show "a = b"
    proof (rule ccontr)
      assume "a \<noteq> b"
      then have "compatible a b" using attempts_inv_pair [OF inv] ab(1,2) by simp
      then show False using ab pair_key_eq [OF ext] by (simp add: compatible_def both_active_def)
    qed
  qed
  moreover have "distinct ?xs" using attempts_inv_distinct [OF inv] by simp
  ultimately show ?thesis unfolding eq by (simp add: distinct_map)
qed

lemma idempotency_scan:
  assumes "\<forall>a\<in>set as. \<forall>b\<in>set as. tuple_key a = tuple_key b \<longrightarrow> sn_id a = sn_id b"
    and "\<forall>a\<in>set as. \<forall>i. m (tuple_key a) = Some i \<longrightarrow> i = sn_id a"
  shows "snd (fold idempotency_step as (m, vs)) = vs"
  using assms
proof (induction as arbitrary: m)
  case (Cons a as)
  have "idempotency_step a (m, vs) = (m(tuple_key a \<mapsto> sn_id a), vs)"
    using Cons.prems(2) by (auto simp: idempotency_step_def split: option.splits)
  moreover have "\<forall>b\<in>set as. \<forall>i. (m(tuple_key a \<mapsto> sn_id a)) (tuple_key b) = Some i \<longrightarrow> i = sn_id b"
    using Cons.prems by (metis fun_upd_apply list.set_intros option.inject)
  moreover have "\<forall>a\<in>set as. \<forall>b\<in>set as. tuple_key a = tuple_key b \<longrightarrow> sn_id a = sn_id b"
    using Cons.prems(1) by (meson list.set_intros(2))
  ultimately show ?case using Cons.IH by (simp only: fold_Cons o_apply)
qed simp

lemma idempotency_passes:
  assumes inv: "attempts_inv (db_attempts d)" and ext: "plain_uuid_text ext"
  shows "vc_passed (check_idempotency (read_attempts ext pfx d))"
proof -
  have "sn_id x = sn_id y" if xy: "x \<in> set (read_attempts ext pfx d)" "y \<in> set (read_attempts ext pfx d)"
    "tuple_key x = tuple_key y" for x y
  proof -
    obtain a where a: "a \<in> set (db_attempts d)" "x = attempt_snapshot_of ext a"
      using xy(1) set_read_attempts by blast
    obtain b where b: "b \<in> set (db_attempts d)" "y = attempt_snapshot_of ext b"
      using xy(2) set_read_attempts by blast
    note ab = a b
    have row: "attempt_checks c" if "c \<in> set (db_attempts d)" for c
      using inv that by (auto simp: attempts_inv_def row_ok_def)
    have "idempotency_key_pattern (qa_key a)" "idempotency_key_pattern (qa_key b)"
      using row [OF ab(1)] row [OF ab(3)] by (simp_all add: attempt_check_defs)
    then have "qa_key a = qa_key b \<and> pair_key (qa_user a) (ext_uuid_string ext (qa_product a)) =
        pair_key (qa_user b) (ext_uuid_string ext (qa_product b))"
      using last_component_eq [of "pair_key (qa_user a) (ext_uuid_string ext (qa_product a))" "CHR ''/''" "qa_key a"
          "pair_key (qa_user b) (ext_uuid_string ext (qa_product b))" "qa_key b"] xy(3) ab(2,4)
      by (auto simp: key_pattern_no_slash pair_key_def tuple_key_def)
    then have same: "qa_key a = qa_key b" "qa_user a = qa_user b" "qa_product a = qa_product b"
      using pair_key_eq [OF ext] by auto
    then have "a = b" using attempts_inv_pair [OF inv ab(1,3)] by (auto simp: compatible_def)
    then show ?thesis using ab by simp
  qed
  then have "\<forall>a\<in>set (read_attempts ext pfx d). \<forall>b\<in>set (read_attempts ext pfx d).
      tuple_key a = tuple_key b \<longrightarrow> sn_id a = sn_id b" by blast
  from idempotency_scan [OF this, of Map.empty "[]"] show ?thesis by (simp add: check_idempotency_def)
qed

text \<open>Different positions, so sorting by position is strict.\<close>

lemma sorted_key_strict:
  fixes f :: "'a \<Rightarrow> 'b::linorder"
  assumes "distinct (map f xs)" and "Suc i < length xs"
  shows "f (sort_key f xs ! i) < f (sort_key f xs ! Suc i)"
proof -
  let ?ys = "map f (sort_key f xs)"
  have "sorted ?ys" by simp
  moreover have "distinct ?ys" using assms(1) by (simp add: distinct_map)
  ultimately have "?ys ! i \<le> ?ys ! Suc i" and "?ys ! i \<noteq> ?ys ! Suc i"
    using assms(2) by (simp_all add: sorted_nth_mono nth_eq_iff_index_eq del: nth_map)
  then show ?thesis using assms(2) by simp
qed

lemma waiting_positions_pass:
  assumes inv: "attempts_inv (db_attempts d)" and ext: "plain_uuid_text ext"
  shows "vc_passed (check_waiting_positions order (read_attempts ext pfx d))"
proof -
  let ?xs = "\<lambda>pid. filter (\<lambda>a. sn_state a = ''waiting'') (attempts_by_product (read_attempts ext pfx d) pid)"
  have dist: "distinct (map sn_sequence (?xs pid))" for pid
  proof -
    let ?ys = "filter (\<lambda>a. ext_uuid_string ext (qa_product a) = pid \<and> state_text (qa_state a) = ''waiting'')
      (sort_key (\<lambda>a. (qa_product a, qa_sequence a))
       (filter (\<lambda>a. list_ex (\<lambda>p. pr_id p = qa_product a \<and> in_run pfx p) (db_products d)) (db_attempts d)))"
    have eq: "map sn_sequence (?xs pid) = map qa_sequence ?ys"
      by (simp add: attempts_by_product_def read_attempts_def filter_map o_def conj_commute)
    have "inj_on qa_sequence (set ?ys)"
    proof (rule inj_onI, rule ccontr)
      fix a b assume ab: "a \<in> set ?ys" "b \<in> set ?ys" "qa_sequence a = qa_sequence b" "a \<noteq> b"
      then have "compatible a b" using attempts_inv_pair [OF inv] by simp
      moreover have "qa_product a = qa_product b" using ab(1,2) ext by (auto simp: plain_uuid_text_def dest: injD)
      ultimately show False using ab(3) by (simp add: compatible_def)
    qed
    moreover have "distinct ?ys" using attempts_inv_distinct [OF inv] by simp
    ultimately show ?thesis unfolding eq by (simp add: distinct_map)
  qed
  have "\<not> sn_sequence (sort_key sn_sequence (?xs pid) ! Suc i) \<le> sn_sequence (sort_key sn_sequence (?xs pid) ! i)"
    if "Suc i < length (sort_key sn_sequence (?xs pid))" for pid i
    using sorted_key_strict [OF dist, of i pid] that by simp
  then have "fold (\<lambda>pid. neighbour_violations (\<lambda>a b. sn_sequence b \<le> sn_sequence a)
      (pid @ '': invalid waiting position order'') (sort_key sn_sequence (?xs pid))) order [] = []"
    by (subst fold_Nil_iff [where ok = "\<lambda>pid. True"]) (simp_all add: neighbours_passed)
  then show ?thesis by (simp add: check_waiting_positions_def)
qed

lemma row_timestamps_valid:
  assumes "attempt_checks a"
  shows "valid_timestamps (attempt_snapshot_of ext a)"
  using assms
  by (cases "qa_state a"; cases "qa_invited_at a"; cases "qa_checkout_started_at a")
    (auto simp: attempt_check_defs check_state_timestamps.simps valid_timestamps_def attempt_snapshot_of_def
      is_active_text_def is_active_state_def valid_pair_def deadline_reached_def check_payment_field_def
      split: option.splits)

lemma timestamps_pass:
  assumes "attempts_inv (db_attempts d)"
  shows "vc_passed (check_state_timestamps_of (read_attempts ext pfx d))"
proof -
  have "\<forall>x\<in>set (read_attempts ext pfx d). valid_timestamps x"
    using set_read_attempts assms row_timestamps_valid by (fastforce simp: attempts_inv_def row_ok_def)
  then show ?thesis by (simp add: check_state_timestamps_of_def fold_violations)
qed

section \<open>The verifier accepts what the server does\<close>

text \<open>
  C28. No false alarms: whatever calls the server has served since a fresh catalogue, the
  verifier's checks of the inventory, of active attempts, of idempotency, of waiting positions
  and of state timestamps pass on what it reads back, for every run prefix and every order in
  which it visits the products. The text of a UUID is assumed injective and without slashes.
\<close>

theorem verifier_accepts_store:
  assumes start: "fresh_catalogue start" and run: "reachable rp start d" and ext: "plain_uuid_text ext"
  shows "list_all vc_passed
     [check_inventory (read_products ext pfx d), check_active_attempts (read_attempts ext pfx d),
      check_idempotency (read_attempts ext pfx d), check_waiting_positions order (read_attempts ext pfx d),
      check_state_timestamps_of (read_attempts ext pfx d)]"
proof -
  have inv: "db_inv d" using reachable_inv [OF run start] by (simp add: store_inv_def)
  have "vc_passed (check_inventory (read_products ext pfx d))"
    using db_invD(3) [OF inv] by (auto simp: check_inventory_passed read_products_def product_ok_def)
  then show ?thesis
    using db_invD(1) [OF inv] active_keys_distinct idempotency_passes waiting_positions_pass timestamps_pass ext
    by (simp add: check_active_attempts_passed)
qed

lemma demo_uuid_plain: "plain_uuid_text demo_externals"
proof -
  have "inj (ext_uuid_string demo_externals)"
    by (auto simp: demo_externals_def inj_def show_nat_inj word_unat_eq_iff)
  moreover have "CHR ''/'' \<notin> set (show_nat n)" for n
    using show_nat_digits [of n] by (auto simp: is_digit_def byte_of_def)
  ultimately show ?thesis by (simp add: plain_uuid_text_def demo_externals_def)
qed

lemma verifier_accepts_store_witness:
  "vc_passed (check_active_attempts (read_attempts demo_externals ''sh'' demo_two)) \<and>
   length (read_attempts demo_externals ''sh'' demo_two) = 2"
proof
  show "vc_passed (check_active_attempts (read_attempts demo_externals ''sh'' demo_two))"
    using verifier_accepts_store [OF demo_fresh demo_reachable(3) demo_uuid_plain] by simp
  show "length (read_attempts demo_externals ''sh'' demo_two) = 2" by code_simp
qed

section \<open>What the check of the sequences means\<close>

lemma sequence_scan_fields:
  "sq_count (fold sequence_step as s) p = sq_count s p + int (length (attempts_by_product as p))"
  "sq_maximum (fold sequence_step as s) p = fold max (map sn_sequence (attempts_by_product as p)) (sq_maximum s p)"
  by (induction as arbitrary: s) (auto simp: sequence_step_def Let_def attempts_by_product_def max.commute)

lemma sequence_scan_violations:
  "sq_violations (fold sequence_step as s) = [] \<longleftrightarrow>
     sq_violations s = [] \<and> distinct (map sequence_key as) \<and> sequence_key ` set as \<inter> sq_seen s = {}"
  by (induction as arbitrary: s) (auto simp: sequence_step_def Let_def)

lemma sequence_key_eq:
  "sequence_key a = sequence_key b \<longleftrightarrow> sn_product a = sn_product b \<and> sn_sequence a = sn_sequence b"
proof -
  have "CHR ''/'' \<notin> set (show_nat n)" for n
    using show_nat_digits [of n] by (auto simp: is_digit_def byte_of_def)
  then have "CHR ''/'' \<notin> set (show_int i)" for i by (simp add: show_int_def)
  then show ?thesis
    using last_component_eq [of "sn_product a" "CHR ''/''" "show_int (sn_sequence a)" "sn_product b" "show_int (sn_sequence b)"]
    by (auto simp: sequence_key_def show_int_inj)
qed

text \<open>Positive distinct numbers whose maximum is their count are an initial segment.\<close>

lemma initial_segment_iff:
  fixes ns :: "int list"
  assumes "distinct ns" and "\<forall>n\<in>set ns. 1 \<le> n"
  shows "fold max ns 0 = int (length ns) \<and> next = fold max ns 0 + 1 \<longleftrightarrow> 1 \<le> next \<and> set ns = {1..<next}"
proof -
  have M: "fold max ns 0 = Max (insert 0 (set ns))" by (simp flip: Max.set_eq_fold)
  have card: "card (set ns) = length ns" using assms(1) by (rule distinct_card)
  show ?thesis
  proof
    assume a: "fold max ns 0 = int (length ns) \<and> next = fold max ns 0 + 1"
    then have "n \<le> int (length ns)" if "n \<in> set ns" for n
      using that M Max_ge [of "insert 0 (set ns)" n] by simp
    then have sub: "set ns \<subseteq> {1..int (length ns)}" using assms(2) by auto
    have "set ns = {1..int (length ns)}"
      by (rule card_subset_eq [OF _ sub]) (simp_all add: card)
    moreover have "next = int (length ns) + 1" using a by linarith
    moreover have "{1..<m + 1} = {1..m}" for m :: int by auto
    ultimately show "1 \<le> next \<and> set ns = {1..<next}" by (metis le_add_same_cancel2 of_nat_0_le_iff)
  next
    assume a: "1 \<le> next \<and> set ns = {1..<next}"
    then have "nat (next - 1) = length ns" using card by simp
    then have "int (length ns) = next - 1" using a by linarith
    moreover have "Max (insert 0 (set ns)) = next - 1"
      using a by (intro Max_eqI) (auto simp: le_less)
    ultimately show "fold max ns 0 = int (length ns) \<and> next = fold max ns 0 + 1" using M by simp
  qed
qed

text \<open>
  C29. What the check of the sequences decides: with positions in the range of the column, it
  passes exactly when no position of a product is taken twice and the positions of every product
  are \<open>1, ..., next_queue_sequence - 1\<close>, so that no attempt is missing.
\<close>

theorem sequences_check_exact:
  assumes "\<forall>a\<in>set attempts. 1 \<le> sn_sequence a \<and> sn_sequence a < max_int64"
  shows "vc_passed (check_sequences products attempts) \<longleftrightarrow>
     distinct (map (\<lambda>a. (sn_product a, sn_sequence a)) attempts) \<and>
     (\<forall>p\<in>set products. 1 \<le> ps_next_sequence p \<and>
        sn_sequence ` {a \<in> set attempts. sn_product a = ps_id p} = {1..<ps_next_sequence p})"
proof -
  let ?z = "\<lparr>sq_seen = {}, sq_maximum = (\<lambda>k. 0), sq_count = (\<lambda>k. 0), sq_violations = []\<rparr>"
  let ?s = "fold sequence_step attempts ?z"
  let ?ns = "\<lambda>pid. map sn_sequence (attempts_by_product attempts pid)"
  have keys: "distinct (map sequence_key attempts) \<longleftrightarrow> distinct (map (\<lambda>a. (sn_product a, sn_sequence a)) attempts)"
    by (simp add: distinct_map inj_on_def sequence_key_eq)
  have M: "sq_maximum ?s pid < max_int64 \<and> 0 \<le> sq_maximum ?s pid" for pid
  proof -
    have "fold max ns 0 < max_int64 \<and> 0 \<le> fold max ns 0" if "\<forall>n\<in>set ns. 1 \<le> n \<and> n < max_int64" for ns
      using that by (simp add: max_int64_def flip: Max.set_eq_fold)
    from this [of "?ns pid"] show ?thesis
      using assms by (simp add: sequence_scan_fields attempts_by_product_def)
  qed
  have "sequence_product ?s p vs = [] \<longleftrightarrow> vs = [] \<and>
      (sq_maximum ?s (ps_id p) = sq_count ?s (ps_id p) \<and> ps_next_sequence p = sq_maximum ?s (ps_id p) + 1)" for p vs
    using M [of "ps_id p"] by (auto simp: sequence_product_def Let_def i64_id)
  from fold_Nil_iff [of "sequence_product ?s", OF this]
  have "vc_passed (check_sequences products attempts) \<longleftrightarrow> distinct (map sequence_key attempts) \<and>
      (\<forall>p\<in>set products. fold max (?ns (ps_id p)) 0 = int (length (?ns (ps_id p))) \<and>
         ps_next_sequence p = fold max (?ns (ps_id p)) 0 + 1)"
    by (simp add: check_sequences_def Let_def sequence_scan_violations sequence_scan_fields)
  moreover have "fold max (?ns pid) 0 = int (length (?ns pid)) \<and> n = fold max (?ns pid) 0 + 1 \<longleftrightarrow>
      1 \<le> n \<and> sn_sequence ` {a \<in> set attempts. sn_product a = pid} = {1..<n}"
    if "distinct (map (\<lambda>a. (sn_product a, sn_sequence a)) attempts)" for pid n
  proof -
    have "distinct (?ns pid)" using that by (auto simp: distinct_map inj_on_def attempts_by_product_def)
    from initial_segment_iff [OF this] show ?thesis using assms by (auto simp: attempts_by_product_def)
  qed
  ultimately show ?thesis unfolding keys by (simp only: cong: conj_cong)
qed

lemma sequences_check_exact_witness:
  "vc_passed (check_sequences (read_products demo_externals ''sh'' demo_two) (read_attempts demo_externals ''sh'' demo_two))"
proof -
  have "list_all (\<lambda>a. 1 \<le> sn_sequence a \<and> sn_sequence a < 3) (read_attempts demo_externals ''sh'' demo_two)" by code_simp
  then have "\<forall>a\<in>set (read_attempts demo_externals ''sh'' demo_two). 1 \<le> sn_sequence a \<and> sn_sequence a < max_int64"
    by (auto simp: list_all_iff max_int64_def)
  moreover have "map (\<lambda>a. (sn_product a, sn_sequence a)) (read_attempts demo_externals ''sh'' demo_two) = [(''7'', 1), (''7'', 2)]"
    by code_simp
  moreover have "map (\<lambda>p. (ps_id p, ps_next_sequence p)) (read_products demo_externals ''sh'' demo_two) = [(''7'', 3)]"
    by code_simp
  moreover have "map sn_sequence (filter (\<lambda>a. sn_product a = ''7'') (read_attempts demo_externals ''sh'' demo_two)) = [1, 2]"
    by code_simp
  then have "sn_sequence ` {a \<in> set (read_attempts demo_externals ''sh'' demo_two). sn_product a = ''7''} = {1, 2}"
    by (metis empty_set list.simps(15) set_filter set_map)
  moreover have "{1..<3::int} = {1, 2}" by auto
  ultimately show ?thesis
    using sequences_check_exact [of "read_attempts demo_externals ''sh'' demo_two" "read_products demo_externals ''sh'' demo_two"]
    by (cases "read_products demo_externals ''sh'' demo_two") simp_all
qed

end
