(* ===== verification/Use_Cases.thy ===== *)
theory Use_Cases
  imports System
begin

text \<open>
  The use cases (\<open>internal/usecase\<close>): thin wrappers that refuse to work without a repository,
  and the demo payment, which looks up the caller's attempt, submits a payment with identifiers
  derived from the request, and looks again. The repository interface of
  \<open>internal/pkg/repository/queue_attempt.go\<close> is a record of operations on a state; an operation
  that a use case calls twice is given the number of the call.
\<close>

section \<open>The repository interface\<close>

record 's attempt_repository =
  ar_join :: "'s \<Rightarrow> join_queue_command \<Rightarrow> 's \<times> join_queue_result go_return"
  ar_start_checkout :: "'s \<Rightarrow> start_checkout_command \<Rightarrow> 's \<times> queue_attempt go_return"
  ar_cancel :: "'s \<Rightarrow> cancel_queue_command \<Rightarrow> 's \<times> queue_attempt go_return"
  ar_find_current :: "nat \<Rightarrow> 's \<Rightarrow> product_id \<Rightarrow> user_id \<Rightarrow> 's \<times> current_queue_result go_return"
  ar_find_active :: "'s \<Rightarrow> user_id \<Rightarrow> 's \<times> current_queue_result list go_return"
  ar_adjust_stock :: "'s \<Rightarrow> stock_adjustment_command \<Rightarrow> 's \<times> stock_adjustment_result go_return"

type_synonym 's payment_processor = "'s \<Rightarrow> payment_command \<Rightarrow> 's \<times> payment_result go_return"

section \<open>Queue, checkout and stock\<close>

definition use_join ::
  "'s attempt_repository option \<Rightarrow> 's \<Rightarrow> product_id \<Rightarrow> user_id \<Rightarrow> idempotency_key \<Rightarrow> 's \<times> join_queue_result go_return" where
  "use_join attempts s pid user key = (case attempts of
     None \<Rightarrow> (s, None, Some (Sentinel ErrNotImplemented))
   | Some r \<Rightarrow> ar_join r s \<lparr>jq_product = pid, jq_user = user, jq_key = key\<rparr>)"

definition use_current ::
  "'s attempt_repository option \<Rightarrow> 's \<Rightarrow> product_id \<Rightarrow> user_id \<Rightarrow> 's \<times> current_queue_result go_return" where
  "use_current attempts s pid user = (case attempts of
     None \<Rightarrow> (s, None, Some (Sentinel ErrNotImplemented)) | Some r \<Rightarrow> ar_find_current r 0 s pid user)"

definition use_active ::
  "'s attempt_repository option \<Rightarrow> 's \<Rightarrow> user_id \<Rightarrow> 's \<times> current_queue_result list go_return" where
  "use_active attempts s user = (case attempts of
     None \<Rightarrow> (s, None, Some (Sentinel ErrNotImplemented)) | Some r \<Rightarrow> ar_find_active r s user)"

definition use_leave ::
  "'s attempt_repository option \<Rightarrow> 's \<Rightarrow> product_id \<Rightarrow> user_id \<Rightarrow> 's \<times> go_error option" where
  "use_leave attempts s pid user = (case attempts of
     None \<Rightarrow> (s, Some (Sentinel ErrNotImplemented))
   | Some r \<Rightarrow> (case ar_cancel r s \<lparr>cq_product = pid, cq_user = user\<rparr> of (s', a, err) \<Rightarrow> (s', err)))"

definition use_start_checkout ::
  "'s attempt_repository option \<Rightarrow> 's \<Rightarrow> attempt_id \<Rightarrow> user_id \<Rightarrow> 's \<times> queue_attempt go_return" where
  "use_start_checkout attempts s aid user = (case attempts of
     None \<Rightarrow> (s, None, Some (Sentinel ErrNotImplemented))
   | Some r \<Rightarrow> ar_start_checkout r s \<lparr>sc_attempt = aid, sc_user = user\<rparr>)"

definition use_adjust_stock ::
  "'s attempt_repository \<Rightarrow> 's \<Rightarrow> stock_adjustment_command \<Rightarrow> 's \<times> stock_adjustment_result go_return" where
  "use_adjust_stock attempts s cmd = ar_adjust_stock attempts s cmd"

section \<open>Payments\<close>

definition use_process_payment ::
  "externals \<Rightarrow> 's payment_processor \<Rightarrow> 's \<Rightarrow> string \<Rightarrow> string \<Rightarrow> string \<Rightarrow> string \<Rightarrow> string \<Rightarrow>
     's \<times> payment_result go_return" where
  "use_process_payment ext inbox s provider event_id attempt outcome reference =
     (case parse_payment_command ext provider event_id attempt outcome reference of
        Inl e \<Rightarrow> (s, None, Some e) | Inr cmd \<Rightarrow> inbox s cmd)"

definition demo_payment_provider :: string where "demo_payment_provider = ''goodqueue-demo''"

definition hex_encode :: "bytes \<Rightarrow> string" where
  "hex_encode s = concat (map (\<lambda>c. [hex_digit (byte_of c div 16), hex_digit (byte_of c)]) s)"

definition demo_payment_token :: "externals \<Rightarrow> attempt_id \<Rightarrow> user_id \<Rightarrow> idempotency_key \<Rightarrow> string" where
  "demo_payment_token ext aid user key =
     hex_encode (ext_sha256 ext (ext_uuid_string ext aid @ [CHR 0x0A] @ user @ [CHR 0x0A] @ key))"

definition demo_payment_state_error :: "attempt_state \<Rightarrow> go_error" where
  "demo_payment_state_error state =
     (if state = InviteExpired \<or> state = CheckoutExpired \<or> state = SoldOut
      then Sentinel ErrAttemptGone else Sentinel ErrInvalidTransition)"

record demo_payment_result =
  dp_attempt :: queue_attempt
  dp_processing :: bool

text \<open>
  The checks on a looked-up attempt. A missing value without an error is the zero result, whose
  attempt has the zero identifier and no state.
\<close>

definition demo_attempt_check ::
  "attempt_id \<Rightarrow> current_queue_result option \<Rightarrow> go_error + queue_attempt" where
  "demo_attempt_check aid current = (case current of
     None \<Rightarrow> Inl (Sentinel (if aid \<noteq> 0 then ErrAttemptNotFound else ErrInvalidTransition))
   | Some c \<Rightarrow> if qa_id (cr_attempt c) \<noteq> aid then Inl (Sentinel ErrAttemptNotFound) else Inr (cr_attempt c))"

definition demo_rejection :: "string \<Rightarrow> go_error" where
  "demo_rejection code =
     (if code = ''attempt_not_found'' then Sentinel ErrAttemptNotFound
      else if code = ''event_conflict'' then Sentinel ErrConflict else Sentinel ErrInvalidTransition)"

definition demo_outcome :: "attempt_id \<Rightarrow> int \<Rightarrow> current_queue_result option \<Rightarrow> demo_payment_result go_return" where
  "demo_outcome aid status latest = (case demo_attempt_check aid latest of
     Inl e \<Rightarrow> (None, Some e)
   | Inr a \<Rightarrow>
       if qa_state a = Purchased then (Some \<lparr>dp_attempt = a, dp_processing = False\<rparr>, None)
       else if qa_state a = Checkout \<and> status = 202 then (Some \<lparr>dp_attempt = a, dp_processing = True\<rparr>, None)
       else (None, Some (demo_payment_state_error (qa_state a))))"

definition complete_demo ::
  "externals \<Rightarrow> 's payment_processor option \<Rightarrow> 's attempt_repository option \<Rightarrow> 's \<Rightarrow> product_id \<Rightarrow> attempt_id \<Rightarrow>
     user_id \<Rightarrow> idempotency_key \<Rightarrow> 's \<times> demo_payment_result go_return" where
  "complete_demo ext inbox attempts s pid aid user key = (case (inbox, attempts) of
     (Some process, Some repository) \<Rightarrow>
       (case ar_find_current repository 0 s pid user of
          (s1, current, Some e) \<Rightarrow> (s1, None, Some e)
        | (s1, current, None) \<Rightarrow>
            (case demo_attempt_check aid current of
               Inl e \<Rightarrow> (s1, None, Some e)
             | Inr a \<Rightarrow>
                 if qa_state a = Purchased then (s1, Some \<lparr>dp_attempt = a, dp_processing = False\<rparr>, None)
                 else if qa_state a \<noteq> Checkout then (s1, None, Some (demo_payment_state_error (qa_state a)))
                 else let token = demo_payment_token ext aid user key in
                   case use_process_payment ext process s1 demo_payment_provider (''event-'' @ token)
                          (ext_uuid_string ext aid) (outcome_text PaymentSucceeded) (''payment-'' @ token) of
                     (s2, payment, Some e) \<Rightarrow> (s2, None, Some e)
                   | (s2, payment, None) \<Rightarrow>
                       let status = (case payment of None \<Rightarrow> 0 | Some x \<Rightarrow> pt_http_status x);
                           code = (case payment of None \<Rightarrow> [] | Some x \<Rightarrow> pt_code x) in
                       if status \<ge> 400 then (s2, None, Some (demo_rejection code))
                       else case ar_find_current repository 1 s2 pid user of
                         (s3, latest, Some e) \<Rightarrow> (s3, None, Some e)
                       | (s3, latest, None) \<Rightarrow> (s3, demo_outcome aid status latest)))
   | _ \<Rightarrow> (s, None, Some (Sentinel ErrNotImplemented)))"

section \<open>The PostgreSQL repository behind the interface\<close>

text \<open>One environment for the first call, one for a second look-up, one per product of a listing.\<close>

definition store_attempts :: "repo \<Rightarrow> env \<Rightarrow> env \<Rightarrow> env list \<Rightarrow> db attempt_repository" where
  "store_attempts rp env env' envs =
     \<lparr>ar_join = (\<lambda>d cmd. join rp env d cmd),
      ar_start_checkout = (\<lambda>d cmd. start_checkout rp env d cmd),
      ar_cancel = (\<lambda>d cmd. cancel rp env d cmd),
      ar_find_current = (\<lambda>k d pid user. find_current rp (if k = 0 then env else env') d pid user),
      ar_find_active = (\<lambda>d user. find_active_by_user rp envs d user),
      ar_adjust_stock = (\<lambda>d cmd. adjust_stock rp env d cmd)\<rparr>"

definition store_payments :: "repo \<Rightarrow> payment_envs \<Rightarrow> db payment_processor" where
  "store_payments rp envs d cmd = process_payment rp envs d cmd"

end
