(* ===== verification/Http.thy ===== *)
theory Http
  imports Use_Cases
begin

text \<open>
  The HTTP handlers of queue entries, checkout, demo payments, stock adjustments and payment
  events (\<open>internal/app/http/handler\<close>), the identity middleware, and the mapping of errors to
  responses (\<open>internal/app/http/middleware/error.go\<close>). A handler holds the service it calls, a
  function on the state: a use case, or its stand-in of the mock server. It takes the request, runs
  the service and returns the response. The JSON library is a parameter: a decoded body is
  given, \<open>None\<close> where \<open>decodeStrictJSON\<close> rejects it, and a response body is the value that is
  rendered.
\<close>

section \<open>Requests and responses\<close>

record http_request =
  rq_user_header :: string
  rq_key_header :: string
  rq_product :: string
  rq_attempt :: string

record queue_entry_response =
  qe_attempt_id :: string
  qe_product_id :: string
  qe_state :: string
  qe_sequence :: int
  qe_position :: "int option"
  qe_position_ahead :: "int option"
  qe_deadline_at :: "time option"
  qe_total_waiting :: "int option"
  qe_expires_at :: "time option"
  qe_next_action :: string
  qe_message_code :: string
  qe_created_at :: time
  qe_updated_at :: time
  qe_invited_at :: "time option"
  qe_checkout_started_at :: "time option"
  qe_terminal_at :: "time option"
  qe_purchased_at :: "time option"

datatype http_body =
    NoBody
  | EntryBody queue_entry_response
  | EntriesBody "queue_entry_response list"
  | RawBody bytes
  | ErrorBody string string

type_synonym http_response = "int \<times> http_body"

section \<open>Errors\<close>

definition public_error :: "int \<Rightarrow> string \<Rightarrow> string \<Rightarrow> http_response" where
  "public_error status code message = (status, ErrorBody code message)"

definition map_http_error :: "go_error \<Rightarrow> http_response" where
  "map_http_error e =
     (if errors_is e ErrInvalidIdentity
      then public_error 401 ''invalid_identity'' ''a valid X-User-ID header is required''
      else if errors_is e ErrInvalidInput then public_error 400 ''invalid_input'' ''invalid request''
      else if errors_is e ErrAttemptNotFound \<or> errors_is e ErrNotFound
      then public_error 404 ''not_found'' ''resource not found''
      else if errors_is e ErrQueueDisabled then public_error 409 ''queue_disabled'' ''queue is disabled''
      else if errors_is e ErrQueueFull then public_error 409 ''queue_full'' ''queue is full''
      else if errors_is e ErrAlreadyPurchased
      then public_error 409 ''already_purchased'' ''product was already purchased''
      else if errors_is e ErrInvalidTransition \<or> errors_is e ErrPaymentFailed
      then public_error 409 ''invalid_transition'' ''operation is not valid for the current state''
      else if errors_is e ErrAdjustmentConflict \<or> errors_is e ErrConflict
      then public_error 409 ''idempotency_conflict'' ''idempotency key was used with a different request''
      else if errors_is e ErrOutOfStock then public_error 410 ''sold_out'' ''product is sold out''
      else if errors_is e ErrAttemptGone \<or> errors_is e ErrInvitationExpired \<or> errors_is e ErrCheckoutExpired
      then public_error 410 ''expired'' ''queue attempt is no longer available''
      else if errors_is e ErrMetricsUnavailable
      then public_error 503 ''metrics_unavailable'' ''loadtest metrics are unavailable''
      else public_error 500 ''internal_error'' ''internal server error'')"

section \<open>Identity\<close>

definition identity_from_context :: "externals \<Rightarrow> http_request \<Rightarrow> user_id option" where
  "identity_from_context ext req =
     (if rq_user_header req \<noteq> [] then
        (case parse_external_user_id ext (rq_user_header req) of Inr user \<Rightarrow> Some user | Inl e \<Rightarrow> None)
      else None)"

definition parse_product_and_identity :: "externals \<Rightarrow> http_request \<Rightarrow> go_error + (product_id \<times> user_id)" where
  "parse_product_and_identity ext req = (case identity_from_context ext req of
     None \<Rightarrow> Inl (Sentinel ErrInvalidIdentity)
   | Some user \<Rightarrow> bindE (parse_product_id ext (rq_product req)) (\<lambda>pid. Inr (pid, user)))"

section \<open>Rendering an attempt\<close>

fun queue_client_state :: "attempt_state \<Rightarrow> string \<times> string" where
  "queue_client_state Waiting = (''wait'', ''queue_waiting'')"
| "queue_client_state Invited = (''start_checkout'', ''checkout_available'')"
| "queue_client_state Checkout = (''complete_payment'', ''checkout_started'')"
| "queue_client_state Purchased = (''none'', ''purchased'')"
| "queue_client_state InviteExpired = (''join_queue'', ''invitation_expired'')"
| "queue_client_state CheckoutExpired = (''join_queue'', ''checkout_expired'')"
| "queue_client_state PaymentFailedState = (''join_queue'', ''payment_failed'')"
| "queue_client_state Cancelled = (''join_queue'', ''cancelled'')"
| "queue_client_state SoldOut = (''none'', ''sold_out'')"

definition map_queue_attempt :: "externals \<Rightarrow> queue_attempt \<Rightarrow> int \<Rightarrow> queue_entry_response" where
  "map_queue_attempt ext a position_ahead =
     \<lparr>qe_attempt_id = ext_uuid_string ext (qa_id a), qe_product_id = ext_uuid_string ext (qa_product a),
      qe_state = state_text (qa_state a), qe_sequence = qa_sequence a,
      qe_position = (if qa_state a = Waiting then Some (i64 (position_ahead + 1)) else None),
      qe_position_ahead = (if qa_state a = Waiting then Some position_ahead else None),
      qe_deadline_at = (if qa_state a = Invited then qa_invitation_deadline a
         else if qa_state a = Checkout then qa_checkout_deadline a else None),
      qe_total_waiting = None, qe_expires_at = None,
      qe_next_action = fst (queue_client_state (qa_state a)),
      qe_message_code = snd (queue_client_state (qa_state a)),
      qe_created_at = qa_created_at a, qe_updated_at = qa_updated_at a, qe_invited_at = qa_invited_at a,
      qe_checkout_started_at = qa_checkout_started_at a, qe_terminal_at = qa_terminal_at a,
      qe_purchased_at = qa_purchased_at a\<rparr>"

text \<open>
  The zero \<open>QueueAttempt\<close> of a refused call; its state is the empty string, the default case of
  \<open>queueClientState\<close>.
\<close>

definition map_zero_attempt :: "externals \<Rightarrow> queue_entry_response" where
  "map_zero_attempt ext =
     \<lparr>qe_attempt_id = ext_uuid_string ext 0, qe_product_id = ext_uuid_string ext 0, qe_state = [],
      qe_sequence = 0, qe_position = None, qe_position_ahead = None, qe_deadline_at = None,
      qe_total_waiting = None, qe_expires_at = None, qe_next_action = ''none'', qe_message_code = ''unknown_state'',
      qe_created_at = zero_time, qe_updated_at = zero_time, qe_invited_at = None,
      qe_checkout_started_at = None, qe_terminal_at = None, qe_purchased_at = None\<rparr>"

definition map_attempt_with_frontend_status ::
  "externals \<Rightarrow> queue_attempt option \<Rightarrow> int \<Rightarrow> int \<Rightarrow> queue_entry_response" where
  "map_attempt_with_frontend_status ext attempt position_ahead total_waiting = (case attempt of
     None \<Rightarrow> (map_zero_attempt ext)\<lparr>qe_total_waiting := Some total_waiting\<rparr>
   | Some a \<Rightarrow>
       let response = (map_queue_attempt ext a position_ahead)\<lparr>qe_total_waiting := Some total_waiting\<rparr> in
       if qa_state a = Waiting then response\<lparr>qe_position := Some (i64 (position_ahead + 1))\<rparr>
       else if qa_state a = Invited then response\<lparr>qe_expires_at := qa_invitation_deadline a\<rparr>
       else if qa_state a = Checkout then response\<lparr>qe_expires_at := qa_checkout_deadline a\<rparr>
       else response)"

definition map_current_queue_attempt :: "externals \<Rightarrow> current_queue_result \<Rightarrow> queue_entry_response" where
  "map_current_queue_attempt ext r =
     map_attempt_with_frontend_status ext (Some (cr_attempt r)) (cr_position_ahead r) (cr_total_waiting r)"

definition map_join_queue_attempt :: "externals \<Rightarrow> join_queue_result \<Rightarrow> queue_entry_response" where
  "map_join_queue_attempt ext r =
     map_attempt_with_frontend_status ext (jr_attempt r) (jr_position_ahead r) (jr_total_waiting r)"

section \<open>Queue entries\<close>

text \<open>The zero results of the calls.\<close>

definition zero_join_result :: join_queue_result where
  "zero_join_result = \<lparr>jr_attempt = None, jr_position_ahead = 0, jr_total_waiting = 0, jr_created = False\<rparr>"

definition join_handler ::
  "externals \<Rightarrow> ('s \<Rightarrow> product_id \<Rightarrow> user_id \<Rightarrow> idempotency_key \<Rightarrow> 's \<times> join_queue_result go_return) \<Rightarrow>
     's \<Rightarrow> http_request \<Rightarrow> 's \<times> http_response" where
  "join_handler ext service s req =
     (case parse_product_and_identity ext req of
        Inl e \<Rightarrow> (s, map_http_error e)
      | Inr (pid, user) \<Rightarrow>
          (case parse_idempotency_key (rq_key_header req) of
             Inl e \<Rightarrow> (s, map_http_error e)
           | Inr key \<Rightarrow>
               (case service s pid user key of
                  (s', r, Some e) \<Rightarrow> (s', map_http_error e)
                | (s', r, None) \<Rightarrow>
                    let result = (case r of None \<Rightarrow> zero_join_result | Some x \<Rightarrow> x) in
                    (s', (if jr_created result then 201 else 200), EntryBody (map_join_queue_attempt ext result)))))"

definition current_handler ::
  "externals \<Rightarrow> ('s \<Rightarrow> product_id \<Rightarrow> user_id \<Rightarrow> 's \<times> current_queue_result go_return) \<Rightarrow>
     's \<Rightarrow> http_request \<Rightarrow> 's \<times> http_response" where
  "current_handler ext service s req =
     (case parse_product_and_identity ext req of
        Inl e \<Rightarrow> (s, map_http_error e)
      | Inr (pid, user) \<Rightarrow>
          (case service s pid user of
             (s', r, Some e) \<Rightarrow> (s', map_http_error e)
           | (s', None, None) \<Rightarrow> (s', 200, EntryBody (map_attempt_with_frontend_status ext None 0 0))
           | (s', Some r, None) \<Rightarrow> (s', 200, EntryBody (map_current_queue_attempt ext r))))"

definition active_handler ::
  "externals \<Rightarrow> ('s \<Rightarrow> user_id \<Rightarrow> 's \<times> current_queue_result list go_return) \<Rightarrow>
     's \<Rightarrow> http_request \<Rightarrow> 's \<times> http_response" where
  "active_handler ext service s req =
     (case identity_from_context ext req of
        None \<Rightarrow> (s, map_http_error (Sentinel ErrInvalidIdentity))
      | Some user \<Rightarrow>
          (case service s user of
             (s', rs, Some e) \<Rightarrow> (s', map_http_error e)
           | (s', rs, None) \<Rightarrow>
               (s', 200, EntriesBody (map (map_current_queue_attempt ext) (case rs of None \<Rightarrow> [] | Some l \<Rightarrow> l)))))"

definition leave_handler ::
  "externals \<Rightarrow> ('s \<Rightarrow> product_id \<Rightarrow> user_id \<Rightarrow> 's \<times> go_error option) \<Rightarrow>
     's \<Rightarrow> http_request \<Rightarrow> 's \<times> http_response" where
  "leave_handler ext service s req =
     (case parse_product_and_identity ext req of
        Inl e \<Rightarrow> (s, map_http_error e)
      | Inr (pid, user) \<Rightarrow>
          (case service s pid user of
             (s', Some e) \<Rightarrow> (s', map_http_error e) | (s', None) \<Rightarrow> (s', 204, NoBody)))"

section \<open>Checkout and demo payment\<close>

definition start_checkout_handler ::
  "externals \<Rightarrow> ('s \<Rightarrow> attempt_id \<Rightarrow> user_id \<Rightarrow> 's \<times> queue_attempt go_return) \<Rightarrow>
     's \<Rightarrow> http_request \<Rightarrow> 's \<times> http_response" where
  "start_checkout_handler ext service s req =
     (case identity_from_context ext req of
        None \<Rightarrow> (s, map_http_error (Sentinel ErrInvalidIdentity))
      | Some user \<Rightarrow>
          (case parse_attempt_id ext (rq_attempt req) of
             Inl e \<Rightarrow> (s, map_http_error e)
           | Inr aid \<Rightarrow>
               (case service s aid user of
                  (s', a, Some e) \<Rightarrow> (s', map_http_error e)
                | (s', None, None) \<Rightarrow> (s', 200, EntryBody (map_zero_attempt ext))
                | (s', Some a, None) \<Rightarrow> (s', 200, EntryBody (map_queue_attempt ext a 0)))))"

definition demo_payment_handler ::
  "externals \<Rightarrow> ('s \<Rightarrow> product_id \<Rightarrow> attempt_id \<Rightarrow> user_id \<Rightarrow> idempotency_key \<Rightarrow> 's \<times> demo_payment_result go_return) \<Rightarrow>
     's \<Rightarrow> http_request \<Rightarrow> 's \<times> http_response" where
  "demo_payment_handler ext service s req =
     (case parse_product_and_identity ext req of
        Inl e \<Rightarrow> (s, map_http_error e)
      | Inr (pid, user) \<Rightarrow>
          (case parse_attempt_id ext (rq_attempt req) of
             Inl e \<Rightarrow> (s, map_http_error e)
           | Inr aid \<Rightarrow>
               (case parse_idempotency_key (rq_key_header req) of
                  Inl e \<Rightarrow> (s, map_http_error e)
                | Inr key \<Rightarrow>
                    (case service s pid aid user key of
                       (s', r, Some e) \<Rightarrow> (s', map_http_error e)
                     | (s', None, None) \<Rightarrow> (s', 200, EntryBody (map_zero_attempt ext))
                     | (s', Some r, None) \<Rightarrow>
                         (s', (if dp_processing r then 202 else 200), EntryBody (map_queue_attempt ext (dp_attempt r) 0))))))"

section \<open>Stock adjustments and payment events\<close>

record stock_adjustment_request =
  sq_delta :: int
  sq_reason :: string
  sq_reference :: string

text \<open>\<open>json.Decoder\<close> failed (\<open>None\<close>): the error wraps \<open>ErrInvalidInput\<close>.\<close>

definition decode_strict_json :: "'r option \<Rightarrow> go_error + 'r" where
  "decode_strict_json body = (case body of None \<Rightarrow> Inl (Wrapped [Sentinel ErrInvalidInput]) | Some r \<Rightarrow> Inr r)"

definition parse_stock_request ::
  "externals \<Rightarrow> http_request \<Rightarrow> stock_adjustment_request option \<Rightarrow> go_error + stock_adjustment_command" where
  "parse_stock_request ext req body =
     bindE (parse_product_id ext (rq_product req)) (\<lambda>pid.
     bindE (parse_idempotency_key (rq_key_header req)) (\<lambda>key.
     bindE (decode_strict_json body) (\<lambda>r.
     parse_stock_adjustment_command pid key (sq_delta r) (sq_reason r) (sq_reference r))))"

definition adjust_stock_handler ::
  "externals \<Rightarrow> ('s \<Rightarrow> stock_adjustment_command \<Rightarrow> 's \<times> stock_adjustment_result go_return) \<Rightarrow>
     's \<Rightarrow> http_request \<Rightarrow> stock_adjustment_request option \<Rightarrow> 's \<times> http_response" where
  "adjust_stock_handler ext service s req body =
     (case parse_stock_request ext req body of
        Inl e \<Rightarrow> (s, map_http_error e)
      | Inr cmd \<Rightarrow>
          (case service s cmd of
             (s', result, err) \<Rightarrow>
               let response_body = (case result of None \<Rightarrow> [] | Some r \<Rightarrow> sr_body r) in
               (s', if response_body \<noteq> []
                    then (case result of None \<Rightarrow> 0 | Some r \<Rightarrow> sr_http_status r, RawBody response_body)
                    else case err of Some e \<Rightarrow> map_http_error e | None \<Rightarrow> map_http_error (Sentinel ErrInternal))))"

record payment_event_request =
  pq_provider :: string
  pq_event_id :: string
  pq_attempt_id :: string
  pq_outcome :: string
  pq_reference :: "string option"

definition payment_event_handler ::
  "externals \<Rightarrow>
     ('s \<Rightarrow> string \<Rightarrow> string \<Rightarrow> string \<Rightarrow> string \<Rightarrow> string \<Rightarrow> 's \<times> payment_result go_return) \<Rightarrow>
     's \<Rightarrow> payment_event_request option \<Rightarrow> 's \<times> http_response" where
  "payment_event_handler ext service s body =
     (case decode_strict_json body of
        Inl e \<Rightarrow> (s, map_http_error e)
      | Inr r \<Rightarrow>
          (case pq_reference r of
             None \<Rightarrow> (s, map_http_error (Sentinel ErrInvalidInput))
           | Some reference \<Rightarrow>
               (case service s (pq_provider r) (pq_event_id r) (pq_attempt_id r)
                       (pq_outcome r) reference of
                  (s', result, Some e) \<Rightarrow> (s', map_http_error e)
                | (s', result, None) \<Rightarrow>
                    (s', case result of
                       None \<Rightarrow> map_http_error (Sentinel ErrInternal)
                     | Some x \<Rightarrow> if pt_http_status x < 100 \<or> pt_body x = []
                         then map_http_error (Sentinel ErrInternal) else (pt_http_status x, RawBody (pt_body x))))))"

section \<open>The answers of a queue service\<close>

text \<open>An error is never rendered as a queue entry.\<close>

lemma map_http_error_no_entry [simp]: "map_http_error e \<noteq> (status, EntryBody body)"
  by (auto simp: map_http_error_def public_error_def)

lemma join_handler_entry:
  assumes "join_handler ext service s req = (s', status, EntryBody body)"
  obtains pid user key r where "parse_product_and_identity ext req = Inr (pid, user)"
    and "parse_idempotency_key (rq_key_header req) = Inr key"
    and "service s pid user key = (s', r, None)"
    and "status = (if jr_created (case r of None \<Rightarrow> zero_join_result | Some x \<Rightarrow> x) then 201 else 200)"
    and "body = map_join_queue_attempt ext (case r of None \<Rightarrow> zero_join_result | Some x \<Rightarrow> x)"
  using assms by (auto simp: join_handler_def Let_def split: sum.splits prod.splits option.splits)

lemma join_handler_intro:
  assumes "parse_product_and_identity ext req = Inr (pid, user)"
    and "parse_idempotency_key (rq_key_header req) = Inr key"
    and "service s pid user key = (s', Some r, None)"
  shows "join_handler ext service s req =
     (s', (if jr_created r then 201 else 200), EntryBody (map_join_queue_attempt ext r))"
  using assms by (simp add: join_handler_def)

lemma entry_response_ids [simp]:
  "qe_attempt_id (map_queue_attempt ext a n) = ext_uuid_string ext (qa_id a)"
  "qe_product_id (map_queue_attempt ext a n) = ext_uuid_string ext (qa_product a)"
  "qe_sequence (map_queue_attempt ext a n) = qa_sequence a"
  "qe_state (map_queue_attempt ext a n) = state_text (qa_state a)"
  by (simp_all add: map_queue_attempt_def)

lemma frontend_response_ids [simp]:
  "qe_attempt_id (map_attempt_with_frontend_status ext (Some a) n t) = ext_uuid_string ext (qa_id a)"
  "qe_product_id (map_attempt_with_frontend_status ext (Some a) n t) = ext_uuid_string ext (qa_product a)"
  "qe_sequence (map_attempt_with_frontend_status ext (Some a) n t) = qa_sequence a"
  "qe_state (map_attempt_with_frontend_status ext (Some a) n t) = state_text (qa_state a)"
  by (simp_all add: map_attempt_with_frontend_status_def Let_def)

text \<open>
  The contract of the Join behind the handler: what it created is recorded under the product, the
  customer and the idempotency key, stays recorded in every later state, and is what a repetition
  answers, without changing the state. \<open>'i\<close> is what a call takes from outside, the clock and a
  fresh UUID.
\<close>

locale join_service =
  fixes service :: "'i \<Rightarrow> 's \<Rightarrow> product_id \<Rightarrow> user_id \<Rightarrow> idempotency_key \<Rightarrow> 's \<times> join_queue_result go_return"
    and good :: "'s \<Rightarrow> bool"
    and later :: "'s \<Rightarrow> 's \<Rightarrow> bool"
    and recorded :: "'s \<Rightarrow> product_id \<Rightarrow> user_id \<Rightarrow> idempotency_key \<Rightarrow> attempt_id \<Rightarrow> int \<Rightarrow> bool"
  assumes created: "good s \<Longrightarrow> service i s pid user key = (s', Some r, None) \<Longrightarrow> jr_created r \<Longrightarrow>
      good s' \<and> (\<exists>a. jr_attempt r = Some a \<and> qa_product a = pid \<and> recorded s' pid user key (qa_id a) (qa_sequence a))"
    and kept: "good s \<Longrightarrow> later s s' \<Longrightarrow> recorded s pid user key aid n \<Longrightarrow>
      good s' \<and> recorded s' pid user key aid n"
    and repeated: "good s \<Longrightarrow> recorded s pid user key aid n \<Longrightarrow>
      \<exists>x a. service i s pid user key = (s, Some x, None) \<and> \<not> jr_created x \<and> jr_attempt x = Some a \<and>
        qa_id a = aid \<and> qa_product a = pid \<and> qa_sequence a = n"
begin

lemma posted:
  assumes "good s" and "join_handler ext (service i) s req = (s', 201, EntryBody body)"
  obtains pid user key and a :: queue_attempt where "parse_product_and_identity ext req = Inr (pid, user)"
    and "parse_idempotency_key (rq_key_header req) = Inr key" and "good s'" and "qa_product a = pid"
    and "recorded s' pid user key (qa_id a) (qa_sequence a)"
    and "qe_attempt_id body = ext_uuid_string ext (qa_id a)" and "qe_product_id body = ext_uuid_string ext pid"
    and "qe_sequence body = qa_sequence a"
proof -
  obtain pid user key r where parsed: "parse_product_and_identity ext req = Inr (pid, user)"
      "parse_idempotency_key (rq_key_header req) = Inr key"
    and call: "service i s pid user key = (s', r, None)"
    and status: "201 = (if jr_created (case r of None \<Rightarrow> zero_join_result | Some x \<Rightarrow> x) then 201 else 200 :: int)"
    and body: "body = map_join_queue_attempt ext (case r of None \<Rightarrow> zero_join_result | Some x \<Rightarrow> x)"
    using assms(2) by (rule join_handler_entry)
  obtain x where x: "r = Some x" "jr_created x"
    using status by (cases r) (auto simp: zero_join_result_def split: if_splits)
  obtain a where "good s'" "jr_attempt x = Some a" "qa_product a = pid"
      "recorded s' pid user key (qa_id a) (qa_sequence a)"
    using created [OF assms(1) call [unfolded x(1)] x(2)] by blast
  then show thesis using that [OF parsed, of a] body x(1) by (simp add: map_join_queue_attempt_def)
qed

lemma post_again:
  assumes "good s" and "join_handler ext (service i) s req = (s', 201, EntryBody body)" and "later s' s2"
  shows "\<exists>body2. join_handler ext (service j) s2 req = (s2, 200, EntryBody body2) \<and>
     qe_attempt_id body2 = qe_attempt_id body \<and> qe_product_id body2 = qe_product_id body \<and>
     qe_sequence body2 = qe_sequence body"
  using assms(1,2)
proof (rule posted)
  fix pid user key and a :: queue_attempt
  assume parsed: "parse_product_and_identity ext req = Inr (pid, user)"
      "parse_idempotency_key (rq_key_header req) = Inr key"
    and g: "good s'" and rec: "recorded s' pid user key (qa_id a) (qa_sequence a)"
    and body: "qe_attempt_id body = ext_uuid_string ext (qa_id a)" "qe_product_id body = ext_uuid_string ext pid"
      "qe_sequence body = qa_sequence a"
  obtain x b where x: "service j s2 pid user key = (s2, Some x, None)" "\<not> jr_created x" "jr_attempt x = Some b"
      and b: "qa_id b = qa_id a" "qa_product b = pid" "qa_sequence b = qa_sequence a"
    using kept [OF g assms(3) rec] repeated by blast
  then show ?thesis using join_handler_intro [OF parsed, of "service j", OF x(1)] body
    by (simp add: map_join_queue_attempt_def)
qed

end

end
