(* ===== verification/Http_Properties.thy ===== *)
theory Http_Properties
  imports Http Queue_Properties
begin

text \<open>
  What a client of the HTTP interface can rely on, stated of the handlers over the PostgreSQL
  repository: posting a queue entry again is harmless at any later time, and an answered demo
  payment means a purchase in the database.
\<close>

lemma store_attempts_simps [simp]:
  "ar_join (store_attempts rp env env' envs) d cmd = join rp env d cmd"
  "ar_find_current (store_attempts rp env env' envs) 0 d pid user = find_current rp env d pid user"
  "ar_find_current (store_attempts rp env env' envs) (Suc 0) d pid user = find_current rp env' d pid user"
  by (simp_all add: store_attempts_def)

section \<open>Posting a queue entry\<close>

lemma join_handler_sound:
  assumes "db_inv d"
  shows "db_inv (fst (join_handler ext (use_join (Some (store_attempts rp env env' envs))) d req))"
proof -
  have "db_inv (fst (join rp env d cmd))" for cmd using join_sound [OF assms] by (simp add: sound_step_def)
  then show ?thesis using assms
    by (auto simp: join_handler_def use_join_def Let_def split: sum.split option.split prod.split) (metis fst_conv)+
qed

lemma created_row:
  assumes inv: "db_inv d" and call: "join rp env d cmd = (d', Some r, e)" and new: "jr_created r"
  obtains a p where "jr_attempt r = Some a" and "a \<in> set (db_attempts d')" and "qa_product a = jq_product cmd"
    and "qa_user a = jq_user cmd" and "qa_key a = jq_key cmd" and "p \<in> set (db_products d')" and "pr_id p = jq_product cmd"
proof -
  obtain st1 st' a where st: "tx_inv st1" "lp_id (tx_product st1) = jq_product cmd"
    and c: "create_attempt rp env st1 cmd = Inr (st', a)" and d': "d' = tx_db st'" and r: "jr_attempt r = Some a"
    by (rule join_created_run [OF inv call new])
  note C = create_attempt_Inr [OF st(1) st(2) [symmetric] c]
  obtain p where p: "p \<in> set (db_products (tx_db st'))" "tx_product st' = locked_of_row p"
    using tx_inv_row [OF C(1)] by (metis in_set_conv_decomp)
  have "a \<in> set (tx_attempts st')" using C(3) by simp
  then have "qa_product a = lp_id (tx_product st')" using tx_inv_member [OF C(1)] by blast
  then have "pr_id p = jq_product cmd" using C(7) p(2) by simp
  then show thesis using that [OF r] C(5,7-9) d' p(1) by simp
qed

text \<open>
  What the store has recorded: an attempt with the key. It stays, since rows keep their identity,
  and a repeated Join answers with it.
\<close>

definition store_join ::
  "repo \<Rightarrow> env \<times> env \<times> env list \<Rightarrow> db \<Rightarrow> product_id \<Rightarrow> user_id \<Rightarrow> idempotency_key \<Rightarrow> db \<times> join_queue_result go_return" where
  "store_join rp = (\<lambda>(env, env', envs). use_join (Some (store_attempts rp env env' envs)))"

definition store_recorded ::
  "db \<Rightarrow> product_id \<Rightarrow> user_id \<Rightarrow> idempotency_key \<Rightarrow> attempt_id \<Rightarrow> int \<Rightarrow> bool" where
  "store_recorded d pid user key aid n \<longleftrightarrow> pid \<in> pr_id ` set (db_products d) \<and>
     (\<exists>a\<in>set (db_attempts d). qa_product a = pid \<and> qa_user a = user \<and> qa_key a = key \<and> qa_id a = aid \<and> qa_sequence a = n)"

lemma store_recorded_kept:
  assumes "store_inv d" and "reachable rp d d'" and "store_recorded d pid user key aid n"
  shows "store_inv d' \<and> store_recorded d' pid user key aid n"
proof -
  have s: "store_inv d'" "sound_step d d'" using reachable_sound [OF assms(2,1)] by blast+
  obtain a where a: "a \<in> set (db_attempts d)" "qa_product a = pid" "qa_user a = user" "qa_key a = key"
      "qa_id a = aid" "qa_sequence a = n"
    using assms(3) by (auto simp: store_recorded_def)
  obtain b where b: "b \<in> set (db_attempts d')" "attempt_evolves a b"
    using s(2) a(1) by (auto simp: sound_step_def elim: table_evolves_row)
  have "attempt_ident b = attempt_ident a" using attempt_evolves_ident [OF b(2)] .
  moreover have "map pr_id (db_products d') = map pr_id (db_products d)" using s(2) by (simp add: sound_step_def)
  then have "pr_id ` set (db_products d') = pr_id ` set (db_products d)" by (metis list.set_map)
  ultimately show ?thesis using s(1) a b(1) assms(3)
    by (auto simp: store_recorded_def attempt_ident_def intro!: bexI [of _ b])
qed

lemma store_recorded_repeated:
  assumes inv: "store_inv d" and "store_recorded d pid user key aid n"
  shows "\<exists>x a. store_join rp i d pid user key = (d, Some x, None) \<and> \<not> jr_created x \<and> jr_attempt x = Some a \<and>
     qa_id a = aid \<and> qa_product a = pid \<and> qa_sequence a = n"
proof -
  obtain env env' envs where i: "i = (env, env', envs)" by (metis prod_cases3)
  obtain a p where a: "a \<in> set (db_attempts d)" "qa_product a = pid" "qa_user a = user" "qa_key a = key"
      "qa_id a = aid" "qa_sequence a = n" and p: "p \<in> set (db_products d)" "pr_id p = pid"
    using assms(2) by (auto simp: store_recorded_def)
  have "\<exists>x. join rp env d \<lparr>jq_product = pid, jq_user = user, jq_key = key\<rparr> = (d, Some x, None) \<and>
      jr_attempt x = Some a \<and> \<not> jr_created x"
    using a p inv by (intro join_repeats [OF _ a(1) p(1)]) (auto simp: store_inv_def)
  then show ?thesis using a i by (auto simp: store_join_def use_join_def)
qed

lemma store_join_created:
  assumes inv: "store_inv d" and call: "store_join rp i d pid user key = (d', Some r, None)" and new: "jr_created r"
  shows "store_inv d' \<and> (\<exists>a. jr_attempt r = Some a \<and> qa_product a = pid \<and>
     store_recorded d' pid user key (qa_id a) (qa_sequence a))"
proof -
  obtain env env' envs where i: "i = (env, env', envs)" by (metis prod_cases3)
  have c: "join rp env d \<lparr>jq_product = pid, jq_user = user, jq_key = key\<rparr> = (d', Some r, None)"
    using call i by (simp add: store_join_def use_join_def)
  have "reachable rp d (fst (join rp env d \<lparr>jq_product = pid, jq_user = user, jq_key = key\<rparr>))"
    by (rule reachable_step [OF reachable_start step_join])
  from reachable_sound [OF this inv] have "store_inv d'" using c by simp
  moreover obtain a p where "jr_attempt r = Some a" "a \<in> set (db_attempts d')" "qa_product a = pid"
      "qa_user a = user" "qa_key a = key" "p \<in> set (db_products d')" "pr_id p = pid"
    using inv c new by (auto simp: store_inv_def elim!: created_row)
  ultimately show ?thesis by (auto simp: store_recorded_def image_iff intro: sym)
qed

interpretation store_joins: join_service "store_join rp" store_inv "reachable rp" store_recorded for rp
  by unfold_locales (rule store_join_created store_recorded_kept store_recorded_repeated; assumption)+

text \<open>
  C30. Posting a queue entry is idempotent: when a request was answered 201, the same request is
  answered 200 with the same attempt, product and place in every later database, whatever other
  calls came in between, and changes nothing.
\<close>

theorem post_is_idempotent:
  assumes inv: "store_inv d"
    and first: "join_handler ext (use_join (Some (store_attempts rp env1 env1' envs1))) d req = (d1, 201, EntryBody body)"
    and later: "reachable rp d1 d2"
  shows "\<exists>body2. join_handler ext (use_join (Some (store_attempts rp env2 env2' envs2))) d2 req = (d2, 200, EntryBody body2) \<and>
     qe_attempt_id body2 = qe_attempt_id body \<and> qe_product_id body2 = qe_product_id body \<and>
     qe_sequence body2 = qe_sequence body"
  using store_joins.post_again [of d ext rp "(env1, env1', envs1)" req d1 body d2 "(env2, env2', envs2)"] assms
  by (simp add: store_join_def)

text \<open>A customer's request on the example store.\<close>

definition demo_request :: http_request where
  "demo_request = \<lparr>rq_user_header = ''21'', rq_key_header = ''k9'', rq_product = ''7'', rq_attempt = ''8''\<rparr>"

definition demo_attempts :: "nat \<Rightarrow> db attempt_repository" where
  "demo_attempts k = store_attempts demo_repo (demo_env k) (demo_env (k + 1)) []"

lemma post_is_idempotent_witness:
  "\<exists>d1 body body2. join_handler demo_externals (use_join (Some (demo_attempts 1))) demo_db demo_request = (d1, 201, EntryBody body) \<and>
     join_handler demo_externals (use_join (Some (demo_attempts 5))) d1 demo_request = (d1, 200, EntryBody body2) \<and>
     qe_attempt_id body2 = qe_attempt_id body"
proof -
  let ?c = "join_handler demo_externals (use_join (Some (demo_attempts 1))) demo_db demo_request"
  have "fst (snd ?c) = 201" and "case snd (snd ?c) of EntryBody b \<Rightarrow> True | _ \<Rightarrow> False" by code_simp+
  then obtain d1 body where c: "?c = (d1, 201, EntryBody body)"
    by (cases ?c) (auto split: http_body.splits)
  show ?thesis
    using c post_is_idempotent [OF demo_inv(1) c [unfolded demo_attempts_def] reachable_start]
    unfolding demo_attempts_def by blast
qed

section \<open>Demo payments\<close>

lemma demo_attempt_check_Inr:
  "demo_attempt_check aid current = Inr a \<longleftrightarrow> (\<exists>c. current = Some c \<and> a = cr_attempt c \<and> qa_id a = aid)"
  by (auto simp: demo_attempt_check_def split: option.splits)

lemma demo_outcome_Some:
  assumes "demo_outcome aid status latest = (Some x, None)"
  obtains c where "latest = Some c" and "dp_attempt x = cr_attempt c" and "qa_id (cr_attempt c) = aid"
    and "qa_state (cr_attempt c) = (if dp_processing x then Checkout else Purchased)"
  using assms by (auto simp: demo_outcome_def demo_attempt_check_Inr split: sum.splits if_splits)

lemma complete_demo_Some:
  assumes inv: "db_inv d"
    and call: "complete_demo ext (Some (store_payments rp penvs)) (Some (store_attempts rp env env' envs)) d pid aid user key = (d', Some x, None)"
  obtains d0 c e k where "db_inv d0" and "find_current rp k d0 pid user = (d', Some c, e)"
    and "dp_attempt x = cr_attempt c" and "qa_id (cr_attempt c) = aid"
    and "qa_state (cr_attempt c) = (if dp_processing x then Checkout else Purchased)"
proof -
  obtain s1 current e1 where f1: "find_current rp env d pid user = (s1, current, e1)" by (metis prod_cases3)
  have inv1: "db_inv s1" using find_current_sound [OF inv, of rp env pid user] f1 by (simp add: sound_step_def)
  have e1: "e1 = None" using call f1 by (auto simp: complete_demo_def split: option.splits)
  then obtain a where a: "demo_attempt_check aid current = Inr a"
    using call f1 by (auto simp: complete_demo_def split: sum.splits)
  then obtain c where c: "current = Some c" "a = cr_attempt c" "qa_id a = aid" by (auto simp: demo_attempt_check_Inr)
  show thesis
  proof (cases "qa_state a = Purchased")
    case True
    then have "d' = s1" "x = \<lparr>dp_attempt = a, dp_processing = False\<rparr>" using call f1 e1 a by (auto simp: complete_demo_def)
    then show thesis using that [OF inv, of env c e1] f1 c True by simp
  next
    case False
    let ?token = "demo_payment_token ext aid user key"
    obtain s2 payment e2 where p: "use_process_payment ext (store_payments rp penvs) s1 demo_payment_provider
        (''event-'' @ ?token) (ext_uuid_string ext aid) (outcome_text PaymentSucceeded) (''payment-'' @ ?token) = (s2, payment, e2)"
      by (metis prod_cases3)
    have inv2: "db_inv s2"
      using p process_payment_sound [OF inv1, of rp penvs] inv1
      by (auto simp: use_process_payment_def store_payments_def sound_step_def split: sum.splits) (metis fst_conv)
    obtain s3 latest e3 where f2: "find_current rp env' s2 pid user = (s3, latest, e3)" by (metis prod_cases3)
    let ?status = "case payment of None \<Rightarrow> 0 | Some x \<Rightarrow> pt_http_status x"
    have "e2 = None \<and> e3 = None \<and> s3 = d' \<and> demo_outcome aid ?status latest = (Some x, None)"
      using call f1 e1 a False p f2
      by (auto simp: complete_demo_def Let_def split: if_splits option.splits)
    then show thesis using demo_outcome_Some [of aid ?status latest x] that [OF inv2] f2 by metis
  qed
qed

text \<open>
  C31. A demo payment that is answered is real: behind a response there is an attempt of the
  committed database that belongs to the caller and the requested product and has the requested
  identifier; after a 200 it is purchased, and after a 202 it is still in checkout.
\<close>

theorem demo_payment_is_real:
  assumes inv: "db_inv d"
    and call: "demo_payment_handler ext (complete_demo ext (Some (store_payments rp penvs)) (Some (store_attempts rp env env' envs))) d req =
      (d', status, EntryBody body)"
  shows "\<exists>a\<in>set (db_attempts d'). identity_from_context ext req = Some (qa_user a) \<and>
     parse_product_id ext (rq_product req) = Inr (qa_product a) \<and> parse_attempt_id ext (rq_attempt req) = Inr (qa_id a) \<and>
     body = map_queue_attempt ext a 0 \<and>
     (status = 200 \<and> qa_state a = Purchased \<or> status = 202 \<and> qa_state a = Checkout)"
proof -
  from call obtain pid user aid key where parsed: "parse_product_and_identity ext req = Inr (pid, user)"
      "parse_attempt_id ext (rq_attempt req) = Inr aid" "parse_idempotency_key (rq_key_header req) = Inr key"
    by (auto simp: demo_payment_handler_def split: sum.splits)
  obtain s' r e where c: "complete_demo ext (Some (store_payments rp penvs)) (Some (store_attempts rp env env' envs)) d pid aid user key = (s', r, e)"
    by (metis prod_cases3)
  have e: "e = None" "s' = d'" using call parsed c
    by (auto simp: demo_payment_handler_def split: option.splits)
  have "r \<noteq> None"
  proof
    assume "r = None"
    then show False using c e demo_outcome_def
      by (auto simp: complete_demo_def demo_outcome_def Let_def split: option.splits sum.splits prod.splits if_splits)
  qed
  then obtain x where x: "r = Some x" by blast
  obtain d0 f ef k where d0: "db_inv d0" and f: "find_current rp k d0 pid user = (d', Some f, ef)"
    and xa: "dp_attempt x = cr_attempt f" "qa_id (cr_attempt f) = aid"
      "qa_state (cr_attempt f) = (if dp_processing x then Checkout else Purchased)"
    using complete_demo_Some [OF inv c [unfolded e x]] by metis
  have "status = (if dp_processing x then 202 else 200) \<and> body = map_queue_attempt ext (cr_attempt f) 0"
    using call parsed c e x xa(1) by (auto simp: demo_payment_handler_def)
  moreover have "identity_from_context ext req = Some user" "parse_product_id ext (rq_product req) = Inr pid"
    using parsed(1) by (auto simp: parse_product_and_identity_def split: option.splits)
  ultimately show ?thesis
    using find_current_facts [OF d0 f] parsed(2) xa(2,3) by (intro bexI [of _ "cr_attempt f"]) auto
qed

definition demo_joined :: db where
  "demo_joined = fst (join_handler demo_externals (use_join (Some (demo_attempts 1))) demo_db demo_request)"

definition demo_payment_envs :: payment_envs where
  "demo_payment_envs = \<lparr>pe_claim = demo_env 3, pe_apply = demo_env 4, pe_compensate = demo_env 5, pe_retry = demo_env 6\<rparr>"

lemma demo_payment_is_real_witness:
  "\<exists>d' status body a. demo_payment_handler demo_externals
       (complete_demo demo_externals (Some (store_payments demo_repo demo_payment_envs)) (Some (demo_attempts 2))) demo_joined demo_request = (d', status, EntryBody body) \<and>
     a \<in> set (db_attempts d') \<and> qa_user a = ''21'' \<and> (status = 200 \<longrightarrow> qa_state a = Purchased)"
proof -
  let ?c = "demo_payment_handler demo_externals
       (complete_demo demo_externals (Some (store_payments demo_repo demo_payment_envs)) (Some (demo_attempts 2))) demo_joined demo_request"
  have "case snd (snd ?c) of EntryBody b \<Rightarrow> True | _ \<Rightarrow> False" by code_simp
  then obtain d' status body where c: "?c = (d', status, EntryBody body)"
    by (cases ?c) (auto split: http_body.splits)
  have "db_inv demo_joined"
    using join_handler_sound [OF demo_db_inv(1)] by (simp add: demo_joined_def demo_attempts_def)
  moreover have "identity_from_context demo_externals demo_request = Some ''21''" by code_simp
  ultimately show ?thesis
    using c demo_payment_is_real [OF _ c [unfolded demo_attempts_def]] unfolding demo_attempts_def by fastforce
qed

end
