(* ===== verification/Catalogue.thy ===== *)
theory Catalogue
  imports Http
begin

text \<open>
  The catalogue: products with their live inventory (\<open>internal/repository/postgres/product.go\<close>),
  demo users (\<open>demo_user.go\<close>), recommended alternatives with the cache of product embeddings
  (\<open>recommendation.go\<close>), the client of the embeddings API
  (\<open>internal/recommendation/openai/embedder.go\<close>), the use case (\<open>internal/usecase/product.go\<close>)
  and the handlers (\<open>internal/app/http/handler/product.go\<close>, \<open>demo_user.go\<close>). The arithmetic of
  PostgreSQL's \<open>numeric\<close> (\<open>'n\<close>), of \<open>float8\<close> (\<open>'f\<close>) and of the \<open>float32\<close> components (\<open>'w\<close>), and
  pgvector's distance, are fields of \<open>sql_numbers\<close>, a parameter.
\<close>

section \<open>Domain types\<close>

record demo_user =
  du_user :: user_id
  du_name :: string

datatype recommendation_mode = ModeSemantic | ModeFallback
datatype recommendation_reason = ReasonSemantic | ReasonSameCategory | ReasonAvailable

fun recommendation_mode_text :: "recommendation_mode \<Rightarrow> string" where
  "recommendation_mode_text ModeSemantic = ''ai_semantic''"
| "recommendation_mode_text ModeFallback = ''catalog_fallback''"

fun recommendation_reason_text :: "recommendation_reason \<Rightarrow> string" where
  "recommendation_reason_text ReasonSemantic = ''semantically_similar''"
| "recommendation_reason_text ReasonSameCategory = ''same_category_available''"
| "recommendation_reason_text ReasonAvailable = ''available_now''"

record 'f product_recommendation =
  rc_item :: product
  rc_score :: 'f
  rc_mode :: recommendation_mode
  rc_reason :: recommendation_reason

record embedding_document =
  ed_product :: product_id
  ed_content :: bytes
  ed_hash :: string

record 'w product_embedding =
  em_product :: product_id
  em_model_name :: string
  em_hash :: string
  em_vector :: "'w list"

section \<open>Reading rows\<close>

text \<open>A loop over the rows of a query that returns at the first error.\<close>

fun traverse :: "('a \<Rightarrow> 'e + 'b) \<Rightarrow> 'a list \<Rightarrow> 'e + 'b list" where
  "traverse f [] = Inr []"
| "traverse f (x # xs) = bindE (f x) (\<lambda>y. bindE (traverse f xs) (\<lambda>ys. Inr (y # ys)))"

lemma traverse_Inr: "traverse f xs = Inr ys \<longleftrightarrow> list_all2 (\<lambda>x y. f x = Inr y) xs ys"
  by (induction xs arbitrary: ys) (auto simp: list_all2_Cons1)

lemma traverse_total: "\<forall>x\<in>set xs. \<exists>y. f x = Inr y \<Longrightarrow> \<exists>ys. traverse f xs = Inr ys"
  by (induction xs) auto

definition returned :: "go_error + 'a \<Rightarrow> 'a go_return" where
  "returned r = (case r of Inl e \<Rightarrow> (None, Some e) | Inr x \<Rightarrow> (Some x, None))"

lemma returned_simps [simp]:
  "returned r = (Some x, None) \<longleftrightarrow> r = Inr x"
  "returned (Inl e) = (None, Some e)"
  "returned (Inr y) = (Some y, None)"
  by (auto simp: returned_def split: sum.splits)

text \<open>\<open>COUNT(q.id) FILTER (WHERE q.state = 'waiting')\<close> over the attempts of a product.\<close>

definition waiting_rows :: "db \<Rightarrow> product_id \<Rightarrow> int" where
  "waiting_rows d pid = int (length (filter (\<lambda>a. qa_product a = pid \<and> qa_state a = Waiting) (db_attempts d)))"

definition scan_product :: "int \<Rightarrow> db \<Rightarrow> product_row \<Rightarrow> go_error + product" where
  "scan_product percent d r = (case waiting_capacity (pr_stock r) percent of
     Inl e \<Rightarrow> Inl (Wrapped [e])
   | Inr capacity \<Rightarrow> Inr
       \<lparr>prod_id = pr_id r, prod_title = pr_title r, prod_description = pr_description r,
        prod_image_url = pr_image_url r, prod_category = pr_category r, prod_price_cents = pr_price_cents r,
        prod_queue_enabled = pr_queue_enabled r, prod_allocatable_stock = pr_stock r, prod_reserved = pr_reserved r,
        prod_next_queue_sequence = pr_next_sequence r, prod_waiting_count = waiting_rows d (pr_id r),
        prod_waiting_capacity = capacity\<rparr>)"

definition list_products :: "int \<Rightarrow> db \<Rightarrow> product list go_return" where
  "list_products percent d = returned (traverse (scan_product percent d) (sort_key pr_id (db_products d)))"

definition get_product :: "int \<Rightarrow> db \<Rightarrow> product_id \<Rightarrow> product go_return" where
  "get_product percent d pid = (case find (\<lambda>r. pr_id r = pid) (db_products d) of
     None \<Rightarrow> (None, Some (Wrapped [Sentinel ErrNotFound]))
   | Some r \<Rightarrow> returned (scan_product percent d r))"

text \<open>The rows of \<open>users\<close>: \<open>external_user_id\<close> and \<open>name\<close>.\<close>

definition list_demo_users :: "externals \<Rightarrow> (uuid \<times> string) list \<Rightarrow> demo_user list go_return" where
  "list_demo_users ext users = returned (traverse (\<lambda>(u, name).
     case parse_external_user_id ext (ext_uuid_string ext u) of
       Inl e \<Rightarrow> Inl (Wrapped [e]) | Inr user \<Rightarrow> Inr \<lparr>du_user = user, du_name = name\<rparr>) (sort_key fst users))"

section \<open>Embeddings\<close>

record embedding_row =
  er_product :: product_id
  er_model :: string
  er_hash :: string
  er_vector :: string

record catalogue =
  ca_db :: db
  ca_embeddings :: "embedding_row list"

record ('w, 'n, 'f) sql_numbers =
  sn_of_int :: "int \<Rightarrow> 'n"
  sn_hundredths :: "int \<Rightarrow> 'n"
  sn_add :: "'n \<Rightarrow> 'n \<Rightarrow> 'n"
  sn_sub :: "'n \<Rightarrow> 'n \<Rightarrow> 'n"
  sn_mul :: "'n \<Rightarrow> 'n \<Rightarrow> 'n"
  sn_div :: "'n \<Rightarrow> 'n \<Rightarrow> 'n"
  sn_float :: "'n \<Rightarrow> 'f"
  sf_add :: "'f \<Rightarrow> 'f \<Rightarrow> 'f"
  sf_sub :: "'f \<Rightarrow> 'f \<Rightarrow> 'f"
  sf_mul :: "'f \<Rightarrow> 'f \<Rightarrow> 'f"
  sf_distance :: "string \<Rightarrow> string \<Rightarrow> 'f"
  sw_finite :: "'w \<Rightarrow> bool"
  sw_text :: "'w \<Rightarrow> string"
  sf_price :: "int \<Rightarrow> string"

definition embedding_dimensions :: nat where "embedding_dimensions = 1536"

text \<open>Byte strings that are not ASCII are written in hexadecimal.\<close>

fun unhex :: "string \<Rightarrow> bytes" where
  "unhex (a # b # rest) =
     (let value = (\<lambda>c. if of_char c \<ge> (97 :: nat) then of_char c - 87 else of_char c - 48) in
      char_of (16 * value a + value b :: nat) # unhex rest)"
| "unhex _ = []"

declare unhex.simps [simp del]

text \<open>\<open>"Nazvanie: %s\nOpisanie: %s\nKategoriya: %s\nTsena: %.2f RUB"\<close>, in Cyrillic.\<close>

definition embedding_content :: "(int \<Rightarrow> string) \<Rightarrow> product_row \<Rightarrow> bytes" where
  "embedding_content price p =
     unhex ''d09dd0b0d0b7d0b2d0b0d0bdd0b8d0b53a20'' @ pr_title p @
     unhex ''0ad09ed0bfd0b8d181d0b0d0bdd0b8d0b53a20'' @ pr_description p @
     unhex ''0ad09ad0b0d182d0b5d0b3d0bed180d0b8d18f3a20'' @ pr_category p @
     unhex ''0ad0a6d0b5d0bdd0b03a20'' @ price (pr_price_cents p) @ '' RUB''"

text \<open>The advisory lock is free or held by another session; a failure to ask is an error.\<close>

definition try_acquire_embedding_refresh :: "(go_error + bool) \<Rightarrow> 's \<Rightarrow> 's \<times> bool \<times> go_error option" where
  "try_acquire_embedding_refresh lock s = (case lock of
     Inl e \<Rightarrow> (s, False, Some (Wrapped [e])) | Inr acquired \<Rightarrow> (s, acquired, None))"

definition list_embedding_documents ::
  "externals \<Rightarrow> ('w, 'n, 'f) sql_numbers \<Rightarrow> string \<Rightarrow> catalogue \<Rightarrow> embedding_document list" where
  "list_embedding_documents ext nm model s = concat (map (\<lambda>p.
     let content = embedding_content (sf_price nm) p;
         digest = hex_encode (ext_sha256 ext content) in
     case find (\<lambda>e. er_product e = pr_id p \<and> er_model e = model) (ca_embeddings s) of
       Some e \<Rightarrow> if er_hash e = digest then [] else [\<lparr>ed_product = pr_id p, ed_content = content, ed_hash = digest\<rparr>]
     | None \<Rightarrow> [\<lparr>ed_product = pr_id p, ed_content = content, ed_hash = digest\<rparr>])
     (sort_key pr_id (db_products (ca_db s))))"

definition format_vector :: "('w, 'n, 'f) sql_numbers \<Rightarrow> 'w list \<Rightarrow> go_error + string" where
  "format_vector nm values =
     (if length values \<noteq> embedding_dimensions then Inl (Wrapped [])
      else if \<not> list_all (sw_finite nm) values then Inl (Wrapped [])
      else Inr (''['' @ concat (map (\<lambda>(i, v). (if i = 0 then [] else '','') @ sw_text nm v)
                               (zip [0..<length values] values)) @ '']''))"

text \<open>\<open>INSERT ... ON CONFLICT (product_id) DO UPDATE\<close>, with the CHECK on the length of the hash.\<close>

definition upsert_embedding :: "embedding_row \<Rightarrow> embedding_row list \<Rightarrow> go_error + embedding_row list" where
  "upsert_embedding e rows =
     (if length (er_hash e) \<noteq> 64 then Inl (PgConstraint ''product_embeddings_content_hash_check'')
      else if er_product e \<in> er_product ` set rows
      then Inr (map (\<lambda>r. if er_product r = er_product e then e else r) rows)
      else Inr (rows @ [e]))"

fun upsert_loop ::
  "('w, 'n, 'f) sql_numbers \<Rightarrow> 'w product_embedding list \<Rightarrow> embedding_row list \<Rightarrow> go_error + embedding_row list" where
  "upsert_loop nm [] rows = Inr rows"
| "upsert_loop nm (e # es) rows =
     bindE (format_vector nm (em_vector e)) (\<lambda>vector.
     case upsert_embedding \<lparr>er_product = em_product e, er_model = em_model_name e, er_hash = em_hash e, er_vector = vector\<rparr> rows of
       Inl err \<Rightarrow> Inl (Wrapped [err])
     | Inr rows' \<Rightarrow> upsert_loop nm es rows')"

definition upsert_embeddings ::
  "('w, 'n, 'f) sql_numbers \<Rightarrow> 'w product_embedding list \<Rightarrow> catalogue \<Rightarrow> catalogue \<times> go_error option" where
  "upsert_embeddings nm es s = (case upsert_loop nm es (ca_embeddings s) of
     Inl e \<Rightarrow> (s, Some e) | Inr rows \<Rightarrow> (s\<lparr>ca_embeddings := rows\<rparr>, None))"

section \<open>Alternatives\<close>

definition for_sale :: "product_id \<Rightarrow> product_row \<Rightarrow> bool" where
  "for_sale pid p \<longleftrightarrow> pr_id p \<noteq> pid \<and> pr_queue_enabled p \<and> pr_reserved p < pr_stock p"

definition availability :: "('w, 'n::linorder, 'f) sql_numbers \<Rightarrow> product_row \<Rightarrow> 'n" where
  "availability nm p = min (sn_div nm (sn_of_int nm (pr_stock p - pr_reserved p)) (sn_of_int nm 3)) (sn_of_int nm 1)"

definition same_category :: "product_row \<Rightarrow> product_row \<Rightarrow> int" where
  "same_category p q = (if pr_category p = pr_category q then 1 else 0)"

definition embedded :: "string \<Rightarrow> catalogue \<Rightarrow> (product_row \<times> embedding_row) list" where
  "embedded model s = concat (map (\<lambda>p. map (Pair p)
     (filter (\<lambda>e. er_product e = pr_id p \<and> er_model e = model) (ca_embeddings s))) (db_products (ca_db s)))"

definition semantic_score ::
  "('w, 'n::linorder, 'f::linorder) sql_numbers \<Rightarrow> product_row \<times> embedding_row \<Rightarrow> product_row \<times> embedding_row \<Rightarrow> 'f" where
  "semantic_score nm = (\<lambda>(p, e) (source, source_e).
     let weight = (\<lambda>n. sn_float nm (sn_hundredths nm n)); one = sn_float nm (sn_of_int nm 1) in
     max (sn_float nm (sn_of_int nm 0)) (min one
       (sf_add nm (sf_add nm
         (sf_mul nm (weight 75) (sf_sub nm one (sf_distance nm (er_vector e) (er_vector source_e))))
         (sn_float nm (sn_mul nm (sn_hundredths nm 15) (sn_of_int nm (same_category p source)))))
         (sn_float nm (sn_mul nm (sn_hundredths nm 10) (availability nm p))))))"

text \<open>Prices are not negative (a CHECK of the table), so their difference does not overflow.\<close>

definition fallback_score ::
  "('w, 'n::linorder, 'f) sql_numbers \<Rightarrow> product_row \<Rightarrow> product_row \<Rightarrow> 'f" where
  "fallback_score nm p source = sn_float nm
     (sn_add nm (sn_add nm
       (sn_mul nm (sn_hundredths nm 60) (sn_of_int nm (same_category p source)))
       (sn_mul nm (sn_hundredths nm 25) (sn_sub nm (sn_of_int nm 1)
         (min (sn_div nm (sn_of_int nm \<bar>pr_price_cents p - pr_price_cents source\<bar>)
                         (sn_of_int nm (max (pr_price_cents source) 1))) (sn_of_int nm 1)))))
       (sn_mul nm (sn_hundredths nm 15) (availability nm p)))"

type_synonym 'f ranked = "'f \<times> product_row \<times> recommendation_reason"

text \<open>\<open>ORDER BY score DESC, p.id LIMIT\<close>\<close>

definition best :: "nat \<Rightarrow> 'f::linorder ranked list \<Rightarrow> 'f ranked list" where
  "best limit rows = take limit (rev (sort_key fst (rev (sort_key (\<lambda>(score, p, reason). pr_id p) rows))))"

definition semantic_rows ::
  "('w, 'n::linorder, 'f::linorder) sql_numbers \<Rightarrow> string \<Rightarrow> product_id \<Rightarrow> catalogue \<Rightarrow> 'f ranked list" where
  "semantic_rows nm model pid s = concat (map (\<lambda>c. map (\<lambda>source. (semantic_score nm c source, fst c, ReasonSemantic))
     (filter (\<lambda>source. pr_id (fst source) = pid) (embedded model s)))
     (filter (\<lambda>c. for_sale pid (fst c)) (embedded model s)))"

definition fallback_rows ::
  "('w, 'n::linorder, 'f::linorder) sql_numbers \<Rightarrow> product_id \<Rightarrow> db \<Rightarrow> 'f ranked list" where
  "fallback_rows nm pid d = concat (map (\<lambda>p. map (\<lambda>source.
       (fallback_score nm p source, p, if pr_category p = pr_category source then ReasonSameCategory else ReasonAvailable))
     (filter (\<lambda>source. pr_id source = pid \<and> (pr_category p = pr_category source \<or>
        \<not> list_ex (\<lambda>q. for_sale pid q \<and> pr_category q = pr_category source) (db_products d))) (db_products d)))
     (filter (for_sale pid) (db_products d)))"

definition validate_recommendation_limit :: "int \<Rightarrow> go_error option" where
  "validate_recommendation_limit limit = (if limit < 1 \<or> limit > 20 then Some (Sentinel ErrInvalidInput) else None)"

definition query_recommendations ::
  "int \<Rightarrow> db \<Rightarrow> recommendation_mode \<Rightarrow> 'f ranked list \<Rightarrow> 'f product_recommendation list go_return" where
  "query_recommendations percent d mode rows = returned (traverse (\<lambda>(score, p, reason).
     bindE (scan_product percent d p) (\<lambda>item.
       Inr \<lparr>rc_item = item, rc_score = score, rc_mode = mode, rc_reason = reason\<rparr>)) rows)"

text \<open>
  With an empty model name \<open>queryRecommendations\<close> binds two arguments to the semantic query, which
  has three placeholders: the driver refuses it.
\<close>

definition list_semantic_alternatives ::
  "('w, 'n::linorder, 'f::linorder) sql_numbers \<Rightarrow> int \<Rightarrow> catalogue \<Rightarrow> product_id \<Rightarrow> string \<Rightarrow> int \<Rightarrow>
     'f product_recommendation list go_return" where
  "list_semantic_alternatives nm percent s pid model limit = (case validate_recommendation_limit limit of
     Some e \<Rightarrow> (None, Some e)
   | None \<Rightarrow> if model = [] then (None, Some (Wrapped []))
       else query_recommendations percent (ca_db s) ModeSemantic (best (nat limit) (semantic_rows nm model pid s)))"

definition list_fallback_alternatives ::
  "('w, 'n::linorder, 'f::linorder) sql_numbers \<Rightarrow> int \<Rightarrow> catalogue \<Rightarrow> product_id \<Rightarrow> int \<Rightarrow>
     'f product_recommendation list go_return" where
  "list_fallback_alternatives nm percent s pid limit = (case validate_recommendation_limit limit of
     Some e \<Rightarrow> (None, Some e)
   | None \<Rightarrow> query_recommendations percent (ca_db s) ModeFallback (best (nat limit) (fallback_rows nm pid (ca_db s))))"

section \<open>The client of the embeddings API\<close>

record 'w embedding_item =
  ei_index :: int
  ei_embedding :: "'w list"

text \<open>
  What one request to the API gives: no response, or a status code with the text of the body and
  its \<open>data\<close>, \<open>None\<close> where the JSON library rejects it.
\<close>

type_synonym 'w embeddings_api = "string \<Rightarrow> string list \<Rightarrow> go_error + int \<times> string \<times> 'w embedding_item list option"

definition new_embedder :: "string \<Rightarrow> string \<Rightarrow> string \<Rightarrow> bool \<Rightarrow> go_error + (string \<times> string \<times> string)" where
  "new_embedder api_key model base_url has_client =
     (if trim_space api_key = [] then Inl (Wrapped [])
      else if trim_space model = [] then Inl (Wrapped [])
      else if trim_space base_url = [] then Inl (Wrapped [])
      else if \<not> has_client then Inl (Wrapped [])
      else Inr (api_key, model, rev (dropWhile (\<lambda>c. c = CHR ''/'') (rev base_url))))"

text \<open>The loop over the items; a vector that is not yet set is nil.\<close>

fun place_vectors :: "nat \<Rightarrow> 'w embedding_item list \<Rightarrow> 'w list option list \<Rightarrow> go_error + 'w list option list" where
  "place_vectors n [] vectors = Inr vectors"
| "place_vectors n (item # items) vectors =
     (if ei_index item < 0 \<or> ei_index item \<ge> int n \<or> vectors ! nat (ei_index item) \<noteq> None then Inl (Wrapped [])
      else if length (ei_embedding item) \<noteq> embedding_dimensions then Inl (Wrapped [])
      else place_vectors n items (vectors[nat (ei_index item) := Some (ei_embedding item)]))"

definition embed :: "'w embeddings_api \<Rightarrow> string \<Rightarrow> string list \<Rightarrow> go_error + 'w list list" where
  "embed api model inputs =
     (if inputs = [] then Inr []
      else case api model inputs of
        Inl e \<Rightarrow> Inl (Wrapped [e])
      | Inr (status, message, data) \<Rightarrow>
          if status < 200 \<or> status \<ge> 300 then Inl (Wrapped [])
          else (case data of
            None \<Rightarrow> Inl (Wrapped [])
          | Some items \<Rightarrow>
              if length items \<noteq> length inputs then Inl (Wrapped [])
              else bindE (place_vectors (length inputs) items (replicate (length inputs) None)) (\<lambda>vectors.
                Inr (map (\<lambda>v. case v of None \<Rightarrow> [] | Some x \<Rightarrow> x) vectors))))"

section \<open>The use case\<close>

record ('s, 'w, 'f) recommendation_repository =
  rr_try_acquire :: "'s \<Rightarrow> string \<Rightarrow> 's \<times> bool \<times> go_error option"
  rr_release :: "'s \<Rightarrow> string \<Rightarrow> 's"
  rr_documents :: "'s \<Rightarrow> string \<Rightarrow> 's \<times> embedding_document list go_return"
  rr_upsert :: "'s \<Rightarrow> 'w product_embedding list \<Rightarrow> 's \<times> go_error option"
  rr_semantic :: "'s \<Rightarrow> product_id \<Rightarrow> string \<Rightarrow> int \<Rightarrow> 's \<times> 'f product_recommendation list go_return"
  rr_fallback :: "'s \<Rightarrow> product_id \<Rightarrow> int \<Rightarrow> 's \<times> 'f product_recommendation list go_return"

record 'w embedding_provider =
  ep_model :: string
  ep_embed :: "string list \<Rightarrow> go_error + 'w list list"

definition refresh_embeddings ::
  "('s, 'w, 'f) recommendation_repository \<Rightarrow> 'w embedding_provider \<Rightarrow> 's \<Rightarrow> 's \<times> go_error option" where
  "refresh_embeddings rr embedder s =
     (case rr_try_acquire rr s (ep_model embedder) of (s1, acquired, err) \<Rightarrow>
        if err \<noteq> None \<or> \<not> acquired then (s1, err)
        else let release = (\<lambda>(s', e). (rr_release rr s' (ep_model embedder), e)) in
          (case rr_documents rr s1 (ep_model embedder) of (s2, result, err) \<Rightarrow>
             let documents = (case result of None \<Rightarrow> [] | Some ds \<Rightarrow> ds) in
             if err \<noteq> None \<or> documents = [] then release (s2, err)
             else (case ep_embed embedder (map ed_content documents) of
                Inl e \<Rightarrow> release (s2, Some (Wrapped [e]))
              | Inr vectors \<Rightarrow>
                  if length vectors \<noteq> length documents then release (s2, Some (Wrapped []))
                  else (case rr_upsert rr s2 (map2 (\<lambda>d v. \<lparr>em_product = ed_product d,
                           em_model_name = ep_model embedder, em_hash = ed_hash d, em_vector = v\<rparr>) documents vectors) of
                      (s3, Some e) \<Rightarrow> release (s3, Some (Wrapped [e]))
                    | (s3, None) \<Rightarrow> release (s3, None)))))"

definition result_limit :: int where "result_limit = 4"

definition use_alternatives ::
  "('s \<Rightarrow> product_id \<Rightarrow> 's \<times> product go_return) \<Rightarrow> ('s, 'w, 'f) recommendation_repository \<Rightarrow>
     'w embedding_provider option \<Rightarrow> 's \<Rightarrow> product_id \<Rightarrow> 's \<times> 'f product_recommendation list go_return" where
  "use_alternatives get rr embedder s pid = (case get s pid of
     (s1, p, Some e) \<Rightarrow> (s1, None, Some e)
   | (s1, p, None) \<Rightarrow> (case embedder of
       None \<Rightarrow> rr_fallback rr s1 pid result_limit
     | Some provider \<Rightarrow>
         (case refresh_embeddings rr provider s1 of (s2, ignored) \<Rightarrow>
            (case rr_semantic rr s2 pid (ep_model provider) result_limit of (s3, semantic, err) \<Rightarrow>
               if err = None \<and> (case semantic of None \<Rightarrow> [] | Some rs \<Rightarrow> rs) \<noteq> []
               then (s3, semantic, None) else rr_fallback rr s3 pid result_limit))))"

text \<open>The PostgreSQL repositories behind the use case; \<open>lock\<close> is the answer of the advisory lock.\<close>

definition store_recommendations ::
  "externals \<Rightarrow> ('w, 'n::linorder, 'f::linorder) sql_numbers \<Rightarrow> int \<Rightarrow> (go_error + bool) \<Rightarrow>
     (catalogue, 'w, 'f) recommendation_repository" where
  "store_recommendations ext nm percent lock =
     \<lparr>rr_try_acquire = (\<lambda>s model. try_acquire_embedding_refresh lock s),
      rr_release = (\<lambda>s model. s),
      rr_documents = (\<lambda>s model. (s, Some (list_embedding_documents ext nm model s), None)),
      rr_upsert = (\<lambda>s es. upsert_embeddings nm es s),
      rr_semantic = (\<lambda>s pid model limit. (s, list_semantic_alternatives nm percent s pid model limit)),
      rr_fallback = (\<lambda>s pid limit. (s, list_fallback_alternatives nm percent s pid limit))\<rparr>"

section \<open>The handlers\<close>

record product_response =
  po_id :: string
  po_title :: string
  po_description :: string
  po_image_url :: string
  po_category :: string
  po_price_cents :: int
  po_queue_enabled :: bool
  po_stock :: int
  po_reserved :: int
  po_free_stock :: int
  po_waiting_count :: int
  po_waiting_capacity :: int

record 'f recommendation_response =
  ro_product :: product_response
  ro_score :: 'f
  ro_mode :: recommendation_mode
  ro_reason :: recommendation_reason

definition map_product :: "externals \<Rightarrow> product \<Rightarrow> product_response" where
  "map_product ext p =
     \<lparr>po_id = ext_uuid_string ext (prod_id p), po_title = prod_title p, po_description = prod_description p,
      po_image_url = prod_image_url p, po_category = prod_category p, po_price_cents = prod_price_cents p,
      po_queue_enabled = prod_queue_enabled p, po_stock = prod_allocatable_stock p, po_reserved = prod_reserved p,
      po_free_stock = free_stock p, po_waiting_count = prod_waiting_count p, po_waiting_capacity = prod_waiting_capacity p\<rparr>"

text \<open>A response of these handlers: an error, or status 200 with the value that is rendered.\<close>

type_synonym 'b answer = "http_response + int \<times> 'b"

definition product_list_handler ::
  "externals \<Rightarrow> ('s \<Rightarrow> 's \<times> product list go_return) \<Rightarrow> 's \<Rightarrow> 's \<times> product_response list answer" where
  "product_list_handler ext service s = (case service s of
     (s', r, Some e) \<Rightarrow> (s', Inl (map_http_error e))
   | (s', r, None) \<Rightarrow> (s', Inr (200, map (map_product ext) (case r of None \<Rightarrow> [] | Some ps \<Rightarrow> ps))))"

text \<open>The zero product of a service that returns neither a product nor an error.\<close>

definition zero_product :: product where
  "zero_product = \<lparr>prod_id = 0, prod_title = [], prod_description = [], prod_image_url = [], prod_category = [],
     prod_price_cents = 0, prod_queue_enabled = False, prod_allocatable_stock = 0, prod_reserved = 0,
     prod_next_queue_sequence = 0, prod_waiting_count = 0, prod_waiting_capacity = 0\<rparr>"

definition product_get_handler ::
  "externals \<Rightarrow> ('s \<Rightarrow> product_id \<Rightarrow> 's \<times> product go_return) \<Rightarrow> 's \<Rightarrow> http_request \<Rightarrow> 's \<times> product_response answer" where
  "product_get_handler ext service s req = (case parse_product_id ext (rq_product req) of
     Inl e \<Rightarrow> (s, Inl (map_http_error e))
   | Inr pid \<Rightarrow> (case service s pid of
       (s', r, Some e) \<Rightarrow> (s', Inl (map_http_error e))
     | (s', r, None) \<Rightarrow> (s', Inr (200, map_product ext (case r of None \<Rightarrow> zero_product | Some p \<Rightarrow> p)))))"

definition alternatives_handler ::
  "externals \<Rightarrow> ('s \<Rightarrow> product_id \<Rightarrow> 's \<times> 'f product_recommendation list go_return) \<Rightarrow> 's \<Rightarrow> http_request \<Rightarrow>
     's \<times> 'f recommendation_response list answer" where
  "alternatives_handler ext service s req = (case parse_product_id ext (rq_product req) of
     Inl e \<Rightarrow> (s, Inl (map_http_error e))
   | Inr pid \<Rightarrow> (case service s pid of
       (s', r, Some e) \<Rightarrow> (s', Inl (map_http_error e))
     | (s', r, None) \<Rightarrow> (s', Inr (200, map (\<lambda>c. \<lparr>ro_product = map_product ext (rc_item c), ro_score = rc_score c,
           ro_mode = rc_mode c, ro_reason = rc_reason c\<rparr>) (case r of None \<Rightarrow> [] | Some cs \<Rightarrow> cs)))))"

definition demo_user_list_handler :: "('s \<Rightarrow> 's \<times> demo_user list go_return) \<Rightarrow> 's \<Rightarrow> 's \<times> (string \<times> string) list answer" where
  "demo_user_list_handler service s = (case service s of
     (s', r, Some e) \<Rightarrow> (s', Inl (map_http_error e))
   | (s', r, None) \<Rightarrow> (s', Inr (200, map (\<lambda>u. (du_user u, du_name u)) (case r of None \<Rightarrow> [] | Some us \<Rightarrow> us))))"

section \<open>What a product service promises\<close>

text \<open>
  The contract of the service behind the product handlers, for any implementation: a product or an
  alternative that is shown is an entry of the list, an alternative is another product that can be
  bought now, and there are at most four of them, all different.
\<close>

locale product_service =
  fixes list_all :: "'s \<Rightarrow> 's \<times> product list go_return"
    and get :: "'s \<Rightarrow> product_id \<Rightarrow> 's \<times> product go_return"
    and alternatives :: "'s \<Rightarrow> product_id \<Rightarrow> 's \<times> 'f product_recommendation list go_return"
    and good :: "'s \<Rightarrow> bool"
  assumes listed: "list_all s = (s', r, None) \<Longrightarrow> \<exists>ps. r = Some ps"
    and got: "good s \<Longrightarrow> get s pid = (s', found, None) \<Longrightarrow> \<exists>p. found = Some p \<and> prod_id p = pid"
    and get_listed: "good s \<Longrightarrow> get s pid = (s', Some p, None) \<Longrightarrow> list_all s' = (s'', Some ps, None) \<Longrightarrow> p \<in> set ps"
    and offered: "good s \<Longrightarrow> alternatives s pid = (s', Some rs, None) \<Longrightarrow>
      length rs \<le> 4 \<and> distinct (map (\<lambda>c. prod_id (rc_item c)) rs) \<and>
      (\<forall>c\<in>set rs. prod_id (rc_item c) \<noteq> pid \<and> prod_queue_enabled (rc_item c) \<and> 0 < free_stock (rc_item c))"
    and offer_listed: "good s \<Longrightarrow> alternatives s pid = (s', Some rs, None) \<Longrightarrow> list_all s' = (s'', Some ps, None) \<Longrightarrow>
      rc_item ` set rs \<subseteq> set ps"
begin

lemma product_page_listed:
  assumes "good s" and "product_get_handler ext get s req = (s', Inr (status, page))"
    and "product_list_handler ext list_all s' = (s'', Inr (status', pages))"
  shows "status = 200 \<and> page \<in> set pages"
proof -
  obtain pid r where call: "get s pid = (s', r, None)"
    and page: "status = 200" "page = map_product ext (case r of None \<Rightarrow> zero_product | Some p \<Rightarrow> p)"
    using assms(2) by (auto simp: product_get_handler_def split: sum.splits prod.splits option.splits)
  obtain p where p: "r = Some p" using got [OF assms(1) call] by blast
  obtain ps where ps: "list_all s' = (s'', Some ps, None)" "pages = map (map_product ext) ps"
    using assms(3) listed by (auto simp: product_list_handler_def split: prod.splits option.splits)
  show ?thesis using get_listed [OF assms(1) call [unfolded p] ps(1)] page p ps(2) by simp
qed

lemma alternatives_page:
  assumes "good s" and "alternatives_handler ext alternatives s req = (s', Inr (status, offers))"
    and "product_list_handler ext list_all s' = (s'', Inr (status', pages))"
  shows "length offers \<le> 4 \<and> (\<forall>c\<in>set offers. ro_product c \<in> set pages \<and>
     po_queue_enabled (ro_product c) \<and> 0 < po_free_stock (ro_product c))"
proof -
  obtain pid r where call: "alternatives s pid = (s', r, None)"
    and offers: "offers = map (\<lambda>c. \<lparr>ro_product = map_product ext (rc_item c), ro_score = rc_score c,
        ro_mode = rc_mode c, ro_reason = rc_reason c\<rparr>) (case r of None \<Rightarrow> [] | Some cs \<Rightarrow> cs)"
    using assms(2) by (auto simp: alternatives_handler_def split: sum.splits prod.splits option.splits)
  obtain ps where ps: "list_all s' = (s'', Some ps, None)" "pages = map (map_product ext) ps"
    using assms(3) listed by (auto simp: product_list_handler_def split: prod.splits option.splits)
  show ?thesis
  proof (cases r)
    case None
    then show ?thesis using offers by simp
  next
    case (Some rs)
    note offer = offered [OF assms(1) call [unfolded Some]] offer_listed [OF assms(1) call [unfolded Some] ps(1)]
    then show ?thesis using offers Some ps(2) by (auto simp: map_product_def image_iff subset_iff)
  qed
qed

end

end
