(* ===== verification/Catalogue_Properties.thy ===== *)
theory Catalogue_Properties
  imports Catalogue Example
begin

text \<open>
  The catalogue on the store: what the repositories list is true of the database, and the
  alternatives of a product are other products that can be bought now, whatever the embedding
  provider does. The first section holds the facts about lists the queries share.
\<close>

section \<open>Queries\<close>

text \<open>A join that finds at most one partner per row keeps the key of the rows distinct.\<close>

lemma distinct_join:
  assumes "distinct (map k xs)" and "\<And>x. length (g x) \<le> 1" and "\<And>x y. y \<in> set (g x) \<Longrightarrow> h y = k x"
  shows "distinct (map h (concat (map g xs)))"
  using assms(1)
proof (induction xs)
  case (Cons x xs)
  have "set (map h (concat (map g xs))) \<subseteq> k ` set xs" using assms(3) by auto
  moreover have "set (map h (g x)) \<subseteq> {k x}" using assms(3) by auto
  moreover have "k x \<notin> k ` set xs" using Cons.prems by simp
  ultimately have "set (map h (g x)) \<inter> set (map h (concat (map g xs))) = {}" by blast
  moreover have "distinct (map h (g x))" using assms(2) [of x] by (cases "g x") auto
  moreover have "distinct (map h (concat (map g xs)))" using Cons by simp
  ultimately show ?case by (simp only: list.map concat.simps map_append distinct_append)
qed simp

lemma at_most_one:
  assumes "distinct (map k xs)" and "\<And>x. P x \<Longrightarrow> k x = c"
  shows "length (filter P xs) \<le> 1"
proof -
  have "distinct (map k (filter P xs))" using assms(1) by (rule distinct_map_filter)
  moreover have "set (map k (filter P xs)) \<subseteq> {c}" using assms(2) by auto
  ultimately have "length (map k (filter P xs)) \<le> card {c}" by (metis distinct_card card_mono finite.emptyI finite_insert)
  then show ?thesis by simp
qed

lemma best_facts:
  "set (best n rows) \<subseteq> set rows" "length (best n rows) = min n (length rows)"
proof -
  have "set (best n rows) \<subseteq> set (rev (sort_key fst (rev (sort_key (\<lambda>(score, p, reason). pr_id p) rows))))"
    unfolding best_def by (rule set_take_subset)
  then show "set (best n rows) \<subseteq> set rows" by simp
qed (simp add: best_def min.commute)

lemma best_empty: "0 < n \<Longrightarrow> best n rows = [] \<longleftrightarrow> rows = []"
  using best_facts(2) [of n rows] by (cases "best n rows"; cases rows) auto

lemma distinct_best:
  assumes "distinct (map h rows)"
  shows "distinct (map h (best n rows))"
proof -
  have "distinct rows" "inj_on h (set rows)" using assms by (auto simp: distinct_map)
  then show ?thesis using best_facts(1) [of n rows]
    by (auto simp: distinct_map best_def intro: inj_on_subset)
qed

definition catalogue_inv :: "catalogue \<Rightarrow> bool" where
  "catalogue_inv s \<longleftrightarrow> db_inv (ca_db s) \<and> distinct (map er_product (ca_embeddings s))"

lemma embedded_distinct:
  assumes "catalogue_inv s"
  shows "distinct (map (\<lambda>c. pr_id (fst c)) (embedded model s))"
  unfolding embedded_def
proof (rule distinct_join)
  show "distinct (map pr_id (db_products (ca_db s)))" using assms db_invD(2) by (simp add: catalogue_inv_def)
  have "length (filter (\<lambda>e. er_product e = pr_id p \<and> er_model e = model) (ca_embeddings s)) \<le> 1" for p
    using assms by (intro at_most_one [of er_product]) (auto simp: catalogue_inv_def)
  then show "length (map (Pair p) (filter (\<lambda>e. er_product e = pr_id p \<and> er_model e = model) (ca_embeddings s))) \<le> 1" for p
    by simp
qed auto

lemma semantic_rows_distinct:
  assumes "catalogue_inv s"
  shows "distinct (map (\<lambda>(score, p, reason). pr_id p) (semantic_rows nm model pid s))"
  unfolding semantic_rows_def
proof (rule distinct_join)
  show "distinct (map (\<lambda>c. pr_id (fst c)) (filter (\<lambda>c. for_sale pid (fst c)) (embedded model s)))"
    by (rule distinct_map_filter [OF embedded_distinct [OF assms]])
  have "length (filter (\<lambda>c. pr_id (fst c) = pid) (embedded model s)) \<le> 1"
    by (rule at_most_one [OF embedded_distinct [OF assms]])
  then show "length (map (\<lambda>source. (semantic_score nm c source, fst c, ReasonSemantic))
      (filter (\<lambda>c. pr_id (fst c) = pid) (embedded model s))) \<le> 1" for c by simp
qed auto

lemma fallback_rows_distinct:
  assumes "db_inv d"
  shows "distinct (map (\<lambda>(score, p, reason). pr_id p) (fallback_rows nm pid d))"
  unfolding fallback_rows_def
proof (rule distinct_join)
  show "distinct (map pr_id (filter (for_sale pid) (db_products d)))"
    by (rule distinct_map_filter [OF db_invD(2) [OF assms]])
  fix p
  have "length (filter (\<lambda>q. pr_id q = pid \<and> P q) (db_products d)) \<le> 1" for P
    by (rule at_most_one [OF db_invD(2) [OF assms]]) simp
  then show "length (map (\<lambda>source. (fallback_score nm p source, p,
        if pr_category p = pr_category source then ReasonSameCategory else ReasonAvailable))
      (filter (\<lambda>source. pr_id source = pid \<and> (pr_category p = pr_category source \<or>
         \<not> list_ex (\<lambda>q. for_sale pid q \<and> pr_category q = pr_category source) (db_products d))) (db_products d))) \<le> 1"
    by simp
qed auto

lemma semantic_rows_for_sale:
  "(score, p, reason) \<in> set (semantic_rows nm model pid s) \<Longrightarrow> p \<in> set (db_products (ca_db s)) \<and> for_sale pid p"
  by (auto simp: semantic_rows_def embedded_def)

lemma fallback_rows_for_sale:
  "(score, p, reason) \<in> set (fallback_rows nm pid d) \<Longrightarrow> p \<in> set (db_products d) \<and> for_sale pid p"
  by (auto simp: fallback_rows_def)

text \<open>The fallback finds something whenever there is something to find.\<close>

lemma fallback_rows_empty:
  assumes "pid \<in> pr_id ` set (db_products d)"
  shows "fallback_rows nm pid d = [] \<longleftrightarrow> \<not> list_ex (for_sale pid) (db_products d)"
proof -
  obtain source where source: "source \<in> set (db_products d)" "pr_id source = pid" using assms by auto
  have "\<exists>p score reason. (score, p, reason) \<in> set (fallback_rows nm pid d)" if p: "p \<in> set (db_products d)" "for_sale pid p" for p
  proof (cases "list_ex (\<lambda>q. for_sale pid q \<and> pr_category q = pr_category source) (db_products d)")
    case True
    then obtain q where "q \<in> set (db_products d)" "for_sale pid q" "pr_category q = pr_category source"
      by (auto simp: list_ex_iff)
    then show ?thesis using source by (fastforce simp: fallback_rows_def)
  next
    case False
    then show ?thesis using source p by (fastforce simp: fallback_rows_def)
  qed
  moreover have "list_ex (for_sale pid) (db_products d)" if "fallback_rows nm pid d = (score, p, reason) # rest" for score p reason rest
    using fallback_rows_for_sale [of score p reason nm pid d] that by (auto simp: list_ex_iff)
  ultimately show ?thesis by (cases "fallback_rows nm pid d") (auto simp: list_ex_iff)
qed

section \<open>What the repositories answer\<close>

lemma scan_product_Inr:
  assumes "scan_product percent d r = Inr item"
  shows "prod_id item = pr_id r" "prod_queue_enabled item = pr_queue_enabled r"
    "prod_allocatable_stock item = pr_stock r" "prod_reserved item = pr_reserved r"
    "prod_waiting_count item = waiting_rows d (pr_id r)"
  using assms by (auto simp: scan_product_def split: sum.splits)

lemma scan_product_free:
  assumes "scan_product percent d r = Inr item" and "product_ok r" and "for_sale pid r"
  shows "free_stock item = pr_stock r - pr_reserved r" "0 < free_stock item"
proof -
  have "i32 (pr_stock r - pr_reserved r) = pr_stock r - pr_reserved r"
    using assms(2,3) by (intro i32_id) (auto simp: product_ok_def for_sale_def min_int32_def)
  then show "free_stock item = pr_stock r - pr_reserved r"
    using assms(3) scan_product_Inr [OF assms(1)] by (simp add: free_stock_def for_sale_def)
  then show "0 < free_stock item" using assms(3) by (simp add: for_sale_def)
qed

lemma scan_product_total:
  assumes "product_ok r" and "0 \<le> percent" and "percent \<le> max_int32"
  shows "\<exists>item. scan_product percent d r = Inr item"
proof -
  have s: "0 \<le> pr_stock r" "pr_stock r \<le> max_int32" using assms(1) by (auto simp: product_ok_def)
  have p: "pr_stock r * percent \<le> 2147483647 * 2147483647" using s assms(2,3)
    by (intro mult_mono) (auto simp: max_int32_def)
  have "0 \<le> pr_stock r * percent" using s assms(2) by simp
  then have w: "i64 (pr_stock r * percent) = pr_stock r * percent"
    using p by (intro i64_id) (auto simp: max_int64_def)
  have "percent \<le> max_int64 div pr_stock r" if "pr_stock r \<noteq> 0"
  proof -
    have "max_int64 div pr_stock r \<ge> max_int64 div max_int32" using s that
      by (intro zdiv_mono2) (auto simp: max_int64_def)
    then show ?thesis using assms(3) by (simp add: max_int64_def max_int32_def)
  qed
  then have "\<exists>c. waiting_capacity (pr_stock r) percent = Inr c"
    using s(1) assms(2) p w by (auto simp: waiting_capacity_def Let_def max_int64_def)
  then show ?thesis by (auto simp: scan_product_def)
qed

lemma query_recommendations_Some:
  assumes "query_recommendations percent d mode (best n rows) = (Some rs, None)"
    and "distinct (map (\<lambda>(score, p, reason). pr_id p) rows)"
    and "\<And>score p reason. (score, p, reason) \<in> set rows \<Longrightarrow> p \<in> set (db_products d) \<and> for_sale pid p"
  shows "length rs = min n (length rows)" and "distinct (map (\<lambda>c. prod_id (rc_item c)) rs)"
    and "c \<in> set rs \<Longrightarrow> \<exists>r\<in>set (db_products d). scan_product percent d r = Inr (rc_item c) \<and> for_sale pid r"
proof -
  let ?scan = "\<lambda>(score, p, reason). bindE (scan_product percent d p) (\<lambda>item.
       Inr \<lparr>rc_item = item, rc_score = score, rc_mode = mode, rc_reason = reason\<rparr>)"
  have all: "list_all2 (\<lambda>x c. ?scan x = Inr c) (best n rows) rs"
    using assms(1) by (simp add: query_recommendations_def traverse_Inr)
  show "length rs = min n (length rows)" using list_all2_lengthD [OF all] best_facts(2) by metis
  have "list_all2 (\<lambda>x c. (\<lambda>(score, p, reason). pr_id p) x = prod_id (rc_item c)) (best n rows) rs"
    by (rule list_all2_mono [OF all]) (clarsimp simp: scan_product_Inr(1))
  then have "map (\<lambda>(score, p, reason). pr_id p) (best n rows) = map (\<lambda>c. prod_id (rc_item c)) rs"
    by (simp add: list_all2_conv_all_nth list_eq_iff_nth_eq)
  then show "distinct (map (\<lambda>c. prod_id (rc_item c)) rs)" using distinct_best [OF assms(2), of n] by simp
  assume "c \<in> set rs"
  then obtain i where i: "i < length rs" "c = rs ! i" by (auto simp: in_set_conv_nth)
  let ?x = "best n rows ! i"
  have x: "?x \<in> set (best n rows)" using i list_all2_lengthD [OF all] by simp
  have "?scan ?x = Inr c" using list_all2_nthD2 [OF all i(1)] i(2) by simp
  then obtain score p reason where "?x = (score, p, reason)" "scan_product percent d p = Inr (rc_item c)"
    by (cases ?x) auto
  then show "\<exists>r\<in>set (db_products d). scan_product percent d r = Inr (rc_item c) \<and> for_sale pid r"
    using x best_facts(1) [of n rows] assms(3) by (metis subsetD)
qed

lemma query_recommendations_total:
  assumes "db_inv d" and "0 \<le> percent" and "percent \<le> max_int32"
    and "\<And>score p reason. (score, p, reason) \<in> set rows \<Longrightarrow> p \<in> set (db_products d)"
  shows "\<exists>rs. query_recommendations percent d mode (best n rows) = (Some rs, None)"
proof -
  have "\<exists>item. scan_product percent d p = Inr item" if "(score, p, reason) \<in> set (best n rows)" for score p reason
    using that assms(4) best_facts(1) [of n rows] scan_product_total [OF db_invD(3) [OF assms(1)] assms(2,3)] by blast
  then have "\<exists>rs. traverse (\<lambda>(score, p, reason). bindE (scan_product percent d p) (\<lambda>item.
       Inr \<lparr>rc_item = item, rc_score = score, rc_mode = mode, rc_reason = reason\<rparr>)) (best n rows) = Inr rs"
    by (intro traverse_total) fastforce
  then show ?thesis by (simp add: query_recommendations_def)
qed

text \<open>Refreshing the cache keeps one embedding per product and leaves the store alone.\<close>

lemma upsert_loop_distinct:
  "upsert_loop nm es rows = Inr rows' \<Longrightarrow> distinct (map er_product rows) \<Longrightarrow> distinct (map er_product rows')"
proof (induction nm es rows rule: upsert_loop.induct)
  case (2 nm e es rows)
  have "distinct (map er_product rows2)" if "upsert_embedding x rows = Inr rows2" for x rows2
  proof -
    have "er_product \<circ> (\<lambda>r. if er_product r = er_product x then x else r) = er_product" by auto
    then show ?thesis using that 2(3) by (auto simp: upsert_embedding_def split: if_splits)
  qed
  moreover obtain v rows2 where "format_vector nm (em_vector e) = Inr v" "upsert_loop nm es rows2 = Inr rows'"
      "upsert_embedding \<lparr>er_product = em_product e, er_model = em_model_name e, er_hash = em_hash e, er_vector = v\<rparr> rows = Inr rows2"
    using 2(2) by simp (metis (no_types, lifting) old.sum.exhaust sum.case(1) sum.case(2) sum.distinct(1))
  ultimately show ?case using 2(1) by blast
qed simp

lemma refresh_embeddings_keeps:
  assumes "catalogue_inv s"
  shows "catalogue_inv (fst (refresh_embeddings (store_recommendations ext nm percent lock) embedder s)) \<and>
    ca_db (fst (refresh_embeddings (store_recommendations ext nm percent lock) embedder s)) = ca_db s"
proof -
  have kept: "catalogue_inv s' \<and> ca_db s' = ca_db s" if "upsert_embeddings nm es s = (s', e)" for es s' e
    using assms that
    by (auto simp: upsert_embeddings_def catalogue_inv_def split: sum.splits dest: upsert_loop_distinct)
  show ?thesis using assms
    by (simp add: refresh_embeddings_def store_recommendations_def try_acquire_embedding_refresh_def Let_def
        split: sum.split prod.split option.split) (auto dest: kept)
qed

section \<open>The product service on the store\<close>

definition shop_list :: "int \<Rightarrow> catalogue \<Rightarrow> catalogue \<times> product list go_return" where
  "shop_list percent s = (s, list_products percent (ca_db s))"

definition shop_get :: "int \<Rightarrow> catalogue \<Rightarrow> product_id \<Rightarrow> catalogue \<times> product go_return" where
  "shop_get percent s pid = (s, get_product percent (ca_db s) pid)"

definition shop_alternatives ::
  "externals \<Rightarrow> ('w, 'n::linorder, 'f::linorder) sql_numbers \<Rightarrow> int \<Rightarrow> (go_error + bool) \<Rightarrow> 'w embedding_provider option \<Rightarrow>
     catalogue \<Rightarrow> product_id \<Rightarrow> catalogue \<times> 'f product_recommendation list go_return" where
  "shop_alternatives ext nm percent lock =
     use_alternatives (shop_get percent) (store_recommendations ext nm percent lock)"

lemma store_recommendations_simps [simp]:
  "rr_semantic (store_recommendations ext nm percent lock) s pid model limit =
     (s, list_semantic_alternatives nm percent s pid model limit)"
  "rr_fallback (store_recommendations ext nm percent lock) s pid limit = (s, list_fallback_alternatives nm percent s pid limit)"
  by (simp_all add: store_recommendations_def)

text \<open>
  Whatever the embedding provider does, an answer is either a nonempty semantic ranking or the
  fallback, over the same products.
\<close>

lemma shop_alternatives_cases:
  fixes embedder :: "'w embedding_provider option"
  assumes inv: "catalogue_inv s" and call: "shop_alternatives ext nm percent lock embedder s pid = (s', r, e)"
    and got: "get_product percent (ca_db s) pid = (p, None)"
  obtains (semantic) rs and provider :: "'w embedding_provider" where "catalogue_inv s'" and "ca_db s' = ca_db s" and "r = Some rs" and "rs \<noteq> []" and "e = None"
      and "query_recommendations percent (ca_db s) ModeSemantic (best 4 (semantic_rows nm (ep_model provider) pid s')) = (Some rs, None)"
    | (fallback) "catalogue_inv s'" and "ca_db s' = ca_db s"
      and "query_recommendations percent (ca_db s) ModeFallback (best 4 (fallback_rows nm pid (ca_db s))) = (r, e)"
proof (cases embedder)
  case None
  then show thesis using fallback assms
    by (auto simp: shop_alternatives_def use_alternatives_def shop_get_def list_fallback_alternatives_def
        validate_recommendation_limit_def result_limit_def)
next
  case (Some provider)
  let ?s2 = "fst (refresh_embeddings (store_recommendations ext nm percent lock) provider s)"
  have s2: "catalogue_inv ?s2" "ca_db ?s2 = ca_db s" using refresh_embeddings_keeps [OF inv, of ext nm percent lock provider] by simp_all
  obtain semantic err where sem: "list_semantic_alternatives nm percent ?s2 pid (ep_model provider) 4 = (semantic, err)"
    by fastforce
  show thesis
  proof (cases "err = None \<and> (case semantic of None \<Rightarrow> [] | Some rs \<Rightarrow> rs) \<noteq> []")
    case True
    then obtain rs where rs: "semantic = Some rs" "rs \<noteq> []" by (auto split: option.splits)
    have "query_recommendations percent (ca_db s) ModeSemantic (best 4 (semantic_rows nm (ep_model provider) pid ?s2)) = (Some rs, None)"
      using sem rs True s2 by (auto simp: list_semantic_alternatives_def validate_recommendation_limit_def split: if_splits)
    moreover have "s' = ?s2" "r = Some rs" "e = None"
      using call got Some sem True rs
      by (auto simp: shop_alternatives_def use_alternatives_def shop_get_def result_limit_def split: prod.splits)
    ultimately show thesis using s2 rs(2) by (intro semantic [of rs provider]) simp_all
  next
    case False
    then show thesis using fallback call got Some sem s2
      by (auto simp: shop_alternatives_def use_alternatives_def shop_get_def result_limit_def
          list_fallback_alternatives_def validate_recommendation_limit_def split: prod.splits)
  qed
qed

lemma shop_alternatives_facts:
  fixes embedder :: "'w embedding_provider option"
  assumes inv: "catalogue_inv s" and call: "shop_alternatives ext nm percent lock embedder s pid = (s', Some rs, None)"
  shows "ca_db s' = ca_db s \<and> length rs \<le> 4 \<and> distinct (map (\<lambda>c. prod_id (rc_item c)) rs) \<and>
    (\<forall>c\<in>set rs. \<exists>r\<in>set (db_products (ca_db s)). scan_product percent (ca_db s) r = Inr (rc_item c) \<and> for_sale pid r)"
proof -
  have db: "db_inv (ca_db s)" using inv by (simp add: catalogue_inv_def)
  obtain p where got: "get_product percent (ca_db s) pid = (p, None)"
    using call by (cases "get_product percent (ca_db s) pid")
      (auto simp: shop_alternatives_def use_alternatives_def shop_get_def split: option.splits)
  show ?thesis
  proof (rule shop_alternatives_cases [OF inv call got])
    fix rs' and provider :: "'w embedding_provider"
    assume s': "catalogue_inv s'" "ca_db s' = ca_db s" and "Some rs = Some rs'"
      and query: "query_recommendations percent (ca_db s) ModeSemantic
        (best 4 (semantic_rows nm (ep_model provider) pid s')) = (Some rs', None)"
    have "\<And>score p reason. (score, p, reason) \<in> set (semantic_rows nm (ep_model provider) pid s') \<Longrightarrow>
        p \<in> set (db_products (ca_db s)) \<and> for_sale pid p"
      using semantic_rows_for_sale [of _ _ _ nm _ pid s'] s'(2) by metis
    note q = query_recommendations_Some [OF query semantic_rows_distinct [OF s'(1)] this]
    show ?thesis using q s'(2) \<open>Some rs = Some rs'\<close> by simp
  next
    assume s': "ca_db s' = ca_db s"
      and query: "query_recommendations percent (ca_db s) ModeFallback (best 4 (fallback_rows nm pid (ca_db s))) = (Some rs, None)"
    have "\<And>score p reason. (score, p, reason) \<in> set (fallback_rows nm pid (ca_db s)) \<Longrightarrow>
        p \<in> set (db_products (ca_db s)) \<and> for_sale pid p"
      by (rule fallback_rows_for_sale)
    note q = query_recommendations_Some [OF query fallback_rows_distinct [OF db] this]
    show ?thesis using q s' by simp
  qed
qed

lemma list_products_Some:
  assumes "list_products percent d = (Some ps, None)"
  shows "r \<in> set (db_products d) \<Longrightarrow> scan_product percent d r = Inr item \<Longrightarrow> item \<in> set ps"
    and "item \<in> set ps \<Longrightarrow> \<exists>r\<in>set (db_products d). scan_product percent d r = Inr item"
proof -
  let ?rows = "sort_key pr_id (db_products d)"
  have all: "list_all2 (\<lambda>r item. scan_product percent d r = Inr item) ?rows ps"
    using assms by (simp add: list_products_def traverse_Inr)
  show "item \<in> set ps" if "r \<in> set (db_products d)" "scan_product percent d r = Inr item"
  proof -
    have "r \<in> set ?rows" using that(1) by simp
    then obtain i where "i < length ?rows" "?rows ! i = r" unfolding in_set_conv_nth by blast
    then have "i < length ps" "ps ! i = item"
      using list_all2_nthD [OF all, of i] list_all2_lengthD [OF all] that(2) by simp_all
    then show ?thesis by (metis nth_mem)
  qed
  show "\<exists>r\<in>set (db_products d). scan_product percent d r = Inr item" if item: "item \<in> set ps"
  proof -
    obtain i where i: "i < length ps" "ps ! i = item" using item by (metis in_set_conv_nth)
    then have "scan_product percent d (?rows ! i) = Inr item" using list_all2_nthD2 [OF all] by metis
    moreover have "?rows ! i \<in> set (db_products d)"
      using i(1) list_all2_lengthD [OF all] nth_mem [of i ?rows] by simp
    ultimately show ?thesis by blast
  qed
qed

interpretation shop: product_service "shop_list percent" "shop_get percent"
  "shop_alternatives ext nm percent lock embedder" catalogue_inv for ext nm percent lock embedder
proof unfold_locales
  show "shop_list percent s = (s', r, None) \<Longrightarrow> \<exists>ps. r = Some ps" for s s' r
    by (auto simp: shop_list_def list_products_def returned_def split: sum.splits)
  show "shop_get percent s pid = (s', found, None) \<Longrightarrow> \<exists>p. found = Some p \<and> prod_id p = pid" for s pid s' found
    by (auto simp: shop_get_def get_product_def returned_def find_Some_iff split: option.splits sum.splits
        dest: scan_product_Inr(1))
  show "p \<in> set ps" if calls: "shop_get percent s pid = (s', Some p, None)" "shop_list percent s' = (s'', Some ps, None)"
    for s pid s' p s'' ps
  proof -
    obtain r where "find (\<lambda>r. pr_id r = pid) (db_products (ca_db s)) = Some r" "scan_product percent (ca_db s) r = Inr p"
      using calls(1) by (auto simp: shop_get_def get_product_def split: option.splits)
    moreover have "list_products percent (ca_db s) = (Some ps, None)" using calls by (auto simp: shop_get_def shop_list_def)
    ultimately show ?thesis using list_products_Some(1) find_in_set by metis
  qed
  show "length rs \<le> 4 \<and> distinct (map (\<lambda>c. prod_id (rc_item c)) rs) \<and>
      (\<forall>c\<in>set rs. prod_id (rc_item c) \<noteq> pid \<and> prod_queue_enabled (rc_item c) \<and> 0 < free_stock (rc_item c))"
    if "catalogue_inv s" "shop_alternatives ext nm percent lock embedder s pid = (s', Some rs, None)" for s pid s' rs
  proof -
    have ok: "\<And>r. r \<in> set (db_products (ca_db s)) \<Longrightarrow> product_ok r" using that(1) db_invD(3) [of "ca_db s"] by (simp add: catalogue_inv_def)
    have "prod_id item \<noteq> pid \<and> prod_queue_enabled item \<and> 0 < free_stock item"
      if "r \<in> set (db_products (ca_db s))" "scan_product percent (ca_db s) r = Inr item" "for_sale pid r" for r item
      using scan_product_Inr [OF that(2)] scan_product_free [OF that(2) ok [OF that(1)] that(3)] that(3)
      by (simp add: for_sale_def)
    then show ?thesis using shop_alternatives_facts [OF that] by blast
  qed
  show "rc_item ` set rs \<subseteq> set ps"
    if "catalogue_inv s" "shop_alternatives ext nm percent lock embedder s pid = (s', Some rs, None)"
      "shop_list percent s' = (s'', Some ps, None)" for s pid s' rs s'' ps
    using shop_alternatives_facts [OF that(1,2)] that(3) list_products_Some(1) [of percent "ca_db s" ps]
    by (auto simp: shop_list_def)
qed

text \<open>The page of a product and the page of its alternatives agree with the list of products.\<close>

lemmas shop_pages = shop.product_page_listed shop.alternatives_page

section \<open>There is always something to offer\<close>

lemma shop_alternatives_total:
  fixes embedder :: "'w embedding_provider option"
  assumes inv: "catalogue_inv s" and known: "pid \<in> pr_id ` set (db_products (ca_db s))"
    and percent: "0 \<le> percent" "percent \<le> max_int32"
  obtains s' rs where "shop_alternatives ext nm percent lock embedder s pid = (s', Some rs, None)" and "catalogue_inv s'"
    and "rs = [] \<longleftrightarrow> \<not> list_ex (for_sale pid) (db_products (ca_db s))"
proof -
  have db: "db_inv (ca_db s)" using inv by (simp add: catalogue_inv_def)
  obtain r0 where r0: "find (\<lambda>r. pr_id r = pid) (db_products (ca_db s)) = Some r0"
    using known by (cases "find (\<lambda>r. pr_id r = pid) (db_products (ca_db s))") (auto simp: find_None_iff)
  obtain p where got: "get_product percent (ca_db s) pid = (Some p, None)"
    using scan_product_total [OF db_invD(3) [OF db] percent] find_in_set [OF r0] r0 by (force simp: get_product_def)
  obtain s' r e where call: "shop_alternatives ext nm percent lock embedder s pid = (s', r, e)" by (metis prod_cases3)
  let ?rows = "fallback_rows nm pid (ca_db s)"
  have rows: "p \<in> set (db_products (ca_db s)) \<and> for_sale pid p" if "(score, p, reason) \<in> set ?rows" for score p reason
    using fallback_rows_for_sale [OF that] .
  show thesis
  proof (rule shop_alternatives_cases [OF inv call got])
    fix rs and provider :: "'w embedding_provider"
    assume s': "catalogue_inv s'" and rs: "r = Some rs" "rs \<noteq> []" "e = None"
    obtain c where "c \<in> set rs" using rs(2) by (cases rs) auto
    then have "list_ex (for_sale pid) (db_products (ca_db s))"
      using shop_alternatives_facts [OF inv call [unfolded rs(1,3)]] by (auto simp: list_ex_iff)
    then show thesis using that call rs s' by simp
  next
    assume s': "catalogue_inv s'" and query: "query_recommendations percent (ca_db s) ModeFallback (best 4 ?rows) = (r, e)"
    obtain rs where rs: "query_recommendations percent (ca_db s) ModeFallback (best 4 ?rows) = (Some rs, None)"
      using query_recommendations_total [OF db percent, of ?rows ModeFallback 4] rows by blast
    have "length rs = min 4 (length ?rows)"
      using query_recommendations_Some(1) [OF rs fallback_rows_distinct [OF db] rows] .
    then have "rs = [] \<longleftrightarrow> ?rows = []" by (cases ?rows) auto
    then show thesis using that [of s' rs] call query rs s' fallback_rows_empty [OF known, of nm] by simp
  qed
qed

text \<open>
  C34. A sold-out product never leaves the customer stranded: for a product of the catalogue,
  whatever the embedding provider, its cache and the advisory lock do, Alternatives answers without
  an error and without touching the store; it offers at most four different products, each one
  another product that is enabled and has free stock, with the stock it really has; and it offers
  nothing only when there is no such product.
\<close>

theorem alternatives_available:
  assumes inv: "catalogue_inv s" and known: "pid \<in> pr_id ` set (db_products (ca_db s))"
    and percent: "0 \<le> percent" "percent \<le> max_int32"
  shows "\<exists>s' rs. shop_alternatives ext nm percent lock embedder s pid = (s', Some rs, None) \<and>
     catalogue_inv s' \<and> ca_db s' = ca_db s \<and>
     length rs \<le> 4 \<and> distinct (map (\<lambda>c. prod_id (rc_item c)) rs) \<and>
     (\<forall>c\<in>set rs. \<exists>r\<in>set (db_products (ca_db s)). prod_id (rc_item c) = pr_id r \<and> pr_id r \<noteq> pid \<and>
        pr_queue_enabled r \<and> free_stock (rc_item c) = pr_stock r - pr_reserved r \<and> 0 < free_stock (rc_item c)) \<and>
     (rs = [] \<longleftrightarrow> \<not> list_ex (for_sale pid) (db_products (ca_db s)))"
proof -
  obtain s' rs where call: "shop_alternatives ext nm percent lock embedder s pid = (s', Some rs, None)" "catalogue_inv s'"
      "rs = [] \<longleftrightarrow> \<not> list_ex (for_sale pid) (db_products (ca_db s))"
    by (rule shop_alternatives_total [OF assms])
  have ok: "\<And>r. r \<in> set (db_products (ca_db s)) \<Longrightarrow> product_ok r"
    using inv db_invD(3) [of "ca_db s"] by (simp add: catalogue_inv_def)
  have "\<exists>r\<in>set (db_products (ca_db s)). prod_id (rc_item c) = pr_id r \<and> pr_id r \<noteq> pid \<and> pr_queue_enabled r \<and>
      free_stock (rc_item c) = pr_stock r - pr_reserved r \<and> 0 < free_stock (rc_item c)" if "c \<in> set rs" for c
    using shop_alternatives_facts [OF inv call(1)] that ok scan_product_Inr(1) scan_product_free
    by (metis for_sale_def)
  then show ?thesis using call shop_alternatives_facts [OF inv call(1)] by blast
qed

text \<open>Two products with one unit each, and an embedding provider that is down.\<close>

definition demo_catalogue :: catalogue where
  "demo_catalogue = \<lparr>ca_db = demo_db\<lparr>db_products := [demo_product, demo_product\<lparr>pr_id := 8\<rparr>]\<rparr>, ca_embeddings = []\<rparr>"

definition demo_numbers :: "(nat, int, int) sql_numbers" where
  "demo_numbers = \<lparr>sn_of_int = (\<lambda>i. 100 * i), sn_hundredths = id, sn_add = (+), sn_sub = (-),
     sn_mul = (\<lambda>x y. x * y div 100), sn_div = (\<lambda>x y. 100 * x div y), sn_float = id, sf_add = (+), sf_sub = (-),
     sf_mul = (\<lambda>x y. x * y div 100), sf_distance = (\<lambda>v w. 0), sw_finite = (\<lambda>w. True), sw_text = show_nat,
     sf_price = (\<lambda>c. show_nat (nat c))\<rparr>"

definition demo_provider :: "nat embedding_provider" where
  "demo_provider = \<lparr>ep_model = ''m'', ep_embed = (\<lambda>inputs. Inl (Wrapped []))\<rparr>"

lemma alternatives_available_witness:
  "\<exists>s' rs. shop_alternatives demo_externals demo_numbers 200 (Inr True) (Some demo_provider) demo_catalogue 7 = (s', Some rs, None) \<and>
     rs \<noteq> [] \<and> (\<forall>c\<in>set rs. prod_id (rc_item c) = 8 \<and> 0 < free_stock (rc_item c))"
proof -
  have "fresh_catalogue (ca_db demo_catalogue)"
    by (simp add: fresh_catalogue_def demo_catalogue_def demo_db_def demo_product_def product_ok_def max_int32_def max_int64_def)
  then have "catalogue_inv demo_catalogue"
    using fresh_catalogue_inv by (simp add: catalogue_inv_def store_inv_def demo_catalogue_def)
  from alternatives_available [OF this, of 7 200 demo_externals demo_numbers "Inr True" "Some demo_provider"]
  show ?thesis
    by (auto simp: demo_catalogue_def demo_db_def demo_product_def max_int32_def for_sale_def)
qed

end
