(* ===== verification/Mock.thy ===== *)
theory Mock
  imports Catalogue "HOL-Library.List_Lexorder" "HOL-Library.Char_ord"
begin

text \<open>
  The mock server (\<open>internal/mockapi/services.go\<close>): the services behind the HTTP handlers on an
  in-memory state, which frontends use instead of the database. A map of pointers to products and
  attempts is a function to the values; a change through a pointer replaces the value at its place
  in the slice. Every call holds the lock of the state, so a run is a sequence of calls. The clock
  and the fresh UUID are arguments; a score is built by \<open>score\<close> from its hundredths.
\<close>

section \<open>State\<close>

record mock_state =
  mk_products :: "product_id \<Rightarrow> product option"
  mk_order :: "product_id list"
  mk_attempts :: "product_id \<Rightarrow> queue_attempt list"
  mk_users :: "demo_user list"
  mk_invitation_ttl :: time
  mk_checkout_ttl :: time

definition product_scarce_id :: string where "product_scarce_id = ''11111111-1111-1111-1111-111111111111''"
definition product_popular_id :: string where "product_popular_id = ''22222222-2222-2222-2222-222222222222''"
definition product_sold_out_id :: string where "product_sold_out_id = ''33333333-3333-3333-3333-333333333333''"
definition product_disabled_id :: string where "product_disabled_id = ''44444444-4444-4444-4444-444444444444''"

definition demo_user_one_id :: user_id where "demo_user_one_id = ''00000000-0000-4000-8000-000000000001''"
definition demo_user_two_id :: user_id where "demo_user_two_id = ''00000000-0000-4000-8000-000000000002''"
definition demo_user_three_id :: user_id where "demo_user_three_id = ''00000000-0000-4000-8000-000000000003''"
definition demo_user_four_id :: user_id where "demo_user_four_id = ''00000000-0000-4000-8000-000000000004''"
definition demo_user_five_id :: user_id where "demo_user_five_id = ''00000000-0000-4000-8000-000000000005''"

text \<open>\<open>uuid.MustParse\<close> panics on a string that is no UUID.\<close>

definition must_parse :: "externals \<Rightarrow> string \<Rightarrow> go_error + uuid" where
  "must_parse ext raw = (case ext_uuid_parse ext raw of None \<Rightarrow> Inl Panic | Some u \<Rightarrow> Inr u)"

text \<open>Durations are nanoseconds here, as in Go.\<close>

definition mock_minute :: time where "mock_minute = 60000000000"

definition fixture_attempt ::
  "externals \<Rightarrow> time \<Rightarrow> time \<Rightarrow> time \<Rightarrow> product_id \<Rightarrow> string \<times> user_id \<times> int \<times> attempt_state \<Rightarrow> go_error + queue_attempt" where
  "fixture_attempt ext now invitation_ttl checkout_ttl pid = (\<lambda>(raw, user, sequence, state).
     bindE (must_parse ext raw) (\<lambda>aid.
     let created = now - invitation_ttl - checkout_ttl - 5 * mock_minute;
         attempt = \<lparr>qa_id = aid, qa_product = pid, qa_sequence = sequence, qa_user = user, qa_key = ''fixture-'' @ raw,
           qa_state = state, qa_created_at = created, qa_updated_at = created, qa_invited_at = None,
           qa_invitation_deadline = None, qa_checkout_started_at = None, qa_checkout_deadline = None,
           qa_terminal_at = None, qa_purchased_at = None, qa_accepted_provider = None, qa_accepted_reference = None,
           qa_terminal_reason = None, qa_terminal_message = None, qa_version = 1\<rparr> in
     Inr (case state of
       Invited \<Rightarrow> attempt\<lparr>qa_invited_at := Some now, qa_invitation_deadline := Some (now + invitation_ttl), qa_updated_at := now\<rparr>
     | Checkout \<Rightarrow> attempt\<lparr>qa_invited_at := Some now, qa_invitation_deadline := Some (now + invitation_ttl),
         qa_checkout_started_at := Some now, qa_checkout_deadline := Some (now + checkout_ttl), qa_updated_at := now\<rparr>
     | Purchased \<Rightarrow> let terminal = now - mock_minute in
         attempt\<lparr>qa_terminal_at := Some terminal, qa_purchased_at := Some terminal, qa_updated_at := terminal\<rparr>
     | Cancelled \<Rightarrow> let terminal = now - mock_minute in
         attempt\<lparr>qa_terminal_at := Some terminal, qa_updated_at := terminal\<rparr>
     | InviteExpired \<Rightarrow> let invited = now - invitation_ttl - mock_minute; deadline = invited + invitation_ttl in
         attempt\<lparr>qa_invited_at := Some invited, qa_invitation_deadline := Some deadline,
           qa_terminal_at := Some deadline, qa_updated_at := deadline\<rparr>
     | CheckoutExpired \<Rightarrow> let started = now - checkout_ttl - mock_minute in
         attempt\<lparr>qa_invited_at := Some (started - mock_minute), qa_invitation_deadline := Some (started + mock_minute),
           qa_checkout_started_at := Some started, qa_checkout_deadline := Some (started + checkout_ttl),
           qa_terminal_at := Some (started + checkout_ttl), qa_updated_at := started + checkout_ttl\<rparr>
     | _ \<Rightarrow> attempt)))"

definition mock_product ::
  "product_id \<Rightarrow> bytes \<Rightarrow> bytes \<Rightarrow> string \<Rightarrow> string \<Rightarrow> int \<Rightarrow> bool \<Rightarrow> int \<Rightarrow> int \<Rightarrow> int \<Rightarrow> int \<Rightarrow> product" where
  "mock_product pid title description image_url category price enabled stock reserved sequence capacity =
     \<lparr>prod_id = pid, prod_title = title, prod_description = description, prod_image_url = image_url,
      prod_category = category, prod_price_cents = price, prod_queue_enabled = enabled,
      prod_allocatable_stock = stock, prod_reserved = reserved, prod_next_queue_sequence = sequence,
      prod_waiting_count = 0, prod_waiting_capacity = capacity\<rparr>"

text \<open>The titles and descriptions are Cyrillic, in UTF-8.\<close>

definition mock_catalogue :: "product_id list \<Rightarrow> product list" where
  "mock_catalogue pids = [
      mock_product (pids ! 0) (unhex ''d094d0b5d184d0b8d186d0b8d182d0bdd18bd0b920d182d0bed0b2d0b0d18020286d6f636b29'')
        (unhex ''d09ed0b4d0b8d0bd20636865636b6f757420d0b820d0b4d0b2d0b020d0bfd0bed0bbd18cd0b7d0bed0b2d0b0d182d0b5d0bbd18f20d0b220d0bed187d0b5d180d0b5d0b4d0b8'')
        ''/product-images/rare-collectible.webp'' ''collectibles'' 1499000 True 1 1 4 10,
      mock_product (pids ! 1) (unhex ''d0a1d186d0b5d0bdd0b0d180d0b8d0b820d181d182d0b0d182d183d181d0bed0b220286d6f636b29'')
        (unhex ''d093d0bed182d0bed0b2d18bd0b520696e766974656420d0b8207465726d696e616c20d181d0bed181d182d0bed18fd0bdd0b8d18f'')
        ''/product-images/collectible-set.webp'' ''collectibles'' 1299000 True 3 1 6 10,
      mock_product (pids ! 2) (unhex ''d0a0d0b0d181d0bad183d0bfd0bbd0b5d0bdd0bdd18bd0b920d182d0bed0b2d0b0d18020286d6f636b29'')
        (unhex ''4a6f696e20d0b2d0bed0b7d0b2d180d0b0d189d0b0d0b5d18220736f6c645f6f7574'')
        ''/product-images/sold-out-collectible.webp'' ''collectibles'' 1599000 True 0 0 1 0,
      mock_product (pids ! 3) (unhex ''d09ed187d0b5d180d0b5d0b4d18c20d0b2d18bd0bad0bbd18ed187d0b5d0bdd0b020286d6f636b29'')
        (unhex ''4a6f696e20d0b2d0bed0b7d0b2d180d0b0d189d0b0d0b5d1822071756575655f64697361626c6564'')
        ''/product-images/astronaut-figure.webp'' ''other'' 990000 False 10 0 1 10]"

definition mock_users :: "demo_user list" where
  "mock_users = [
      \<lparr>du_user = demo_user_one_id, du_name = unhex ''d09fd0bed0bbd18cd0b7d0bed0b2d0b0d182d0b5d0bbd18c2031''\<rparr>,
      \<lparr>du_user = demo_user_two_id, du_name = unhex ''d09fd0bed0bbd18cd0b7d0bed0b2d0b0d182d0b5d0bbd18c2032''\<rparr>,
      \<lparr>du_user = demo_user_three_id, du_name = unhex ''d09fd0bed0bbd18cd0b7d0bed0b2d0b0d182d0b5d0bbd18c2033''\<rparr>,
      \<lparr>du_user = demo_user_four_id, du_name = unhex ''d09fd0bed0bbd18cd0b7d0bed0b2d0b0d182d0b5d0bbd18c2034''\<rparr>,
      \<lparr>du_user = demo_user_five_id, du_name = unhex ''d09fd0bed0bbd18cd0b7d0bed0b2d0b0d182d0b5d0bbd18c2035''\<rparr>]"

text \<open>The attempts of the fixtures, for the first and the second product.\<close>

definition scarce_fixtures :: "(string \<times> user_id \<times> int \<times> attempt_state) list" where
  "scarce_fixtures = [
      (''a1111111-1111-4111-8111-111111111111'', demo_user_one_id, 1, Checkout),
      (''a1111111-1111-4111-8111-111111111112'', demo_user_two_id, 2, Waiting),
      (''a1111111-1111-4111-8111-111111111113'', demo_user_three_id, 3, Waiting)]"

definition popular_fixtures :: "(string \<times> user_id \<times> int \<times> attempt_state) list" where
  "popular_fixtures = [
      (''a2222222-2222-4222-8222-222222222221'', demo_user_one_id, 1, Invited),
      (''a2222222-2222-4222-8222-222222222222'', demo_user_two_id, 2, Purchased),
      (''a2222222-2222-4222-8222-222222222223'', demo_user_three_id, 3, Cancelled),
      (''a2222222-2222-4222-8222-222222222224'', demo_user_four_id, 4, InviteExpired),
      (''a2222222-2222-4222-8222-222222222225'', demo_user_five_id, 5, CheckoutExpired)]"

definition new_state :: "externals \<Rightarrow> time \<Rightarrow> time \<Rightarrow> time \<Rightarrow> go_error + mock_state" where
  "new_state ext now invitation_ttl checkout_ttl =
     bindE (traverse (must_parse ext) [product_scarce_id, product_popular_id, product_sold_out_id, product_disabled_id]) (\<lambda>pids.
     bindE (traverse (fixture_attempt ext now invitation_ttl checkout_ttl (pids ! 0)) scarce_fixtures) (\<lambda>scarce.
     bindE (traverse (fixture_attempt ext now invitation_ttl checkout_ttl (pids ! 1)) popular_fixtures) (\<lambda>popular.
     Inr \<lparr>mk_products = map_of (rev (map (\<lambda>p. (prod_id p, p)) (mock_catalogue pids))), mk_order = pids,
          mk_attempts = (\<lambda>pid. [])(pids ! 0 := scarce, pids ! 1 := popular), mk_users = mock_users,
          mk_invitation_ttl = invitation_ttl, mk_checkout_ttl = checkout_ttl\<rparr>)))"

section \<open>Lookups and results\<close>

text \<open>Change the first element that satisfies \<open>P\<close>, or the last one.\<close>

fun update_first :: "('a \<Rightarrow> bool) \<Rightarrow> ('a \<Rightarrow> 'a) \<Rightarrow> 'a list \<Rightarrow> 'a list" where
  "update_first P f [] = []"
| "update_first P f (x # xs) = (if P x then f x # xs else x # update_first P f xs)"

definition update_last :: "('a \<Rightarrow> bool) \<Rightarrow> ('a \<Rightarrow> 'a) \<Rightarrow> 'a list \<Rightarrow> 'a list" where
  "update_last P f xs = rev (update_first P f (rev xs))"

definition waiting_count_locked :: "mock_state \<Rightarrow> product_id \<Rightarrow> int" where
  "waiting_count_locked s pid = count_waiting (mk_attempts s pid)"

definition active_attempt_locked :: "mock_state \<Rightarrow> product_id \<Rightarrow> user_id \<Rightarrow> queue_attempt option" where
  "active_attempt_locked s pid user =
     find (\<lambda>a. qa_user a = user \<and> is_active_state (qa_state a)) (rev (mk_attempts s pid))"

definition latest_attempt_locked :: "mock_state \<Rightarrow> product_id \<Rightarrow> user_id \<Rightarrow> queue_attempt option" where
  "latest_attempt_locked s pid user = find (\<lambda>a. qa_user a = user) (rev (mk_attempts s pid))"

definition current_result_locked :: "mock_state \<Rightarrow> queue_attempt \<Rightarrow> current_queue_result" where
  "current_result_locked s a =
     \<lparr>cr_attempt = a,
      cr_position_ahead = (if qa_state a = Waiting then count_waiting_ahead (mk_attempts s (qa_product a)) (qa_sequence a) else 0),
      cr_total_waiting = waiting_count_locked s (qa_product a)\<rparr>"

definition join_result_locked :: "mock_state \<Rightarrow> queue_attempt \<Rightarrow> bool \<Rightarrow> join_queue_result" where
  "join_result_locked s a created =
     (let current = current_result_locked s a in
      \<lparr>jr_attempt = Some (cr_attempt current), jr_position_ahead = cr_position_ahead current,
       jr_total_waiting = cr_total_waiting current, jr_created = created\<rparr>)"

definition product_locked :: "mock_state \<Rightarrow> product_id \<Rightarrow> product go_return" where
  "product_locked s pid = (case mk_products s pid of
     None \<Rightarrow> (None, Some (Sentinel ErrNotFound))
   | Some stored \<Rightarrow> (Some (stored\<lparr>prod_waiting_count := waiting_count_locked s pid\<rparr>), None))"

definition products_locked :: "mock_state \<Rightarrow> product list" where
  "products_locked s = map (\<lambda>pid. case product_locked s pid of (None, err) \<Rightarrow> zero_product | (Some p, err) \<Rightarrow> p) (mk_order s)"

section \<open>Products and users\<close>

definition mock_list :: "mock_state \<Rightarrow> mock_state \<times> product list go_return" where
  "mock_list s = (s, Some (products_locked s), None)"

definition mock_get :: "mock_state \<Rightarrow> product_id \<Rightarrow> mock_state \<times> product go_return" where
  "mock_get s pid = (s, product_locked s pid)"

definition mock_alternatives ::
  "externals \<Rightarrow> (int \<Rightarrow> 'f) \<Rightarrow> mock_state \<Rightarrow> product_id \<Rightarrow> mock_state \<times> 'f product_recommendation list go_return" where
  "mock_alternatives ext score s pid = (case mk_products s pid of
     None \<Rightarrow> (s, None, Some (Sentinel ErrNotFound))
   | Some source \<Rightarrow>
       (let candidates = filter (\<lambda>p. prod_id p \<noteq> pid \<and> prod_queue_enabled p \<and> free_stock p > 0) (products_locked s);
            ranked = take 4 (sort_key (\<lambda>p. (- free_stock p, ext_uuid_string ext (prod_id p))) candidates) in
        (s, Some (map (\<lambda>p.
            if prod_category p = prod_category source
            then \<lparr>rc_item = p, rc_score = score 90, rc_mode = ModeFallback, rc_reason = ReasonSameCategory\<rparr>
            else \<lparr>rc_item = p, rc_score = score 50, rc_mode = ModeFallback, rc_reason = ReasonAvailable\<rparr>) ranked), None)))"

definition mock_list_users :: "mock_state \<Rightarrow> mock_state \<times> demo_user list go_return" where
  "mock_list_users s = (s, Some (mk_users s), None)"

section \<open>The queue\<close>

definition mock_join ::
  "time \<times> uuid \<Rightarrow> mock_state \<Rightarrow> product_id \<Rightarrow> user_id \<Rightarrow> idempotency_key \<Rightarrow> mock_state \<times> join_queue_result go_return" where
  "mock_join = (\<lambda>(now, fresh) s pid user key. case mk_products s pid of
     None \<Rightarrow> (s, None, Some (Sentinel ErrNotFound))
   | Some p \<Rightarrow>
     (case find (\<lambda>a. qa_user a = user \<and> qa_key a = key) (mk_attempts s pid) of
        Some a \<Rightarrow> (s, Some (join_result_locked s a False), None)
      | None \<Rightarrow>
     (case active_attempt_locked s pid user of
        Some a \<Rightarrow> (s, Some (join_result_locked s a False), None)
      | None \<Rightarrow>
        if \<not> prod_queue_enabled p then (s, None, Some (Sentinel ErrQueueDisabled))
        else if prod_allocatable_stock p = 0 then (s, None, Some (Sentinel ErrOutOfStock))
        else if free_stock p = 0 \<and> waiting_count_locked s pid \<ge> prod_waiting_capacity p
        then (s, None, Some (Sentinel ErrQueueFull))
        else let immediate = free_stock p > 0;
                 attempt = \<lparr>qa_id = fresh, qa_product = pid, qa_sequence = prod_next_queue_sequence p, qa_user = user,
                   qa_key = key, qa_state = (if immediate then Checkout else Waiting), qa_created_at = now, qa_updated_at = now,
                   qa_invited_at = (if immediate then Some now else None),
                   qa_invitation_deadline = (if immediate then Some (now + mk_invitation_ttl s) else None),
                   qa_checkout_started_at = (if immediate then Some now else None),
                   qa_checkout_deadline = (if immediate then Some (now + mk_checkout_ttl s) else None),
                   qa_terminal_at = None, qa_purchased_at = None, qa_accepted_provider = None, qa_accepted_reference = None,
                   qa_terminal_reason = None, qa_terminal_message = None, qa_version = 1\<rparr>;
                 p' = p\<lparr>prod_next_queue_sequence := i64 (prod_next_queue_sequence p + 1),
                   prod_reserved := (if immediate then i32 (prod_reserved p + 1) else prod_reserved p)\<rparr>;
                 s' = s\<lparr>mk_products := (mk_products s)(pid \<mapsto> p'),
                   mk_attempts := (mk_attempts s)(pid := mk_attempts s pid @ [attempt])\<rparr> in
             (s', Some (join_result_locked s' attempt True), None))))"

definition mock_current ::
  "mock_state \<Rightarrow> product_id \<Rightarrow> user_id \<Rightarrow> mock_state \<times> current_queue_result go_return" where
  "mock_current s pid user = (case mk_products s pid of
     None \<Rightarrow> (s, None, Some (Sentinel ErrNotFound))
   | Some p \<Rightarrow> (case (case active_attempt_locked s pid user of
                      None \<Rightarrow> latest_attempt_locked s pid user | Some a \<Rightarrow> Some a) of
       None \<Rightarrow> (s, None, Some (Sentinel ErrAttemptNotFound))
     | Some a \<Rightarrow> (s, Some (current_result_locked s a), None)))"

definition mock_active :: "mock_state \<Rightarrow> user_id \<Rightarrow> mock_state \<times> current_queue_result list go_return" where
  "mock_active s user = (s, Some (concat (map (\<lambda>pid. case active_attempt_locked s pid user of
     None \<Rightarrow> [] | Some a \<Rightarrow> [current_result_locked s a]) (mk_order s))), None)"

definition mock_leave :: "time \<Rightarrow> mock_state \<Rightarrow> product_id \<Rightarrow> user_id \<Rightarrow> mock_state \<times> go_error option" where
  "mock_leave now s pid user = (case mk_products s pid of
     None \<Rightarrow> (s, Some (Sentinel ErrNotFound))
   | Some p \<Rightarrow> (case latest_attempt_locked s pid user of
       None \<Rightarrow> (s, Some (Sentinel ErrAttemptNotFound))
     | Some a \<Rightarrow>
         if qa_state a = Purchased then (s, Some (Sentinel ErrAlreadyPurchased))
         else if \<not> is_active_state (qa_state a) then (s, None)
         else (s\<lparr>mk_products := (mk_products s)(pid \<mapsto>
                   (if reserves_stock (qa_state a) then p\<lparr>prod_reserved := i32 (prod_reserved p - 1)\<rparr> else p)),
                 mk_attempts := (mk_attempts s)(pid := update_last (\<lambda>b. qa_user b = user)
                   (\<lambda>b. b\<lparr>qa_state := Cancelled, qa_terminal_at := Some now, qa_updated_at := now,
                            qa_version := i64 (qa_version b + 1)\<rparr>) (mk_attempts s pid))\<rparr>, None)))"

section \<open>Checkout and payment\<close>

text \<open>The first attempt with the identifier, product after product.\<close>

definition mock_find_attempt :: "mock_state \<Rightarrow> attempt_id \<Rightarrow> (product_id \<times> queue_attempt) option" where
  "mock_find_attempt s aid =
     find (\<lambda>(pid, a). qa_id a = aid) (concat (map (\<lambda>pid. map (Pair pid) (mk_attempts s pid)) (mk_order s)))"

definition mock_start :: "time \<Rightarrow> mock_state \<Rightarrow> attempt_id \<Rightarrow> user_id \<Rightarrow> mock_state \<times> queue_attempt go_return" where
  "mock_start now s aid user = (case mock_find_attempt s aid of
     None \<Rightarrow> (s, None, Some (Sentinel ErrAttemptNotFound))
   | Some (pid, a) \<Rightarrow>
       if qa_user a \<noteq> user then (s, None, Some (Sentinel ErrAttemptNotFound))
       else (case qa_state a of
         Checkout \<Rightarrow> (s, Some a, None)
       | Invited \<Rightarrow>
           let start = (\<lambda>b. b\<lparr>qa_state := Checkout, qa_checkout_started_at := Some now,
                 qa_checkout_deadline := Some (now + mk_checkout_ttl s), qa_updated_at := now,
                 qa_version := i64 (qa_version b + 1)\<rparr>) in
           (s\<lparr>mk_attempts := (mk_attempts s)(pid := update_first (\<lambda>b. qa_id b = aid) start (mk_attempts s pid))\<rparr>,
            Some (start a), None)
       | InviteExpired \<Rightarrow> (s, None, Some (Sentinel ErrAttemptGone))
       | CheckoutExpired \<Rightarrow> (s, None, Some (Sentinel ErrAttemptGone))
       | SoldOut \<Rightarrow> (s, None, Some (Sentinel ErrAttemptGone))
       | _ \<Rightarrow> (s, None, Some (Sentinel ErrInvalidTransition))))"

definition mock_purchase :: "time \<Rightarrow> queue_attempt \<Rightarrow> queue_attempt" where
  "mock_purchase now b = b\<lparr>qa_state := Purchased, qa_terminal_at := Some now, qa_purchased_at := Some now,
     qa_terminal_reason := Some ''purchased'', qa_terminal_message := Some ''purchased'',
     qa_accepted_provider := Some ''goodqueue-demo'', qa_accepted_reference := Some ''mock-demo-payment'',
     qa_updated_at := now, qa_version := i64 (qa_version b + 1)\<rparr>"

definition mock_complete_demo ::
  "time \<Rightarrow> mock_state \<Rightarrow> product_id \<Rightarrow> attempt_id \<Rightarrow> user_id \<Rightarrow> idempotency_key \<Rightarrow> mock_state \<times> demo_payment_result go_return" where
  "mock_complete_demo now s pid aid user key = (case mk_products s pid of
     None \<Rightarrow> (s, None, Some (Sentinel ErrNotFound))
   | Some p \<Rightarrow> (case find (\<lambda>a. qa_id a = aid) (mk_attempts s pid) of
       None \<Rightarrow> (s, None, Some (Sentinel ErrAttemptNotFound))
     | Some a \<Rightarrow>
         if qa_user a \<noteq> user then (s, None, Some (Sentinel ErrAttemptNotFound))
         else if qa_state a = Purchased then (s, Some \<lparr>dp_attempt = a, dp_processing = False\<rparr>, None)
         else if qa_state a \<noteq> Checkout then (s, None, Some (Sentinel ErrInvalidTransition))
         else if prod_allocatable_stock p \<le> 0 \<or> prod_reserved p \<le> 0 then (s, None, Some (Sentinel ErrInvalidTransition))
         else (s\<lparr>mk_products := (mk_products s)(pid \<mapsto> p\<lparr>prod_allocatable_stock := i32 (prod_allocatable_stock p - 1),
                   prod_reserved := i32 (prod_reserved p - 1)\<rparr>),
                 mk_attempts := (mk_attempts s)(pid := update_first (\<lambda>b. qa_id b = aid) (mock_purchase now) (mk_attempts s pid))\<rparr>,
               Some \<lparr>dp_attempt = mock_purchase now a, dp_processing = False\<rparr>, None)))"

end
