(* ===== verification/Mock_Properties.thy ===== *)
theory Mock_Properties
  imports Mock Example
begin

text \<open>
  The mock server keeps the promises of the real one that a frontend sees: its books balance in
  every state, posts are idempotent (\<open>join_service\<close>), and its pages agree (\<open>product_service\<close>).
\<close>

section \<open>The invariant\<close>

definition purchased :: "queue_attempt list \<Rightarrow> int" where
  "purchased xs = int (length (filter (\<lambda>a. qa_state a = Purchased) xs))"

lemma purchased_simps [simp]:
  "purchased [] = 0"
  "purchased (a # xs) = (if qa_state a = Purchased then 1 else 0) + purchased xs"
  "purchased (xs @ ys) = purchased xs + purchased ys"
  by (simp_all add: purchased_def)

lemma count_waiting_simps [simp]:
  "count_waiting [] = 0"
  "count_waiting (a # xs) = (if qa_state a = Waiting then 1 else 0) + count_waiting xs"
  "count_waiting (xs @ ys) = count_waiting xs + count_waiting ys"
  by (simp_all add: count_waiting_def)

text \<open>The product \<open>p\<close> and the attempts \<open>xs\<close> kept under the identifier \<open>pid\<close>.\<close>

definition mock_ok :: "product_id \<Rightarrow> product \<Rightarrow> queue_attempt list \<Rightarrow> bool" where
  "mock_ok pid p xs \<longleftrightarrow> prod_id p = pid \<and> 0 \<le> prod_allocatable_stock p \<and> prod_allocatable_stock p \<le> max_int32 \<and>
     prod_reserved p = reserving xs \<and> prod_reserved p \<le> prod_allocatable_stock p \<and>
     count_waiting xs \<le> prod_waiting_capacity p \<and>
     prod_next_queue_sequence p = i64 (int (length xs) + 1) \<and>
     map qa_sequence xs = map (\<lambda>k. i64 (int k + 1)) [0..<length xs] \<and>
     list_all (\<lambda>a. qa_product a = pid) xs \<and>
     distinct (map qa_user (filter (\<lambda>a. is_active_state (qa_state a)) xs)) \<and>
     distinct (map (\<lambda>a. (qa_user a, qa_key a)) xs)"

definition mock_inv :: "mock_state \<Rightarrow> bool" where
  "mock_inv s \<longleftrightarrow> distinct (mk_order s) \<and> dom (mk_products s) = set (mk_order s) \<and>
     (\<forall>pid p. mk_products s pid = Some p \<longrightarrow> mock_ok pid p (mk_attempts s pid))"

text \<open>What a call may change: rows are added at the end, keep their identity, and are final once left.\<close>

definition row_kept :: "queue_attempt \<Rightarrow> queue_attempt \<Rightarrow> bool" where
  "row_kept a b \<longleftrightarrow> attempt_ident b = attempt_ident a \<and> (\<not> is_active_state (qa_state a) \<longrightarrow> b = a)"

definition mock_evolves :: "mock_state \<Rightarrow> mock_state \<Rightarrow> bool" where
  "mock_evolves s s' \<longleftrightarrow> mk_order s' = mk_order s \<and>
     (\<forall>pid p. mk_products s pid = Some p \<longrightarrow> (\<exists>p'. mk_products s' pid = Some p' \<and>
        prod_queue_enabled p' = prod_queue_enabled p \<and> prod_waiting_capacity p' = prod_waiting_capacity p \<and>
        prod_allocatable_stock p' + purchased (mk_attempts s' pid) = prod_allocatable_stock p + purchased (mk_attempts s pid) \<and>
        forward row_kept (mk_attempts s pid) (mk_attempts s' pid)))"

lemma row_kept_refl [simp]: "row_kept a a" by (simp add: row_kept_def)

lemma row_kept_trans: "row_kept a b \<Longrightarrow> row_kept b c \<Longrightarrow> row_kept a c"
  unfolding row_kept_def by (cases "is_active_state (qa_state a)") auto

definition mock_sound :: "mock_state \<Rightarrow> mock_state \<Rightarrow> bool" where
  "mock_sound s s' \<longleftrightarrow> mock_inv s' \<and> mock_evolves s s'"

lemma mock_evolves_refl: "mock_evolves s s"
  by (simp add: mock_evolves_def forward_refl)

lemma mock_evolves_trans:
  assumes "mock_evolves s t" and "mock_evolves t u"
  shows "mock_evolves s u"
  unfolding mock_evolves_def
proof (intro conjI allI impI)
  show "mk_order u = mk_order s" using assms by (simp add: mock_evolves_def)
  fix pid p
  assume "mk_products s pid = Some p"
  then obtain q where q: "mk_products t pid = Some q" "prod_queue_enabled q = prod_queue_enabled p"
      "prod_waiting_capacity q = prod_waiting_capacity p"
      "prod_allocatable_stock q + purchased (mk_attempts t pid) = prod_allocatable_stock p + purchased (mk_attempts s pid)"
      "forward row_kept (mk_attempts s pid) (mk_attempts t pid)"
    using assms(1) by (auto simp: mock_evolves_def)
  then obtain r where r: "mk_products u pid = Some r" "prod_queue_enabled r = prod_queue_enabled q"
      "prod_waiting_capacity r = prod_waiting_capacity q"
      "prod_allocatable_stock r + purchased (mk_attempts u pid) = prod_allocatable_stock q + purchased (mk_attempts t pid)"
      "forward row_kept (mk_attempts t pid) (mk_attempts u pid)"
    using assms(2) unfolding mock_evolves_def by metis
  have "forward row_kept (mk_attempts s pid) (mk_attempts u pid)"
    by (rule forward_trans [OF row_kept_trans q(5) r(5)])
  then show "\<exists>p'. mk_products u pid = Some p' \<and> prod_queue_enabled p' = prod_queue_enabled p \<and>
      prod_waiting_capacity p' = prod_waiting_capacity p \<and>
      prod_allocatable_stock p' + purchased (mk_attempts u pid) = prod_allocatable_stock p + purchased (mk_attempts s pid) \<and>
      forward row_kept (mk_attempts s pid) (mk_attempts u pid)"
    using q r by simp
qed

section \<open>One product changes\<close>

lemma mock_change:
  assumes inv: "mock_inv s" and p: "mk_products s pid = Some p"
    and ok: "mock_ok pid p' xs'"
    and same: "prod_queue_enabled p' = prod_queue_enabled p" "prod_waiting_capacity p' = prod_waiting_capacity p"
    and ledger: "prod_allocatable_stock p' + purchased xs' = prod_allocatable_stock p + purchased (mk_attempts s pid)"
    and rows: "forward row_kept (mk_attempts s pid) xs'"
  shows "mock_sound s (s\<lparr>mk_products := (mk_products s)(pid \<mapsto> p'), mk_attempts := (mk_attempts s)(pid := xs')\<rparr>)"
proof -
  have "pid \<in> set (mk_order s)" using inv p by (auto simp: mock_inv_def)
  then show ?thesis
    using assms by (auto simp: mock_sound_def mock_inv_def mock_evolves_def forward_refl)
qed

text \<open>One attempt is replaced by its next version.\<close>

lemma reserving_waiting_replaced:
  assumes "attempt_ident b = attempt_ident a" and "is_active_state (qa_state a)"
    and "qa_state b = Waiting \<longrightarrow> qa_state a = Waiting"
    and ok: "mock_ok pid p (ys @ a # zs)"
    and p': "p' = p\<lparr>prod_allocatable_stock := prod_allocatable_stock p - (if qa_state b = Purchased then 1 else 0),
        prod_reserved := prod_reserved p - (if reserves_stock (qa_state a) then 1 else 0) + (if reserves_stock (qa_state b) then 1 else 0)\<rparr>"
    and stock: "0 \<le> prod_allocatable_stock p'" "prod_reserved p' \<le> prod_allocatable_stock p'"
  shows "mock_ok pid p' (ys @ b # zs)"
proof -
  have "qa_user b = qa_user a" "qa_key b = qa_key a" "qa_sequence b = qa_sequence a" "qa_product b = qa_product a"
    using assms(1) by (auto simp: attempt_ident_def)
  then show ?thesis using assms(2,3) ok stock unfolding p' mock_ok_def
    by (auto simp: split: if_splits)
qed

lemma mock_replace:
  assumes inv: "mock_inv s" and p: "mk_products s pid = Some p" and xs: "mk_attempts s pid = ys @ a # zs"
    and ident: "attempt_ident b = attempt_ident a" and active: "is_active_state (qa_state a)"
    and waiting: "qa_state b = Waiting \<longrightarrow> qa_state a = Waiting"
    and p': "p' = p\<lparr>prod_allocatable_stock := prod_allocatable_stock p - (if qa_state b = Purchased then 1 else 0),
        prod_reserved := prod_reserved p - (if reserves_stock (qa_state a) then 1 else 0) + (if reserves_stock (qa_state b) then 1 else 0)\<rparr>"
    and stock: "0 \<le> prod_allocatable_stock p'" "prod_reserved p' \<le> prod_allocatable_stock p'"
  shows "mock_sound s (s\<lparr>mk_products := (mk_products s)(pid \<mapsto> p'), mk_attempts := (mk_attempts s)(pid := ys @ b # zs)\<rparr>)"
proof (rule mock_change [OF inv p])
  have "mock_ok pid p (ys @ a # zs)" using inv p xs by (metis mock_inv_def)
  from reserving_waiting_replaced [OF ident active waiting this p' stock] show "mock_ok pid p' (ys @ b # zs)" .
  have "qa_state a \<noteq> Purchased" using active by (auto simp: is_active_state_def)
  then show "prod_allocatable_stock p' + purchased (ys @ b # zs) = prod_allocatable_stock p + purchased (mk_attempts s pid)"
    using xs p' by simp
  show "forward row_kept (mk_attempts s pid) (ys @ b # zs)"
    unfolding xs using ident active by (intro forward_replace) (simp_all add: row_kept_def)
qed (simp_all add: p')

text \<open>The change behind a pointer that a loop over the attempts found.\<close>

lemma update_first_split:
  assumes "find P xs = Some a"
  obtains ys zs where "xs = ys @ a # zs" and "\<And>f. update_first P f xs = ys @ f a # zs"
  using assms
proof (induction xs arbitrary: thesis)
  case (Cons x xs)
  show ?case
  proof (cases "P x")
    case True
    then show ?thesis using Cons.prems(1) [of "[]"] Cons.prems(2) by simp
  next
    case False
    then have "find P xs = Some a" using Cons.prems(2) by simp
    then obtain ys zs where "xs = ys @ a # zs" "\<And>f. update_first P f xs = ys @ f a # zs" using Cons.IH by blast
    then show ?thesis using Cons.prems(1) [of "x # ys" zs] False by simp
  qed
qed simp

lemma update_last_split:
  assumes "find P (rev xs) = Some a"
  obtains ys zs where "xs = ys @ a # zs" and "\<And>f. update_last P f xs = ys @ f a # zs"
proof -
  obtain ys zs where s: "rev xs = ys @ a # zs" "\<And>f. update_first P f (rev xs) = ys @ f a # zs"
    using update_first_split [OF assms] by blast
  have "xs = rev zs @ a # rev ys" using s(1) by (metis append_Cons append_assoc append_self_conv2 rev.simps(2) rev_append rev_rev_ident)
  moreover have "update_last P f xs = rev zs @ f a # rev ys" for f using s(2) by (simp add: update_last_def)
  ultimately show thesis by (rule that)
qed

section \<open>The operations keep the invariant\<close>

lemma mock_inv_ok: "mock_inv s \<Longrightarrow> mk_products s pid = Some p \<Longrightarrow> mock_ok pid p (mk_attempts s pid)"
  by (simp add: mock_inv_def)

lemma mock_sound_refl: "mock_inv s \<Longrightarrow> mock_sound s s"
  by (simp add: mock_sound_def mock_evolves_refl)

lemma count_waiting_nonneg [simp]: "0 \<le> count_waiting xs"
  by (simp add: count_waiting_def)

lemma mock_ok_i32:
  assumes "mock_ok pid p xs" and "0 \<le> prod_reserved p + k" and "prod_reserved p + k \<le> max_int32"
  shows "i32 (prod_reserved p + k) = prod_reserved p + k"
  using assms by (intro i32_id) (auto simp: min_int32_def)

lemma mock_free_stock:
  assumes "mock_ok pid p xs"
  shows "free_stock p = prod_allocatable_stock p - prod_reserved p"
proof -
  have "0 \<le> prod_reserved p" "prod_reserved p \<le> prod_allocatable_stock p" "prod_allocatable_stock p \<le> max_int32"
    using assms by (auto simp: mock_ok_def)
  then show ?thesis by (auto simp: free_stock_def min_int32_def intro!: i32_id)
qed

lemma mock_ok_append:
  assumes ok: "mock_ok pid p xs" and new: "qa_product a = pid" "qa_sequence a = prod_next_queue_sequence p"
    and user: "\<forall>b\<in>set xs. qa_user b = qa_user a \<longrightarrow> qa_key b \<noteq> qa_key a \<and> \<not> is_active_state (qa_state b)"
    and state: "qa_state a = (if free_stock p > 0 then Checkout else Waiting)"
    and room: "free_stock p = 0 \<longrightarrow> count_waiting xs < prod_waiting_capacity p"
  shows "mock_ok pid (p\<lparr>prod_next_queue_sequence := i64 (prod_next_queue_sequence p + 1),
      prod_reserved := (if free_stock p > 0 then i32 (prod_reserved p + 1) else prod_reserved p)\<rparr>) (xs @ [a])"
proof -
  have seq: "i64 (i64 n + 1) = i64 (n + 1)" for n unfolding i64_def by (simp add: mod_simps algebra_simps)
  have "i64 (prod_next_queue_sequence p + 1) = i64 (int (length xs) + 1 + 1)"
    using ok seq [of "int (length xs) + 1"] by (simp add: mock_ok_def)
  moreover have "i32 (prod_reserved p + 1) = prod_reserved p + 1" if "free_stock p > 0"
    using ok that mock_free_stock [OF ok] by (intro mock_ok_i32) (auto simp: mock_ok_def)
  ultimately show ?thesis
    using ok new user state room mock_free_stock [OF ok]
    by (auto simp: mock_ok_def reserves_stock_def is_active_state_def add.commute)
qed

lemma mock_join_created:
  assumes "mock_inv s" and "mk_products s pid = Some p"
    and "find (\<lambda>a. qa_user a = user \<and> qa_key a = key) (mk_attempts s pid) = None"
    and "active_attempt_locked s pid user = None"
    and "\<not> (free_stock p = 0 \<and> waiting_count_locked s pid \<ge> prod_waiting_capacity p)"
    and "qa_product a = pid" and "qa_sequence a = prod_next_queue_sequence p" and "qa_user a = user" and "qa_key a = key"
    and "qa_state a = (if free_stock p > 0 then Checkout else Waiting)"
  shows "mock_sound s (s\<lparr>mk_products := (mk_products s)(pid \<mapsto> p\<lparr>prod_next_queue_sequence := i64 (prod_next_queue_sequence p + 1),
      prod_reserved := (if free_stock p > 0 then i32 (prod_reserved p + 1) else prod_reserved p)\<rparr>),
      mk_attempts := (mk_attempts s)(pid := mk_attempts s pid @ [a])\<rparr>)"
proof (rule mock_change [OF assms(1,2)])
  have "\<forall>b\<in>set (mk_attempts s pid). qa_user b = qa_user a \<longrightarrow> qa_key b \<noteq> qa_key a \<and> \<not> is_active_state (qa_state b)"
    using assms(3,4,8,9) by (auto simp: find_None_iff active_attempt_locked_def)
  then show "mock_ok pid (p\<lparr>prod_next_queue_sequence := i64 (prod_next_queue_sequence p + 1),
      prod_reserved := (if free_stock p > 0 then i32 (prod_reserved p + 1) else prod_reserved p)\<rparr>) (mk_attempts s pid @ [a])"
    using assms(5,6,7,10) by (intro mock_ok_append [OF mock_inv_ok [OF assms(1,2)]]) (auto simp: waiting_count_locked_def)
  show "forward row_kept (mk_attempts s pid) (mk_attempts s pid @ [a])" by (rule forward_append) simp
qed (use assms(10) in simp_all)

lemma mock_join_sound:
  assumes "mock_inv s"
  shows "mock_sound s (fst (mock_join i s pid user key))"
proof -
  obtain now fresh where i: "i = (now, fresh)" by (cases i)
  show ?thesis
  proof (cases "fst (mock_join i s pid user key) = s")
    case False
    then obtain p where p: "mk_products s pid = Some p"
        "find (\<lambda>a. qa_user a = user \<and> qa_key a = key) (mk_attempts s pid) = None"
        "active_attempt_locked s pid user = None" "prod_queue_enabled p" "prod_allocatable_stock p \<noteq> 0"
        "\<not> (free_stock p = 0 \<and> waiting_count_locked s pid \<ge> prod_waiting_capacity p)"
      by (auto simp: i mock_join_def split: option.splits if_splits)
    note created = mock_join_created [OF assms p(1,2,3,6)]
    show ?thesis
    proof (cases "free_stock p > 0")
      case True
      then show ?thesis using p by (auto simp: i mock_join_def Let_def intro!: created [simplified True simp_thms if_True])
    next
      case False
      have same: "p\<lparr>prod_next_queue_sequence := n, prod_reserved := prod_reserved p\<rparr> = p\<lparr>prod_next_queue_sequence := n\<rparr>" for n
        by simp
      show ?thesis using p False
        by (auto simp: i mock_join_def Let_def intro!: created [simplified False simp_thms if_False same])
    qed
  qed (use mock_sound_refl [OF assms] in simp)
qed

lemma mock_leave_sound:
  assumes inv: "mock_inv s"
  shows "mock_sound s (fst (mock_leave now s pid user))"
proof (cases "fst (mock_leave now s pid user) = s")
  case False
  then obtain p a where p: "mk_products s pid = Some p" and a: "latest_attempt_locked s pid user = Some a"
      and active: "is_active_state (qa_state a)"
    by (auto simp: mock_leave_def split: option.splits if_splits)
  obtain ys zs where xs: "mk_attempts s pid = ys @ a # zs"
      "\<And>f. update_last (\<lambda>b. qa_user b = user) f (mk_attempts s pid) = ys @ f a # zs"
    using update_last_split [OF a [unfolded latest_attempt_locked_def]] by blast
  let ?b = "a\<lparr>qa_state := Cancelled, qa_terminal_at := Some now, qa_updated_at := now, qa_version := i64 (qa_version a + 1)\<rparr>"
  let ?p = "if reserves_stock (qa_state a) then p\<lparr>prod_reserved := i32 (prod_reserved p - 1)\<rparr> else p"
  note ok = mock_inv_ok [OF inv p]
  have "i32 (prod_reserved p - 1) = prod_reserved p - 1" if "reserves_stock (qa_state a)"
    using ok xs that mock_ok_i32 [OF ok, of "-1"] by (auto simp: mock_ok_def)
  then have "mock_sound s (s\<lparr>mk_products := (mk_products s)(pid \<mapsto> ?p), mk_attempts := (mk_attempts s)(pid := ys @ ?b # zs)\<rparr>)"
    using ok by (intro mock_replace [OF inv p xs(1) _ active]) (auto simp: attempt_ident_def reserves_stock_def mock_ok_def)
  moreover have "qa_state a \<noteq> Purchased" using active by (auto simp: is_active_state_def)
  ultimately show ?thesis using p a active xs(2) by (simp add: mock_leave_def)
qed (use mock_sound_refl [OF inv] in simp)

lemma mock_find_attempt_Some:
  assumes "mock_find_attempt s aid = Some (pid, a)"
  shows "pid \<in> set (mk_order s) \<and> find (\<lambda>b. qa_id b = aid) (mk_attempts s pid) = Some a"
proof -
  have first: "find (\<lambda>(q, b). qa_id b = aid) (map (Pair q) xs @ rest) =
      (case find (\<lambda>b. qa_id b = aid) xs of None \<Rightarrow> find (\<lambda>(q, b). qa_id b = aid) rest | Some b \<Rightarrow> Some (q, b))"
    for q xs rest by (induction xs) auto
  have "find (\<lambda>(q, b). qa_id b = aid) (concat (map (\<lambda>q. map (Pair q) (mk_attempts s q)) order)) = Some (pid, a) \<Longrightarrow>
      pid \<in> set order \<and> find (\<lambda>b. qa_id b = aid) (mk_attempts s pid) = Some a" for order
    by (induction order) (auto simp: first split: option.splits)
  then show ?thesis using assms by (simp add: mock_find_attempt_def)
qed

lemma mock_start_sound:
  assumes inv: "mock_inv s"
  shows "mock_sound s (fst (mock_start now s aid user))"
proof (cases "fst (mock_start now s aid user) = s")
  case False
  then obtain pid a where found: "mock_find_attempt s aid = Some (pid, a)" and a: "qa_state a = Invited" "qa_user a = user"
    by (auto simp: mock_start_def Let_def split: option.splits if_splits attempt_state.splits)
  note f = mock_find_attempt_Some [OF found]
  then obtain p where p: "mk_products s pid = Some p" using inv by (metis domD mock_inv_def)
  obtain ys zs where xs: "mk_attempts s pid = ys @ a # zs"
      "\<And>f. update_first (\<lambda>b. qa_id b = aid) f (mk_attempts s pid) = ys @ f a # zs"
    using update_first_split [OF f [THEN conjunct2]] by blast
  let ?b = "a\<lparr>qa_state := Checkout, qa_checkout_started_at := Some now,
      qa_checkout_deadline := Some (now + mk_checkout_ttl s), qa_updated_at := now, qa_version := i64 (qa_version a + 1)\<rparr>"
  have "mock_sound s (s\<lparr>mk_products := (mk_products s)(pid \<mapsto> p), mk_attempts := (mk_attempts s)(pid := ys @ ?b # zs)\<rparr>)"
    using mock_inv_ok [OF inv p] a
    by (intro mock_replace [OF inv p xs(1)]) (auto simp: attempt_ident_def reserves_stock_def is_active_state_def mock_ok_def)
  then show ?thesis using found a xs(2) p by (simp add: mock_start_def Let_def map_upd_triv)
qed (use mock_sound_refl [OF inv] in simp)

lemma mock_complete_demo_sound:
  assumes inv: "mock_inv s"
  shows "mock_sound s (fst (mock_complete_demo now s pid aid user key))"
proof (cases "fst (mock_complete_demo now s pid aid user key) = s")
  case False
  then obtain p a where p: "mk_products s pid = Some p" and found: "find (\<lambda>a. qa_id a = aid) (mk_attempts s pid) = Some a"
      and a: "qa_state a = Checkout" "qa_user a = user" and pos: "0 < prod_allocatable_stock p" "0 < prod_reserved p"
    by (auto simp: mock_complete_demo_def not_le split: option.splits if_splits)
  obtain ys zs where xs: "mk_attempts s pid = ys @ a # zs"
      "\<And>f. update_first (\<lambda>b. qa_id b = aid) f (mk_attempts s pid) = ys @ f a # zs"
    using update_first_split [OF found] by blast
  note ok = mock_inv_ok [OF inv p]
  have w: "i32 (prod_reserved p - 1) = prod_reserved p - 1" "i32 (prod_allocatable_stock p - 1) = prod_allocatable_stock p - 1"
    using ok pos by (auto simp: mock_ok_def min_int32_def intro!: i32_id)
  have "mock_sound s (s\<lparr>mk_products := (mk_products s)(pid \<mapsto> p\<lparr>prod_allocatable_stock := i32 (prod_allocatable_stock p - 1),
      prod_reserved := i32 (prod_reserved p - 1)\<rparr>), mk_attempts := (mk_attempts s)(pid := ys @ mock_purchase now a # zs)\<rparr>)"
    using ok a pos unfolding w
    by (intro mock_replace [OF inv p xs(1)])
      (auto simp: attempt_ident_def reserves_stock_def is_active_state_def mock_ok_def mock_purchase_def)
  then show ?thesis using p found a pos xs(2) by (simp add: mock_complete_demo_def)
qed (use mock_sound_refl [OF inv] in simp)

section \<open>Runs of the mock server\<close>

inductive mock_step :: "mock_state \<Rightarrow> mock_state \<Rightarrow> bool" where
  mock_step_join: "mock_step s (fst (mock_join i s pid user key))"
| mock_step_leave: "mock_step s (fst (mock_leave now s pid user))"
| mock_step_start: "mock_step s (fst (mock_start now s aid user))"
| mock_step_pay: "mock_step s (fst (mock_complete_demo now s pid aid user key))"

inductive_cases mock_stepE: "mock_step s s'"

inductive mock_reachable :: "mock_state \<Rightarrow> mock_state \<Rightarrow> bool" where
  mock_start: "mock_reachable s s"
| mock_next: "mock_reachable s t \<Longrightarrow> mock_step t u \<Longrightarrow> mock_reachable s u"

lemma mock_step_sound: "mock_inv s \<Longrightarrow> mock_step s s' \<Longrightarrow> mock_sound s s'"
  by (erule mock_stepE) (auto intro: mock_join_sound mock_leave_sound mock_start_sound mock_complete_demo_sound)

lemma mock_reachable_sound:
  "mock_reachable s s' \<Longrightarrow> mock_inv s \<Longrightarrow> mock_sound s s'"
proof (induction rule: mock_reachable.induct)
  case (mock_next s t u)
  then have "mock_sound s t" "mock_sound t u" using mock_step_sound by (auto simp: mock_sound_def)
  then show ?case using mock_evolves_trans by (auto simp: mock_sound_def)
qed (simp add: mock_sound_refl)

lemma fixture_attempt_Inr:
  assumes "fixture_attempt ext now it ct pid (raw, user, n, st) = Inr a"
  shows "qa_product a = pid \<and> qa_sequence a = n \<and> qa_user a = user \<and> qa_key a = ''fixture-'' @ raw \<and> qa_state a = st"
  using assms by (cases st) (auto simp: fixture_attempt_def Let_def)

lemma mock_okI:
  assumes "map qa_product xs = replicate (length xs) pid" and "map qa_sequence xs = map (\<lambda>k. i64 (int k + 1)) [0..<length xs]"
    and users: "distinct (map qa_user xs)" and states: "map qa_state xs = states" and "prod_id p = pid"
    and "0 \<le> prod_allocatable_stock p" and "prod_allocatable_stock p \<le> max_int32"
    and "prod_reserved p = int (length (filter reserves_stock states))" and "prod_reserved p \<le> prod_allocatable_stock p"
    and "int (length (filter (\<lambda>st. st = Waiting) states)) \<le> prod_waiting_capacity p"
    and "prod_next_queue_sequence p = i64 (int (length states) + 1)"
  shows "mock_ok pid p xs"
proof -
  have "reserving xs = int (length (filter reserves_stock states))" "count_waiting xs = int (length (filter (\<lambda>st. st = Waiting) states))"
    by (simp_all add: states [symmetric] filter_map o_def reserving_def count_waiting_def)
  moreover have "distinct (map (\<lambda>a. (qa_user a, qa_key a)) xs)" using users by (auto simp: distinct_map inj_on_def)
  moreover have "length states = length xs" using states by (metis length_map)
  moreover have "list_all (\<lambda>a. qa_product a = pid) xs" using assms(1) by (induction xs) auto
  ultimately show ?thesis using assms(2-) distinct_map_filter [OF users] by (simp add: mock_ok_def)
qed

lemma new_state_inv:
  assumes new: "new_state ext now it ct = Inr s" and "distinct (mk_order s)"
  shows "mock_inv s"
proof -
  obtain pids scarce popular where pids: "traverse (must_parse ext) [product_scarce_id, product_popular_id, product_sold_out_id, product_disabled_id] = Inr pids"
    and scarce: "traverse (fixture_attempt ext now it ct (pids ! 0)) scarce_fixtures = Inr scarce"
    and popular: "traverse (fixture_attempt ext now it ct (pids ! 1)) popular_fixtures = Inr popular"
    and s: "mk_products s = map_of (rev (map (\<lambda>p. (prod_id p, p)) (mock_catalogue pids)))" "mk_order s = pids"
      "mk_attempts s = (\<lambda>pid. [])(pids ! 0 := scarce, pids ! 1 := popular)"
    using new by (auto simp: new_state_def)
  obtain a b c d where p: "pids = [a, b, c, d]" using pids by auto
  have d: "distinct [a, b, c, d]" using assms(2) s(2) p by simp
  have sc: "map qa_product scarce = replicate 3 a" "map qa_sequence scarce = [1, 2, 3]"
    "map qa_user scarce = [demo_user_one_id, demo_user_two_id, demo_user_three_id]" "map qa_state scarce = [Checkout, Waiting, Waiting]"
    using scarce p by (auto simp: scarce_fixtures_def numeral_3_eq_3 dest!: fixture_attempt_Inr)
  have po: "map qa_product popular = replicate 5 b" "map qa_sequence popular = [1, 2, 3, 4, 5]"
    "map qa_user popular = [demo_user_one_id, demo_user_two_id, demo_user_three_id, demo_user_four_id, demo_user_five_id]"
    "map qa_state popular = [Invited, Purchased, Cancelled, InviteExpired, CheckoutExpired]"
    using popular p by (auto simp: popular_fixtures_def eval_nat_numeral dest!: fixture_attempt_Inr)
  have users: "distinct [demo_user_one_id, demo_user_two_id, demo_user_three_id, demo_user_four_id, demo_user_five_id]" by code_simp
  have len: "length scarce = 3" "length popular = 5" 
    using arg_cong [OF sc(2), of length] arg_cong [OF po(2), of length] by simp_all
  have first: "mock_ok a (mock_catalogue pids ! 0) scarce"
    by (rule mock_okI [OF _ _ _ sc(4)]) (use sc users len in \<open>simp_all add: p mock_catalogue_def mock_product_def
      reserves_stock_def max_int32_def i64_def upt_rec\<close>)
  have second: "mock_ok b (mock_catalogue pids ! 1) popular"
    by (rule mock_okI [OF _ _ _ po(4)]) (use po users len in \<open>simp_all add: p mock_catalogue_def mock_product_def
      reserves_stock_def max_int32_def i64_def upt_rec\<close>)
  have rest: "mock_ok c (mock_catalogue pids ! 2) []" "mock_ok d (mock_catalogue pids ! 3) []"
    unfolding p by (simp_all add: mock_catalogue_def mock_product_def mock_ok_def max_int32_def i64_def numeral_3_eq_3 numeral_2_eq_2)
  have products: "mk_products s = [a \<mapsto> mock_catalogue pids ! 0, b \<mapsto> mock_catalogue pids ! 1,
      c \<mapsto> mock_catalogue pids ! 2, d \<mapsto> mock_catalogue pids ! 3]"
    using d unfolding s(1) p by (simp add: mock_catalogue_def mock_product_def numeral_3_eq_3 numeral_2_eq_2)
  show ?thesis unfolding mock_inv_def products
    using d first second rest s(2,3) p by auto
qed

section \<open>Posting a queue entry\<close>

definition mock_recorded ::
  "mock_state \<Rightarrow> product_id \<Rightarrow> user_id \<Rightarrow> idempotency_key \<Rightarrow> attempt_id \<Rightarrow> int \<Rightarrow> bool" where
  "mock_recorded s pid user key aid n \<longleftrightarrow> mk_products s pid \<noteq> None \<and>
     (\<exists>a\<in>set (mk_attempts s pid). qa_user a = user \<and> qa_key a = key \<and> qa_id a = aid \<and> qa_sequence a = n)"

lemma mock_recorded_kept:
  assumes inv: "mock_inv s" and run: "mock_reachable s s'" and rec: "mock_recorded s pid user key aid n"
  shows "mock_inv s' \<and> mock_recorded s' pid user key aid n"
proof -
  note sound = mock_reachable_sound [OF run inv]
  obtain p a where p: "mk_products s pid = Some p" and a: "a \<in> set (mk_attempts s pid)" "qa_user a = user" "qa_key a = key"
      "qa_id a = aid" "qa_sequence a = n"
    using rec by (auto simp: mock_recorded_def)
  obtain p' where p': "mk_products s' pid = Some p'" "forward row_kept (mk_attempts s pid) (mk_attempts s' pid)"
    using sound p by (auto simp: mock_sound_def mock_evolves_def)
  obtain b where "b \<in> set (mk_attempts s' pid)" "row_kept a b" using forward_row [OF p'(2) a(1)] .
  then show ?thesis using sound p'(1) a by (auto simp: mock_recorded_def mock_sound_def row_kept_def attempt_ident_def)
qed

lemma mock_recorded_repeated:
  assumes inv: "mock_inv s" and rec: "mock_recorded s pid user key aid n"
  shows "\<exists>x a. mock_join i s pid user key = (s, Some x, None) \<and> \<not> jr_created x \<and> jr_attempt x = Some a \<and>
    qa_id a = aid \<and> qa_product a = pid \<and> qa_sequence a = n"
proof -
  obtain now fresh where i: "i = (now, fresh)" by (cases i)
  obtain p a where p: "mk_products s pid = Some p" and a: "a \<in> set (mk_attempts s pid)" "qa_user a = user" "qa_key a = key"
      "qa_id a = aid" "qa_sequence a = n"
    using rec by (auto simp: mock_recorded_def)
  have ok: "distinct (map (\<lambda>a. (qa_user a, qa_key a)) (mk_attempts s pid))" "list_all (\<lambda>a. qa_product a = pid) (mk_attempts s pid)"
    using mock_inv_ok [OF inv p] by (auto simp: mock_ok_def)
  obtain b where b: "find (\<lambda>a. qa_user a = user \<and> qa_key a = key) (mk_attempts s pid) = Some b"
    using a by (cases "find (\<lambda>a. qa_user a = user \<and> qa_key a = key) (mk_attempts s pid)") (auto simp: find_None_iff)
  have "b = a" using find_in_set [OF b] a ok(1) by (auto simp: distinct_map inj_on_def)
  then have "mock_join i s pid user key = (s, Some (join_result_locked s a False), None)"
    using b p by (simp add: mock_join_def i)
  then show ?thesis using a ok(2)
    by (auto simp: join_result_locked_def current_result_locked_def list_all_iff)
qed

lemma mock_join_recorded:
  assumes inv: "mock_inv s" and call: "mock_join i s pid user key = (s', Some r, None)" and new: "jr_created r"
  shows "mock_inv s' \<and> (\<exists>a. jr_attempt r = Some a \<and> qa_product a = pid \<and> mock_recorded s' pid user key (qa_id a) (qa_sequence a))"
proof -
  have "mock_inv s'" using mock_join_sound [OF inv, of i pid user key] call by (simp add: mock_sound_def)
  moreover obtain now fresh where "i = (now, fresh)" by (cases i)
  ultimately show ?thesis using call new
    by (auto simp: mock_join_def Let_def join_result_locked_def current_result_locked_def mock_recorded_def
        split: option.splits if_splits)
qed

interpretation mock_joins: join_service mock_join mock_inv mock_reachable mock_recorded
  by unfold_locales (rule mock_join_recorded mock_recorded_kept mock_recorded_repeated; assumption)+

section \<open>The product pages\<close>

lemma mock_pages_contract:
  assumes "mock_inv s" and "mock_alternatives ext score s pid = (s', Some rs, None)"
  shows "s' = s \<and> length rs \<le> 4 \<and> distinct (map (\<lambda>c. prod_id (rc_item c)) rs) \<and> rc_item ` set rs \<subseteq> set (products_locked s) \<and>
    (\<forall>c\<in>set rs. prod_id (rc_item c) \<noteq> pid \<and> prod_queue_enabled (rc_item c) \<and> 0 < free_stock (rc_item c))"
proof -
  let ?good = "filter (\<lambda>p. prod_id p \<noteq> pid \<and> prod_queue_enabled p \<and> free_stock p > 0) (products_locked s)"
  let ?top = "take 4 (sort_key (\<lambda>p. (- free_stock p, ext_uuid_string ext (prod_id p))) ?good)"
  have rs: "s' = s" "map rc_item rs = ?top"
    using assms(2) by (auto simp: mock_alternatives_def Let_def intro!: map_idI split: option.splits)
  have "prod_id (case product_locked s q of (None, err) \<Rightarrow> zero_product | (Some p, err) \<Rightarrow> p) = q" if q: "q \<in> set (mk_order s)" for q
  proof -
    obtain p where "mk_products s q = Some p" "mock_ok q p (mk_attempts s q)"
      using q assms(1) by (metis domD mock_inv_def)
    then show ?thesis by (simp add: product_locked_def mock_ok_def)
  qed
  then have "map prod_id (products_locked s) = mk_order s" by (simp add: products_locked_def o_def map_idI)
  then have "distinct (map prod_id (products_locked s))" using assms(1) by (simp add: mock_inv_def)
  then have d: "distinct (products_locked s)" "inj_on prod_id (set (products_locked s))" by (auto simp: distinct_map)
  have sub: "set ?top \<subseteq> set ?good" using set_take_subset by fastforce
  have "distinct (map prod_id ?top)"
    using d sub by (auto simp: distinct_map intro: inj_on_subset)
  moreover have "map (\<lambda>c. prod_id (rc_item c)) rs = map prod_id ?top" using arg_cong [OF rs(2), of "map prod_id"] by (simp add: o_def)
  moreover have "length rs \<le> 4" using arg_cong [OF rs(2), of length] by simp
  moreover have "rc_item ` set rs = set ?top" using arg_cong [OF rs(2), of set] by simp
  ultimately show ?thesis using sub rs(1) by auto
qed

interpretation mock_pages: product_service mock_list mock_get "mock_alternatives ext score" mock_inv for ext score
proof unfold_locales
  show "\<exists>p. found = Some p \<and> prod_id p = pid" if "mock_inv s" "mock_get s pid = (s', found, None)" for s pid s' found
    using that by (auto simp: mock_get_def product_locked_def mock_inv_def mock_ok_def split: option.splits)
  show "p \<in> set ps" if "mock_inv s" "mock_get s pid = (s', Some p, None)" "mock_list s' = (s'', Some ps, None)" for s pid s' p s'' ps
    using that by (force simp: mock_get_def mock_list_def products_locked_def product_locked_def mock_inv_def split: option.splits)
  show "length rs \<le> 4 \<and> distinct (map (\<lambda>c. prod_id (rc_item c)) rs) \<and>
      (\<forall>c\<in>set rs. prod_id (rc_item c) \<noteq> pid \<and> prod_queue_enabled (rc_item c) \<and> 0 < free_stock (rc_item c))"
    if "mock_inv s" "mock_alternatives ext score s pid = (s', Some rs, None)" for s pid s' rs
    using mock_pages_contract [OF that] by simp
  show "rc_item ` set rs \<subseteq> set ps"
    if "mock_inv s" "mock_alternatives ext score s pid = (s', Some rs, None)" "mock_list s' = (s'', Some ps, None)" for s pid s' rs s'' ps
    using mock_pages_contract [OF that(1,2)] that(3) by (auto simp: mock_list_def)
qed (simp add: mock_list_def)

section \<open>The books balance\<close>

text \<open>
  C35. The mock server keeps books like the real one: in every state a run of it reaches from its
  fixtures, a product reserves exactly one unit per invited or checkout attempt and never more than
  its stock; units for sale plus units sold are what the fixtures had; the waiting room is within
  its capacity; a customer has one active attempt per product; and attempts are only added at the
  end, keep their identity, and never change again once they are finished.
\<close>

theorem mock_books_balance:
  assumes start: "new_state ext now invitation_ttl checkout_ttl = Inr s0" "distinct (mk_order s0)"
    and run: "mock_reachable s0 s" and p0: "mk_products s0 pid = Some p0"
  shows "\<exists>p. mk_products s pid = Some p \<and> prod_reserved p = reserving (mk_attempts s pid) \<and>
     prod_reserved p \<le> prod_allocatable_stock p \<and>
     prod_allocatable_stock p + purchased (mk_attempts s pid) = prod_allocatable_stock p0 + purchased (mk_attempts s0 pid) \<and>
     count_waiting (mk_attempts s pid) \<le> prod_waiting_capacity p0 \<and>
     distinct (map qa_user (filter (\<lambda>a. is_active_state (qa_state a)) (mk_attempts s pid))) \<and>
     forward row_kept (mk_attempts s0 pid) (mk_attempts s pid)"
proof -
  note sound = mock_reachable_sound [OF run new_state_inv [OF start]]
  obtain p where p: "mk_products s pid = Some p" "prod_waiting_capacity p = prod_waiting_capacity p0"
      "prod_allocatable_stock p + purchased (mk_attempts s pid) = prod_allocatable_stock p0 + purchased (mk_attempts s0 pid)"
      "forward row_kept (mk_attempts s0 pid) (mk_attempts s pid)"
    using sound p0 by (auto simp: mock_sound_def mock_evolves_def)
  have "mock_ok pid p (mk_attempts s pid)" using sound p(1) mock_inv_ok by (simp add: mock_sound_def)
  then show ?thesis using p by (auto simp: mock_ok_def)
qed

text \<open>Identifiers that are told apart by their first character.\<close>

definition mock_externals :: externals where
  "mock_externals = demo_externals\<lparr>ext_uuid_parse := (\<lambda>s. if s = [] then None else Some (of_nat (byte_of (hd s))))\<rparr>"

definition demo_mock :: mock_state where
  "demo_mock = (case new_state mock_externals 0 300000000000 600000000000 of Inr s \<Rightarrow> s | Inl e \<Rightarrow> undefined)"

lemma demo_mock_start:
  "new_state mock_externals 0 300000000000 600000000000 = Inr demo_mock \<and> distinct (mk_order demo_mock) \<and> mk_order demo_mock \<noteq> []"
proof -
  let ?ids = "[product_scarce_id, product_popular_id, product_sold_out_id, product_disabled_id]"
  have parse: "must_parse mock_externals s = Inr (of_nat (byte_of (hd s)))" if "s \<noteq> []" for s
    using that by (simp add: must_parse_def mock_externals_def)
  have one: "\<exists>a. fixture_attempt mock_externals now it ct pid f = Inr a" if "fst f \<noteq> []" for now it ct pid f
    using parse [OF that] by (cases f) (simp add: fixture_attempt_def Let_def)
  have fixtures: "\<exists>as. traverse (fixture_attempt mock_externals now it ct pid) fs = Inr as"
    if "\<forall>f\<in>set fs. fst f \<noteq> []" for now it ct pid fs
    by (rule traverse_total) (use that one in blast)
  have ids: "traverse (must_parse mock_externals) ?ids = Inr (map (\<lambda>s. of_nat (byte_of (hd s))) ?ids)"
    by (simp add: parse product_scarce_id_def product_popular_id_def product_sold_out_id_def product_disabled_id_def)
  have d: "distinct (map (\<lambda>s. of_nat (byte_of (hd s)) :: uuid) ?ids)" by code_simp
  let ?pids = "map (\<lambda>s. of_nat (byte_of (hd s))) ?ids"
  have fs: "\<forall>f\<in>set scarce_fixtures. fst f \<noteq> []" "\<forall>f\<in>set popular_fixtures. fst f \<noteq> []"
    by (simp_all add: scarce_fixtures_def popular_fixtures_def)
  obtain scarce where sc: "traverse (fixture_attempt mock_externals 0 300000000000 600000000000 (?pids ! 0)) scarce_fixtures = Inr scarce"
    using fixtures [OF fs(1)] by blast
  obtain popular where po: "traverse (fixture_attempt mock_externals 0 300000000000 600000000000 (?pids ! 1)) popular_fixtures = Inr popular"
    using fixtures [OF fs(2)] by blast
  show ?thesis unfolding demo_mock_def new_state_def ids bindE_simps sc po
    using d by simp
qed

lemma mock_books_balance_witness:
  "\<exists>s p. s = fst (mock_leave 5 demo_mock (hd (mk_order demo_mock)) demo_user_two_id) \<and>
     mk_products s (hd (mk_order demo_mock)) = Some p \<and> prod_reserved p = reserving (mk_attempts s (hd (mk_order demo_mock)))"
proof -
  note start = demo_mock_start [THEN conjunct1] demo_mock_start [THEN conjunct2, THEN conjunct1]
  have "hd (mk_order demo_mock) \<in> dom (mk_products demo_mock)"
    using new_state_inv [OF start] demo_mock_start by (simp add: mock_inv_def)
  then obtain p0 where p0: "mk_products demo_mock (hd (mk_order demo_mock)) = Some p0" by blast
  have run: "mock_reachable demo_mock (fst (mock_leave 5 demo_mock (hd (mk_order demo_mock)) demo_user_two_id))"
    by (rule mock_next [OF mock_start mock_step_leave])
  show ?thesis using mock_books_balance [OF start run p0] by blast
qed

end
