(* ===== verification/Adaptive.thy ===== *)
theory Adaptive
  imports Domain
begin

text \<open>
  The adaptive queue controller (\<open>internal/adaptivequeue/controller.go\<close>), which moves the
  waiting-buffer percentage that every Join reads: its configuration and the validation of it,
  one refresh from the statistics of the load-test metrics, and the loop of refreshes.

  \<open>float64\<close> is a type variable with a record of the operations the source uses, and the
  controller's guarantees hold for all of them, so rounding, NaN and the unspecified results of
  \<open>int(x)\<close> for large \<open>x\<close> are all covered. The metrics reader is a parameter, one answer per
  call. Both mutexes of the source serialise what is here one step; log lines are left out.
\<close>

section \<open>Floating point\<close>

record 'f float_ops =
  fo_of_int :: "int \<Rightarrow> 'f"
  fo_less :: "'f \<Rightarrow> 'f \<Rightarrow> bool"
  fo_less_eq :: "'f \<Rightarrow> 'f \<Rightarrow> bool"
  fo_add :: "'f \<Rightarrow> 'f \<Rightarrow> 'f"
  fo_sub :: "'f \<Rightarrow> 'f \<Rightarrow> 'f"
  fo_mul :: "'f \<Rightarrow> 'f \<Rightarrow> 'f"
  fo_div :: "'f \<Rightarrow> 'f \<Rightarrow> 'f"
  fo_round :: "'f \<Rightarrow> 'f"
  fo_ceil :: "'f \<Rightarrow> 'f"
  fo_to_int :: "'f \<Rightarrow> int"

section \<open>Configuration, metrics and state\<close>

record 'f adaptive_config =
  ac_enabled :: bool
  ac_base :: int
  ac_minimum :: int
  ac_maximum :: int
  ac_step :: int
  ac_interval :: time
  ac_window :: time
  ac_min_http :: int
  ac_min_checkout :: int
  ac_min_success :: 'f

record 'f request_success_stats =
  rs_successful :: 'f
  rs_total :: 'f

record 'f purchase_success_stats =
  pu_purchased :: 'f
  pu_cancelled :: 'f
  pu_checkout_expired :: 'f

text \<open>The answers the reader gives during one refresh; \<open>None\<close> is an error.\<close>

record 'f metrics_reader =
  mr_requests :: "time \<Rightarrow> 'f request_success_stats option"
  mr_purchases :: "time \<Rightarrow> 'f purchase_success_stats option"

datatype adaptive_reason =
    ReasonDisabled | ReasonNotEvaluated | ReasonApplied | ReasonStable | ReasonMetricsUnavailable
  | ReasonInsufficientHTTPSamples | ReasonHTTPReliabilityBelowMinimum | ReasonInsufficientPurchaseSamples

fun reason_text :: "adaptive_reason \<Rightarrow> string" where
  "reason_text ReasonDisabled = ''disabled''"
| "reason_text ReasonNotEvaluated = ''not_evaluated''"
| "reason_text ReasonApplied = ''applied''"
| "reason_text ReasonStable = ''stable''"
| "reason_text ReasonMetricsUnavailable = ''metrics_unavailable''"
| "reason_text ReasonInsufficientHTTPSamples = ''insufficient_http_samples''"
| "reason_text ReasonHTTPReliabilityBelowMinimum = ''http_reliability_below_minimum''"
| "reason_text ReasonInsufficientPurchaseSamples = ''insufficient_purchase_samples''"

record 'f adaptive_snapshot =
  sh_enabled :: bool
  sh_base :: int
  sh_current :: int
  sh_target :: "int option"
  sh_minimum :: int
  sh_maximum :: int
  sh_step :: int
  sh_window :: time
  sh_min_http :: int
  sh_min_checkout :: int
  sh_min_success :: 'f
  sh_http_requests :: 'f
  sh_http_success :: 'f
  sh_checkout_outcomes :: 'f
  sh_purchase_success :: 'f
  sh_reason :: adaptive_reason
  sh_evaluated_at :: "time option"
  sh_applied_at :: "time option"

text \<open>The percent source is shared with the repositories; the controller is its only writer.\<close>

record 'f controller =
  ct_config :: "'f adaptive_config"
  ct_source :: int
  ct_snapshot :: "'f adaptive_snapshot"

definition validate_config :: "'f float_ops \<Rightarrow> 'f adaptive_config \<Rightarrow> string option" where
  "validate_config fo c =
     (if ac_base c < 0 \<or> ac_minimum c < 0 \<or> ac_maximum c < 0 \<or>
         ac_minimum c > ac_base c \<or> ac_base c > ac_maximum c
      then Some ''adaptive queue percentages must satisfy 0 <= minimum <= base <= maximum''
      else if ac_step c \<le> 0 \<or> ac_step c > ac_maximum c
      then Some ''adaptive queue maximum step must be between 1 and maximum percent''
      else if ac_interval c \<le> 0 \<or> ac_window c \<le> 0
      then Some ''adaptive queue interval and window must be positive''
      else if ac_min_http c \<le> 0 \<or> ac_min_checkout c \<le> 0
      then Some ''adaptive queue sample thresholds must be positive''
      else if fo_less fo (ac_min_success c) (fo_of_int fo 0) \<or> fo_less fo (fo_of_int fo 100) (ac_min_success c)
      then Some ''adaptive queue HTTP success threshold must be between 0 and 100''
      else None)"

text \<open>\<open>source\<close> is \<open>None\<close> for a nil percent source; a nil logger is replaced and leaves no trace here.\<close>

definition new_controller ::
  "'f float_ops \<Rightarrow> 'f adaptive_config \<Rightarrow> bool \<Rightarrow> int option \<Rightarrow> string + 'f controller" where
  "new_controller fo config has_metrics source = (case source of
     None \<Rightarrow> Inl ''adaptive queue percent source is required''
   | Some percent \<Rightarrow>
       (case validate_config fo config of
          Some message \<Rightarrow> Inl message
        | None \<Rightarrow>
            if ac_enabled config \<and> \<not> has_metrics
            then Inl ''adaptive queue metrics reader is required when enabled''
            else Inr \<lparr>ct_config = config, ct_source = percent,
              ct_snapshot = \<lparr>sh_enabled = ac_enabled config, sh_base = ac_base config, sh_current = percent,
                sh_target = None, sh_minimum = ac_minimum config, sh_maximum = ac_maximum config,
                sh_step = ac_step config, sh_window = ac_window config, sh_min_http = ac_min_http config,
                sh_min_checkout = ac_min_checkout config, sh_min_success = ac_min_success config,
                sh_http_requests = fo_of_int fo 0, sh_http_success = fo_of_int fo 0,
                sh_checkout_outcomes = fo_of_int fo 0, sh_purchase_success = fo_of_int fo 0,
                sh_reason = (if ac_enabled config then ReasonNotEvaluated else ReasonDisabled),
                sh_evaluated_at = None, sh_applied_at = None\<rparr>\<rparr>))"

section \<open>One refresh\<close>

definition percentage :: "'f float_ops \<Rightarrow> 'f \<Rightarrow> 'f \<Rightarrow> 'f" where
  "percentage fo successful overall =
     (if fo_less_eq fo overall (fo_of_int fo 0) then fo_of_int fo 0
      else fo_div fo (fo_round fo (fo_mul fo (fo_div fo successful overall) (fo_of_int fo 10000))) (fo_of_int fo 100))"

definition clamp :: "int \<Rightarrow> int \<Rightarrow> int \<Rightarrow> int" where
  "clamp value minimum maximum =
     (if value < minimum then minimum else if value > maximum then maximum else value)"

definition bounded_step :: "int \<Rightarrow> int \<Rightarrow> int \<Rightarrow> int" where
  "bounded_step current target maximum_step =
     (if target > i64 (current + maximum_step) then i64 (current + maximum_step)
      else if target < i64 (current - maximum_step) then i64 (current - maximum_step)
      else target)"

definition target_percent :: "'f float_ops \<Rightarrow> 'f adaptive_config \<Rightarrow> 'f \<Rightarrow> 'f \<Rightarrow> int" where
  "target_percent fo config purchased outcomes =
     (let target = (if fo_less fo (fo_of_int fo 0) purchased
        then fo_to_int fo (fo_ceil fo (fo_div fo (fo_mul fo (fo_of_int fo 100) (fo_sub fo outcomes purchased)) purchased))
        else ac_maximum config)
      in clamp target (ac_minimum config) (ac_maximum config))"

definition record_skipped ::
  "time \<Rightarrow> adaptive_reason \<Rightarrow> 'f \<Rightarrow> 'f \<Rightarrow> 'f \<Rightarrow> 'f \<Rightarrow> 'f controller \<Rightarrow> 'f controller" where
  "record_skipped evaluated_at reason http_requests http_success outcomes purchase_success c =
     c\<lparr>ct_snapshot := (ct_snapshot c)\<lparr>sh_current := ct_source c, sh_target := None,
        sh_http_requests := http_requests, sh_http_success := http_success,
        sh_checkout_outcomes := outcomes, sh_purchase_success := purchase_success,
        sh_reason := reason, sh_evaluated_at := Some evaluated_at\<rparr>\<rparr>"

definition apply_target ::
  "time \<Rightarrow> int \<Rightarrow> 'f \<Rightarrow> 'f \<Rightarrow> 'f \<Rightarrow> 'f \<Rightarrow> 'f controller \<Rightarrow> 'f controller" where
  "apply_target evaluated_at target http_requests http_success outcomes purchase_success c =
     (let next = bounded_step (ct_source c) target (ac_step (ct_config c));
          applied = (next \<noteq> ct_source c)
      in c\<lparr>ct_source := next, ct_snapshot := (ct_snapshot c)\<lparr>sh_current := next, sh_target := Some target,
           sh_http_requests := http_requests, sh_http_success := http_success,
           sh_checkout_outcomes := outcomes, sh_purchase_success := purchase_success,
           sh_reason := (if applied then ReasonApplied else ReasonStable), sh_evaluated_at := Some evaluated_at,
           sh_applied_at := (if applied then Some evaluated_at else sh_applied_at (ct_snapshot c))\<rparr>\<rparr>)"

definition refresh :: "'f float_ops \<Rightarrow> 'f metrics_reader \<Rightarrow> time \<Rightarrow> 'f controller \<Rightarrow> 'f controller" where
  "refresh fo metrics evaluated_at c =
     (let config = ct_config c; zero = fo_of_int fo 0 in
      if \<not> ac_enabled config then c
      else case mr_requests metrics (ac_window config) of
        None \<Rightarrow> record_skipped evaluated_at ReasonMetricsUnavailable zero zero zero zero c
      | Some http \<Rightarrow>
          let http_success = percentage fo (rs_successful http) (rs_total http) in
          if fo_less fo (rs_total http) (fo_of_int fo (ac_min_http config))
          then record_skipped evaluated_at ReasonInsufficientHTTPSamples (rs_total http) http_success zero zero c
          else if fo_less fo http_success (ac_min_success config)
          then record_skipped evaluated_at ReasonHTTPReliabilityBelowMinimum (rs_total http) http_success zero zero c
          else case mr_purchases metrics (ac_window config) of
            None \<Rightarrow> record_skipped evaluated_at ReasonMetricsUnavailable (rs_total http) http_success zero zero c
          | Some purchase \<Rightarrow>
              let outcomes = fo_add fo (fo_add fo (pu_purchased purchase) (pu_cancelled purchase)) (pu_checkout_expired purchase);
                  purchase_success = percentage fo (pu_purchased purchase) outcomes in
              if fo_less fo outcomes (fo_of_int fo (ac_min_checkout config))
              then record_skipped evaluated_at ReasonInsufficientPurchaseSamples (rs_total http) http_success
                     outcomes purchase_success c
              else apply_target evaluated_at (target_percent fo config (pu_purchased purchase) outcomes)
                     (rs_total http) http_success outcomes purchase_success c)"

text \<open>
  \<open>Run\<close>: a refresh at the start and one per tick until the context ends, each with its answers of
  the metrics and its clock. A disabled controller waits for the end.
\<close>

definition run_controller ::
  "'f float_ops \<Rightarrow> ('f metrics_reader \<times> time) list \<Rightarrow> 'f controller \<Rightarrow> 'f controller" where
  "run_controller fo rounds c =
     (if ac_enabled (ct_config c) then fold (\<lambda>(metrics, now). refresh fo metrics now) rounds c else c)"

section \<open>What a writer of the percentage promises\<close>

text \<open>
  The readers of the percentage need its range only. Whoever writes it keeps a notion of validity,
  inside which the percentage lies between bounds that never change.
\<close>

locale percent_controller =
  fixes valid :: "'c \<Rightarrow> bool"
    and step :: "'i \<Rightarrow> 'c \<Rightarrow> 'c"
    and percent :: "'c \<Rightarrow> int"
    and bounds :: "'c \<Rightarrow> int \<times> int"
  assumes valid_step: "valid c \<Longrightarrow> valid (step i c)"
    and bounds_step: "bounds (step i c) = bounds c"
    and percent_range: "valid c \<Longrightarrow> fst (bounds c) \<le> percent c \<and> percent c \<le> snd (bounds c)"
begin

lemma valid_run: "valid c \<Longrightarrow> valid (fold step is c)"
  by (induction "is" arbitrary: c) (simp_all add: valid_step)

lemma bounds_run: "bounds (fold step is c) = bounds c"
  by (induction "is" arbitrary: c) (simp_all add: bounds_step)

lemma percent_run:
  assumes "valid c"
  shows "fst (bounds c) \<le> percent (fold step is c) \<and> percent (fold step is c) \<le> snd (bounds c)"
  using percent_range [OF valid_run [OF assms]] by (simp add: bounds_run)

end

section \<open>The controller keeps the promise\<close>

lemma refresh_rule:
  assumes "\<not> ac_enabled (ct_config c) \<Longrightarrow> P c"
    and "\<And>reason h hs co ps. reason \<noteq> ReasonApplied \<Longrightarrow> P (record_skipped now reason h hs co ps c)"
    and "\<And>purchased outcomes h hs co ps.
      P (apply_target now (target_percent fo (ct_config c) purchased outcomes) h hs co ps c)"
  shows "P (refresh fo metrics now c)"
  using assms by (simp add: refresh_def Let_def split: option.split)

lemma bounded_step_exact:
  assumes "0 \<le> current" and "current \<le> hi" and "0 < stride" and "stride \<le> hi" and "2 * hi \<le> max_int64"
  shows "bounded_step current target stride =
     (if target > current + stride then current + stride
      else if target < current - stride then current - stride else target)"
proof -
  have "i64 (current + stride) = current + stride" "i64 (current - stride) = current - stride"
    using assms by (auto intro!: i64_id simp: max_int64_def)
  then show ?thesis by (simp add: bounded_step_def)
qed

lemma target_percent_range:
  "ac_minimum config \<le> ac_maximum config \<Longrightarrow>
     ac_minimum config \<le> target_percent fo config p t \<and> target_percent fo config p t \<le> ac_maximum config"
  by (simp add: target_percent_def clamp_def Let_def)

text \<open>
  A controller is sound when its configuration was accepted, the percentage lies between the
  configured bounds and the snapshot shows it. The sums of \<open>boundedStep\<close> stay in 64 bits when
  the maximum is below \<open>2^62\<close>; the server's configuration allows 500.
\<close>

definition controller_ok :: "'f float_ops \<Rightarrow> 'f controller \<Rightarrow> bool" where
  "controller_ok fo c \<longleftrightarrow> validate_config fo (ct_config c) = None \<and> 2 * ac_maximum (ct_config c) \<le> max_int64 \<and>
     ac_minimum (ct_config c) \<le> ct_source c \<and> ct_source c \<le> ac_maximum (ct_config c) \<and>
     sh_current (ct_snapshot c) = ct_source c"

lemma validate_config_None:
  assumes "validate_config fo c = None"
  shows "0 \<le> ac_minimum c" and "ac_minimum c \<le> ac_base c" and "ac_base c \<le> ac_maximum c"
    and "0 < ac_step c" and "ac_step c \<le> ac_maximum c"
  using assms by (auto simp: validate_config_def split: if_splits)

lemma record_skipped_ok [simp]:
  "controller_ok fo (record_skipped now reason h hs co ps c) \<longleftrightarrow>
     controller_ok fo (c\<lparr>ct_snapshot := (ct_snapshot c)\<lparr>sh_current := ct_source c\<rparr>\<rparr>)"
  by (simp add: controller_ok_def record_skipped_def)

lemma refresh_config [simp]: "ct_config (refresh fo m now c) = ct_config c"
  by (rule refresh_rule [where P = "\<lambda>x. ct_config x = ct_config c"])
    (simp_all add: record_skipped_def apply_target_def Let_def)

lemma refresh_percent:
  assumes ok: "controller_ok fo c" and c'_def: "c' = refresh fo m now c"
  shows "controller_ok fo c' \<and> \<bar>ct_source c' - ct_source c\<bar> \<le> ac_step (ct_config c) \<and>
     (ct_source c' \<noteq> ct_source c \<longrightarrow> sh_reason (ct_snapshot c') = ReasonApplied)"
proof -
  note V = validate_config_None [OF ok [unfolded controller_ok_def, THEN conjunct1]]
  show ?thesis unfolding c'_def
  proof (rule refresh_rule [where P = "\<lambda>x. controller_ok fo x \<and> \<bar>ct_source x - ct_source c\<bar> \<le> ac_step (ct_config c) \<and>
      (ct_source x \<noteq> ct_source c \<longrightarrow> sh_reason (ct_snapshot x) = ReasonApplied)"])
    fix reason h hs co ps
    show "controller_ok fo (record_skipped now reason h hs co ps c) \<and>
        \<bar>ct_source (record_skipped now reason h hs co ps c) - ct_source c\<bar> \<le> ac_step (ct_config c) \<and>
        (ct_source (record_skipped now reason h hs co ps c) \<noteq> ct_source c \<longrightarrow>
          sh_reason (ct_snapshot (record_skipped now reason h hs co ps c)) = ReasonApplied)"
      using ok V by (simp add: controller_ok_def) (simp add: record_skipped_def)
  next
    fix purchased outcomes h hs co ps
    let ?t = "target_percent fo (ct_config c) purchased outcomes"
    let ?x = "apply_target now ?t h hs co ps c"
    have t: "ac_minimum (ct_config c) \<le> ?t" "?t \<le> ac_maximum (ct_config c)"
      using target_percent_range V by (meson order_trans)+
    have "bounded_step (ct_source c) ?t (ac_step (ct_config c)) =
       (if ?t > ct_source c + ac_step (ct_config c) then ct_source c + ac_step (ct_config c)
        else if ?t < ct_source c - ac_step (ct_config c) then ct_source c - ac_step (ct_config c) else ?t)"
      using ok V by (intro bounded_step_exact [of _ "ac_maximum (ct_config c)"]) (auto simp: controller_ok_def)
    then show "controller_ok fo ?x \<and> \<bar>ct_source ?x - ct_source c\<bar> \<le> ac_step (ct_config c) \<and>
        (ct_source ?x \<noteq> ct_source c \<longrightarrow> sh_reason (ct_snapshot ?x) = ReasonApplied)"
      using ok V t by (auto simp: controller_ok_def apply_target_def Let_def)
  qed (use ok V in simp)
qed

interpretation adaptive: percent_controller "controller_ok fo" "\<lambda>(metrics, now). refresh fo metrics now" ct_source
    "\<lambda>c. (ac_minimum (ct_config c), ac_maximum (ct_config c))" for fo
proof
  fix c :: "'a controller" and i :: "'a metrics_reader \<times> time"
  show "controller_ok fo c \<Longrightarrow> controller_ok fo ((case i of (metrics, now) \<Rightarrow> refresh fo metrics now) c)"
    using refresh_percent [OF _ refl, of fo c] by (cases i) auto
  show "(ac_minimum (ct_config ((case i of (metrics, now) \<Rightarrow> refresh fo metrics now) c)),
      ac_maximum (ct_config ((case i of (metrics, now) \<Rightarrow> refresh fo metrics now) c))) =
    (ac_minimum (ct_config c), ac_maximum (ct_config c))" by (cases i) simp
qed (auto simp: controller_ok_def)

lemma new_controller_ok:
  assumes "new_controller fo config has_metrics (Some (ac_base config)) = Inr c" and "2 * ac_maximum config \<le> max_int64"
  shows "controller_ok fo c" and "ct_config c = config" and "ct_source c = ac_base config"
  using assms validate_config_None
  by (auto simp: new_controller_def controller_ok_def split: option.splits if_splits)

lemma run_controller_ok:
  assumes "controller_ok fo c"
  shows "controller_ok fo (run_controller fo rounds c)" and "ct_config (run_controller fo rounds c) = ct_config c"
proof -
  have "ct_config (fold (\<lambda>(metrics, now). refresh fo metrics now) rounds c) = ct_config c"
    by (induction rounds arbitrary: c) auto
  then show "ct_config (run_controller fo rounds c) = ct_config c" by (simp add: run_controller_def)
  show "controller_ok fo (run_controller fo rounds c)"
    using adaptive.valid_run [OF assms] assms by (simp add: run_controller_def)
qed

end
