(* ===== verification/Config.thy ===== *)
theory Config
  imports Adaptive
begin

text \<open>
  The configuration of the server (\<open>internal/app/config/config.go\<close>): the readers of single
  environment variables and \<open>LoadFrom\<close>, in four sections that follow its order and keep its
  error messages. \<open>strconv.Atoi\<close>, \<open>strconv.ParseBool\<close> and \<open>strings.Split\<close> are written out;
  \<open>time.ParseDuration\<close>, \<open>Duration.String\<close> and \<open>url.ParseRequestURI\<close> are parameters. Durations
  are Go's nanoseconds.
\<close>

section \<open>The standard library\<close>

record go_library =
  gl_parse_duration :: "string \<Rightarrow> int option"
  gl_duration_string :: "int \<Rightarrow> string"
  gl_parse_request_uri :: "string \<Rightarrow> (string \<times> string) option"

text \<open>Decimal digits with an optional sign, in the range of a 64-bit \<open>int\<close>.\<close>

definition atoi :: "string \<Rightarrow> int option" where
  "atoi s =
     (let negative = (s \<noteq> [] \<and> hd s = CHR ''-'');
          digits = (if s \<noteq> [] \<and> (hd s = CHR ''-'' \<or> hd s = CHR ''+'') then tl s else s);
          value = (if negative then - int (read_nat digits) else int (read_nat digits))
      in if digits = [] \<or> \<not> list_all is_digit digits then None
         else if value < - 9223372036854775808 \<or> value > max_int64 then None
         else Some value)"

definition parse_bool :: "string \<Rightarrow> bool option" where
  "parse_bool s =
     (if s \<in> {''1'', ''t'', ''T'', ''true'', ''TRUE'', ''True''} then Some True
      else if s \<in> {''0'', ''f'', ''F'', ''false'', ''FALSE'', ''False''} then Some False
      else None)"

definition format_bool :: "bool \<Rightarrow> string" where
  "format_bool b = (if b then ''true'' else ''false'')"

fun split_char :: "char \<Rightarrow> string \<Rightarrow> string list" where
  "split_char c [] = [[]]"
| "split_char c (x # xs) = (if x = c then [] # split_char c xs
     else case split_char c xs of [] \<Rightarrow> [[x]] | w # ws \<Rightarrow> (x # w) # ws)"

definition trim_right_char :: "char \<Rightarrow> string \<Rightarrow> string" where
  "trim_right_char c s = rev (dropWhile (\<lambda>x. x = c) (rev s))"

section \<open>One variable\<close>

type_synonym lookup_env = "string \<Rightarrow> string option"

definition string_value :: "lookup_env \<Rightarrow> string \<Rightarrow> string \<Rightarrow> string" where
  "string_value lookup key fallback = (case lookup key of
     None \<Rightarrow> fallback | Some v \<Rightarrow> if trim_space v = [] then fallback else v)"

definition mode_postgres :: string where "mode_postgres = ''postgres''"
definition mode_mock :: string where "mode_mock = ''mock''"

definition mode_value :: "lookup_env \<Rightarrow> string + string" where
  "mode_value lookup =
     (let mode = lower_to_ascii (trim_space (string_value lookup ''GOODQUEUE_MODE'' mode_postgres)) in
      if mode = mode_postgres \<or> mode = mode_mock then Inr mode
      else Inl ''GOODQUEUE_MODE must be one of postgres, mock'')"

definition duration_value :: "go_library \<Rightarrow> lookup_env \<Rightarrow> string \<Rightarrow> int \<Rightarrow> string + int" where
  "duration_value gl lookup key fallback =
     (case gl_parse_duration gl (string_value lookup key (gl_duration_string gl fallback)) of
        None \<Rightarrow> Inl (key @ '' must be a positive duration'')
      | Some v \<Rightarrow> if v \<le> 0 then Inl (key @ '' must be a positive duration'') else Inr v)"

definition bounded_duration_value :: "go_library \<Rightarrow> lookup_env \<Rightarrow> string \<Rightarrow> int \<Rightarrow> int \<Rightarrow> string + int" where
  "bounded_duration_value gl lookup key fallback maximum =
     bindE (duration_value gl lookup key fallback) (\<lambda>v.
     if v > maximum then Inl (key @ '' must not exceed '' @ gl_duration_string gl maximum) else Inr v)"

definition integer_value :: "lookup_env \<Rightarrow> string \<Rightarrow> int \<Rightarrow> int option" where
  "integer_value lookup key fallback = atoi (string_value lookup key (show_int fallback))"

definition positive_int_value :: "lookup_env \<Rightarrow> string \<Rightarrow> int \<Rightarrow> string + int" where
  "positive_int_value lookup key fallback = (case integer_value lookup key fallback of
     None \<Rightarrow> Inl (key @ '' must be a positive integer'')
   | Some v \<Rightarrow> if v \<le> 0 then Inl (key @ '' must be a positive integer'') else Inr v)"

definition non_negative_int_value :: "lookup_env \<Rightarrow> string \<Rightarrow> int \<Rightarrow> string + int" where
  "non_negative_int_value lookup key fallback = (case integer_value lookup key fallback of
     None \<Rightarrow> Inl (key @ '' must be a non-negative integer'')
   | Some v \<Rightarrow> if v < 0 then Inl (key @ '' must be a non-negative integer'') else Inr v)"

definition bounded_int_value :: "lookup_env \<Rightarrow> string \<Rightarrow> int \<Rightarrow> int \<Rightarrow> int \<Rightarrow> string + int" where
  "bounded_int_value lookup key fallback minimum maximum =
     (let message = key @ '' must be an integer between '' @ show_int minimum @ '' and '' @ show_int maximum in
      case integer_value lookup key fallback of
        None \<Rightarrow> Inl message
      | Some v \<Rightarrow> if v < minimum \<or> v > maximum then Inl message else Inr v)"

definition bool_value :: "lookup_env \<Rightarrow> string \<Rightarrow> bool \<Rightarrow> string + bool" where
  "bool_value lookup key fallback = (case parse_bool (string_value lookup key (format_bool fallback)) of
     None \<Rightarrow> Inl (key @ '' must be a boolean'') | Some v \<Rightarrow> Inr v)"

definition comma_separated_value :: "lookup_env \<Rightarrow> string \<Rightarrow> string \<Rightarrow> string list" where
  "comma_separated_value lookup key fallback =
     fold (\<lambda>item values. let value = trim_space item in
        if value = [] \<or> value \<in> set values then values else values @ [value])
       (split_char (CHR '','') (string_value lookup key fallback)) []"

definition optional_http_url_value :: "go_library \<Rightarrow> lookup_env \<Rightarrow> string \<Rightarrow> string + string" where
  "optional_http_url_value gl lookup key = (case lookup key of
     None \<Rightarrow> Inr []
   | Some raw \<Rightarrow>
       let value = trim_space raw in
       if value = [] then Inr []
       else case gl_parse_request_uri gl value of
         None \<Rightarrow> Inl (key @ '' must be an absolute HTTP URL'')
       | Some (scheme, host) \<Rightarrow>
           if host = [] \<or> scheme \<noteq> ''http'' \<and> scheme \<noteq> ''https''
           then Inl (key @ '' must be an absolute HTTP URL'')
           else Inr (trim_right_char (CHR ''/'') value))"

section \<open>The configuration\<close>

definition seconds :: "int \<Rightarrow> int" where "seconds n = n * 1000000000"
definition minutes :: "int \<Rightarrow> int" where "minutes n = n * seconds 60"
definition hours :: "int \<Rightarrow> int" where "hours n = n * minutes 60"

definition max_waiting_buffer :: int where "max_waiting_buffer = 500"
definition max_worker_batch :: int where "max_worker_batch = 1000"
definition max_loadtest_window :: int where "max_loadtest_window = 30 * hours 24"
definition max_outbox_lease :: int where "max_outbox_lease = hours 1"
definition max_outbox_retry :: int where "max_outbox_retry = hours 24"
definition max_publisher_timeout :: int where "max_publisher_timeout = minutes 5"

text \<open>The flat struct of the source, grouped by the sections of \<open>LoadFrom\<close>.\<close>

record server_config =
  sv_mode :: string
  sv_http_address :: string
  sv_cors_origins :: "string list"
  sv_read_header_timeout :: int
  sv_database_url :: string
  sv_shutdown_timeout :: int
  sv_ping_timeout :: int
  sv_max_open :: int
  sv_max_idle :: int
  sv_lifetime :: int
  sv_log_level :: string

record queue_config =
  qc_worker_interval :: int
  qc_invitation_ttl :: int
  qc_checkout_ttl :: int
  qc_waiting_buffer :: int
  qc_unsafe_stock :: bool
  qc_unsafe_payment :: bool
  qc_batch_size :: int
  qc_max_products :: int
  qc_max_outbox :: int
  qc_lease :: int
  qc_retry_base :: int
  qc_retry_max :: int
  qc_publisher_timeout :: int

record services_config =
  se_ai_enabled :: bool
  se_api_key :: string
  se_base_url :: string
  se_embedding_model :: string
  se_embedding_timeout :: int
  se_prometheus_url :: string
  se_success_window :: int

record adaptive_settings =
  ad_enabled :: bool
  ad_interval :: int
  ad_min_http :: int
  ad_min_checkout :: int
  ad_min_success :: int
  ad_min_buffer :: int
  ad_max_buffer :: int
  ad_max_step :: int

record app_config =
  cf_server :: server_config
  cf_queue :: queue_config
  cf_services :: services_config
  cf_adaptive :: adaptive_settings

definition load_server :: "go_library \<Rightarrow> lookup_env \<Rightarrow> string + server_config" where
  "load_server gl lookup =
     bindE (mode_value lookup) (\<lambda>mode.
     let database_url = (case lookup ''GOODQUEUE_DATABASE_URL'' of None \<Rightarrow> [] | Some v \<Rightarrow> trim_space v) in
     if mode = mode_postgres \<and> database_url = [] then Inl ''GOODQUEUE_DATABASE_URL is required'' else
     bindE (duration_value gl lookup ''GOODQUEUE_SHUTDOWN_TIMEOUT'' (seconds 10)) (\<lambda>shutdown.
     bindE (duration_value gl lookup ''GOODQUEUE_HTTP_READ_HEADER_TIMEOUT'' (seconds 5)) (\<lambda>read_header.
     bindE (duration_value gl lookup ''GOODQUEUE_DATABASE_PING_TIMEOUT'' (seconds 2)) (\<lambda>ping.
     bindE (positive_int_value lookup ''GOODQUEUE_DATABASE_MAX_OPEN_CONNS'' 20) (\<lambda>max_open.
     bindE (non_negative_int_value lookup ''GOODQUEUE_DATABASE_MAX_IDLE_CONNS'' 10) (\<lambda>max_idle.
     if max_idle > max_open
     then Inl ''GOODQUEUE_DATABASE_MAX_IDLE_CONNS must not exceed GOODQUEUE_DATABASE_MAX_OPEN_CONNS'' else
     bindE (duration_value gl lookup ''GOODQUEUE_DATABASE_CONN_MAX_LIFETIME'' (minutes 30)) (\<lambda>lifetime.
     Inr \<lparr>sv_mode = mode, sv_http_address = string_value lookup ''GOODQUEUE_HTTP_ADDRESS'' '':8080'',
       sv_cors_origins = comma_separated_value lookup ''GOODQUEUE_CORS_ALLOWED_ORIGINS''
         ''http://localhost:5173,http://127.0.0.1:5173'',
       sv_read_header_timeout = read_header, sv_database_url = database_url, sv_shutdown_timeout = shutdown,
       sv_ping_timeout = ping, sv_max_open = max_open, sv_max_idle = max_idle, sv_lifetime = lifetime,
       sv_log_level = string_value lookup ''GOODQUEUE_LOG_LEVEL'' ''info''\<rparr>)))))))"

definition load_queue :: "go_library \<Rightarrow> lookup_env \<Rightarrow> string + queue_config" where
  "load_queue gl lookup =
     bindE (duration_value gl lookup ''GOODQUEUE_WORKER_INTERVAL'' (seconds 1)) (\<lambda>interval.
     bindE (duration_value gl lookup ''GOODQUEUE_INVITATION_TTL'' (minutes 10)) (\<lambda>invitation_ttl.
     bindE (duration_value gl lookup ''GOODQUEUE_CHECKOUT_TTL'' (minutes 5)) (\<lambda>checkout_ttl.
     bindE (bounded_int_value lookup ''GOODQUEUE_WAITING_BUFFER_PERCENT'' 100 0 max_waiting_buffer) (\<lambda>buffer.
     bindE (bool_value lookup ''GOODQUEUE_UNSAFE_STOCK_ADJUSTMENT'' False) (\<lambda>unsafe_stock.
     bindE (bool_value lookup ''GOODQUEUE_UNSAFE_PAYMENT_CALLBACK'' False) (\<lambda>unsafe_payment.
     bindE (bounded_int_value lookup ''GOODQUEUE_RECONCILIATION_TRANSITION_BATCH_SIZE'' 100 1 max_worker_batch) (\<lambda>batch.
     bindE (bounded_int_value lookup ''GOODQUEUE_MAX_PRODUCTS_PER_CYCLE'' 100 1 max_worker_batch) (\<lambda>max_products.
     bindE (bounded_int_value lookup ''GOODQUEUE_MAX_OUTBOX_ITEMS_PER_CYCLE'' 100 1 max_worker_batch) (\<lambda>max_outbox.
     bindE (bounded_duration_value gl lookup ''GOODQUEUE_OUTBOX_LEASE_DURATION'' (seconds 30) max_outbox_lease) (\<lambda>lease.
     bindE (bounded_duration_value gl lookup ''GOODQUEUE_OUTBOX_RETRY_BASE_DURATION'' (seconds 5) max_outbox_retry) (\<lambda>retry_base.
     bindE (bounded_duration_value gl lookup ''GOODQUEUE_OUTBOX_RETRY_MAX_DURATION'' (minutes 15) max_outbox_retry) (\<lambda>retry_max.
     if retry_base > retry_max
     then Inl ''GOODQUEUE_OUTBOX_RETRY_BASE_DURATION must not exceed GOODQUEUE_OUTBOX_RETRY_MAX_DURATION'' else
     bindE (bounded_duration_value gl lookup ''GOODQUEUE_PUBLISHER_TIMEOUT'' (seconds 5) max_publisher_timeout) (\<lambda>publisher.
     if publisher > lease div 2
     then Inl ''GOODQUEUE_OUTBOX_LEASE_DURATION must be at least twice GOODQUEUE_PUBLISHER_TIMEOUT'' else
     Inr \<lparr>qc_worker_interval = interval, qc_invitation_ttl = invitation_ttl, qc_checkout_ttl = checkout_ttl,
       qc_waiting_buffer = buffer, qc_unsafe_stock = unsafe_stock, qc_unsafe_payment = unsafe_payment,
       qc_batch_size = batch, qc_max_products = max_products, qc_max_outbox = max_outbox, qc_lease = lease,
       qc_retry_base = retry_base, qc_retry_max = retry_max, qc_publisher_timeout = publisher\<rparr>)))))))))))))"

definition load_services :: "go_library \<Rightarrow> lookup_env \<Rightarrow> string + services_config" where
  "load_services gl lookup =
     bindE (bool_value lookup ''GOODQUEUE_RECOMMENDATIONS_AI_ENABLED'' False) (\<lambda>ai_enabled.
     let api_key = trim_space (string_value lookup ''GOODQUEUE_OPENAI_API_KEY'' []) in
     if ai_enabled \<and> api_key = []
     then Inl ''GOODQUEUE_OPENAI_API_KEY is required when AI recommendations are enabled'' else
     bindE (duration_value gl lookup ''GOODQUEUE_OPENAI_EMBEDDING_TIMEOUT'' (seconds 8)) (\<lambda>embedding_timeout.
     bindE (optional_http_url_value gl lookup ''GOODQUEUE_LOADTEST_PROMETHEUS_URL'') (\<lambda>prometheus_url.
     bindE (bounded_duration_value gl lookup ''GOODQUEUE_LOADTEST_SUCCESS_RATE_WINDOW'' (minutes 30) max_loadtest_window) (\<lambda>window.
     Inr \<lparr>se_ai_enabled = ai_enabled, se_api_key = api_key,
       se_base_url = string_value lookup ''GOODQUEUE_OPENAI_BASE_URL'' ''https://api.openai.com/v1'',
       se_embedding_model = string_value lookup ''GOODQUEUE_OPENAI_EMBEDDING_MODEL'' ''text-embedding-3-small'',
       se_embedding_timeout = embedding_timeout, se_prometheus_url = prometheus_url, se_success_window = window\<rparr>))))"

definition load_adaptive ::
  "go_library \<Rightarrow> lookup_env \<Rightarrow> string \<Rightarrow> int \<Rightarrow> string \<Rightarrow> string + adaptive_settings" where
  "load_adaptive gl lookup mode waiting_buffer prometheus_url =
     bindE (bool_value lookup ''GOODQUEUE_ADAPTIVE_QUEUE_ENABLED'' False) (\<lambda>enabled.
     bindE (bounded_duration_value gl lookup ''GOODQUEUE_ADAPTIVE_QUEUE_INTERVAL'' (minutes 1) max_loadtest_window) (\<lambda>interval.
     bindE (positive_int_value lookup ''GOODQUEUE_ADAPTIVE_QUEUE_MIN_HTTP_REQUESTS'' 100) (\<lambda>min_http.
     bindE (positive_int_value lookup ''GOODQUEUE_ADAPTIVE_QUEUE_MIN_CHECKOUT_OUTCOMES'' 20) (\<lambda>min_checkout.
     bindE (bounded_int_value lookup ''GOODQUEUE_ADAPTIVE_QUEUE_MIN_HTTP_SUCCESS_PERCENT'' 95 0 100) (\<lambda>min_success.
     bindE (bounded_int_value lookup ''GOODQUEUE_ADAPTIVE_QUEUE_MIN_BUFFER_PERCENT'' 0 0 max_waiting_buffer) (\<lambda>min_buffer.
     bindE (bounded_int_value lookup ''GOODQUEUE_ADAPTIVE_QUEUE_MAX_BUFFER_PERCENT'' 500 0 max_waiting_buffer) (\<lambda>max_buffer.
     bindE (bounded_int_value lookup ''GOODQUEUE_ADAPTIVE_QUEUE_MAX_STEP_PERCENT'' 25 1 max_waiting_buffer) (\<lambda>max_step.
     if min_buffer > waiting_buffer \<or> waiting_buffer > max_buffer
     then Inl (''adaptive queue buffer percentages must satisfy GOODQUEUE_ADAPTIVE_QUEUE_MIN_BUFFER_PERCENT <= '' @
       ''GOODQUEUE_WAITING_BUFFER_PERCENT <= GOODQUEUE_ADAPTIVE_QUEUE_MAX_BUFFER_PERCENT'')
     else if max_step > max_buffer
     then Inl (''GOODQUEUE_ADAPTIVE_QUEUE_MAX_STEP_PERCENT must not exceed '' @
       ''GOODQUEUE_ADAPTIVE_QUEUE_MAX_BUFFER_PERCENT'')
     else if enabled \<and> mode \<noteq> mode_postgres
     then Inl ''GOODQUEUE_ADAPTIVE_QUEUE_ENABLED requires GOODQUEUE_MODE=postgres''
     else if enabled \<and> prometheus_url = []
     then Inl (''GOODQUEUE_LOADTEST_PROMETHEUS_URL is required when '' @ ''GOODQUEUE_ADAPTIVE_QUEUE_ENABLED=true'')
     else Inr \<lparr>ad_enabled = enabled, ad_interval = interval, ad_min_http = min_http, ad_min_checkout = min_checkout,
       ad_min_success = min_success, ad_min_buffer = min_buffer, ad_max_buffer = max_buffer, ad_max_step = max_step\<rparr>))))))))"

definition load_from :: "go_library \<Rightarrow> lookup_env \<Rightarrow> string + app_config" where
  "load_from gl lookup =
     bindE (load_server gl lookup) (\<lambda>server.
     bindE (load_queue gl lookup) (\<lambda>queue.
     bindE (load_services gl lookup) (\<lambda>services.
     bindE (load_adaptive gl lookup (sv_mode server) (qc_waiting_buffer queue) (se_prometheus_url services)) (\<lambda>adaptive.
     Inr \<lparr>cf_server = server, cf_queue = queue, cf_services = services, cf_adaptive = adaptive\<rparr>))))"

text \<open>What the application builds the adaptive controller from (\<open>internal/app/app.go\<close>).\<close>

definition adaptive_config_of :: "'f float_ops \<Rightarrow> app_config \<Rightarrow> 'f adaptive_config" where
  "adaptive_config_of fo c =
     \<lparr>ac_enabled = ad_enabled (cf_adaptive c), ac_base = qc_waiting_buffer (cf_queue c),
      ac_minimum = ad_min_buffer (cf_adaptive c), ac_maximum = ad_max_buffer (cf_adaptive c),
      ac_step = ad_max_step (cf_adaptive c), ac_interval = ad_interval (cf_adaptive c),
      ac_window = se_success_window (cf_services c), ac_min_http = ad_min_http (cf_adaptive c),
      ac_min_checkout = ad_min_checkout (cf_adaptive c),
      ac_min_success = fo_of_int fo (ad_min_success (cf_adaptive c))\<rparr>"

end
