(* ===== verification/Control_Properties.thy ===== *)
theory Control_Properties
  imports Complex_Main Config Queue_Properties
begin

text \<open>
  The control plane: the adaptive controller keeps the percentage where the configuration allows
  it, so that the waiting room stays bounded whatever the metrics say, and a configuration that
  \<open>LoadFrom\<close> accepts satisfies what the rest of the server relies on.
\<close>

section \<open>The adaptive controller\<close>

lemma percent_after_rounds:
  assumes new: "new_controller fo config has_metrics (Some (ac_base config)) = Inr c"
    and range: "2 * ac_maximum config \<le> max_int64"
    and run: "c' = run_controller fo rounds c" and once_more: "c'' = refresh fo metrics now c'"
  shows "ac_minimum config \<le> ct_source c' \<and> ct_source c' \<le> ac_maximum config \<and>
     sh_current (ct_snapshot c') = ct_source c' \<and>
     \<bar>ct_source c'' - ct_source c'\<bar> \<le> ac_step config \<and>
     (ct_source c'' \<noteq> ct_source c' \<longrightarrow> sh_reason (ct_snapshot c'') = ReasonApplied)"
proof -
  note N = new_controller_ok [OF new range]
  have ok: "controller_ok fo c'" "ct_config c' = config"
    using run_controller_ok [OF N(1)] N(2) run by auto
  then show ?thesis using refresh_percent [OF ok(1) once_more] ok by (auto simp: controller_ok_def)
qed

text \<open>Exact arithmetic, and a controller that has seen one purchase in two.\<close>

definition exact_ops :: "rat float_ops" where
  "exact_ops = \<lparr>fo_of_int = of_int, fo_less = (<), fo_less_eq = (\<le>), fo_add = (+), fo_sub = (-),
     fo_mul = (*), fo_div = (/), fo_round = (\<lambda>x. of_int (round x)), fo_ceil = (\<lambda>x. of_int \<lceil>x\<rceil>), fo_to_int = floor\<rparr>"

definition demo_adaptive :: "rat adaptive_config" where
  "demo_adaptive = \<lparr>ac_enabled = True, ac_base = 200, ac_minimum = 0, ac_maximum = 500, ac_step = 25,
     ac_interval = 60, ac_window = 1800, ac_min_http = 10, ac_min_checkout = 2, ac_min_success = 95\<rparr>"

definition demo_metrics :: "rat metrics_reader" where
  "demo_metrics = \<lparr>mr_requests = (\<lambda>w. Some \<lparr>rs_successful = 100, rs_total = 100\<rparr>),
     mr_purchases = (\<lambda>w. Some \<lparr>pu_purchased = 2, pu_cancelled = 1, pu_checkout_expired = 1\<rparr>)\<rparr>"

lemma demo_controller:
  obtains c where "new_controller exact_ops demo_adaptive True (Some (ac_base demo_adaptive)) = Inr c"
    and "ct_source (run_controller exact_ops [(demo_metrics, 1), (demo_metrics, 2)] c) = 150"
proof -
  let ?n = "new_controller exact_ops demo_adaptive True (Some (ac_base demo_adaptive))"
  have n: "?n = Inr (projr ?n)"
    by (simp add: new_controller_def validate_config_def exact_ops_def demo_adaptive_def)
  have "ct_source (run_controller exact_ops [(demo_metrics, 1), (demo_metrics, 2)] (projr ?n)) = 150"
    by (simp add: new_controller_def validate_config_def exact_ops_def demo_adaptive_def demo_metrics_def
        run_controller_def refresh_def percentage_def apply_target_def target_percent_def clamp_def bounded_step_def
        i64_def Let_def)
  then show thesis using that n by blast
qed

lemma capacity_bound:
  assumes "waiting_capacity stock percent = Inr c" and "stock \<le> max_int32" and "percent \<le> limit" and "limit \<le> 500"
  shows "100 * c < stock * limit + 100"
proof -
  have r: "0 \<le> stock" "0 \<le> percent" using assms(1) by (auto simp: waiting_capacity_def split: if_splits)
  have "stock * percent \<le> stock * limit" using r assms(3) by (simp add: mult_left_mono)
  moreover have "stock * limit \<le> 2147483647 * 500"
    using r assms(2-4) by (intro mult_mono) (auto simp: max_int32_def)
  moreover have "0 \<le> stock * percent" using r by simp
  ultimately have p: "stock * percent \<le> stock * limit" "0 \<le> stock * percent" "stock * percent \<le> 2147483647 * 500" by auto
  then have "i64 (stock * percent) = stock * percent" "i64 (stock * percent + 99) = stock * percent + 99"
    by (auto intro!: i64_id simp: max_int64_def)
  then have "c = (stock * percent + 99) div 100"
    using assms(1) by (auto simp: waiting_capacity_def Let_def split: if_splits)
  then show ?thesis using p(1) by linarith
qed

lemma admitted_within:
  assumes new: "new_controller fo config has_metrics (Some (ac_base config)) = Inr c" and limit: "ac_maximum config \<le> 500"
    and inv: "db_inv d"
    and call: "join (rp\<lparr>rp_buffer_percent := ct_source (run_controller fo rounds c)\<rparr>) env d cmd = (d', Some r, e)"
    and admitted: "jr_created r" "jr_attempt r = Some a" "qa_state a = Waiting"
  shows "\<exists>p\<in>set (db_products d'). pr_id p = jq_product cmd \<and>
     100 * int (length (waiting_for (jq_product cmd) (db_attempts d'))) < pr_stock p * ac_maximum config + 100"
proof -
  have "2 * ac_maximum config \<le> max_int64" using limit by (simp add: max_int64_def)
  note N = new_controller_ok [OF new this]
  have percent: "ct_source (run_controller fo rounds c) \<le> ac_maximum config"
    using run_controller_ok [OF N(1)] N(2) by (auto simp: controller_ok_def)
  obtain p cap where p: "p \<in> set (db_products d')" "pr_id p = jq_product cmd"
    and cap: "waiting_capacity (pr_stock p) (ct_source (run_controller fo rounds c)) = Inr cap"
      "int (length (waiting_for (jq_product cmd) (db_attempts d'))) \<le> cap"
    using waiting_room_facts [OF inv call admitted] by auto
  have "db_inv d'" using join_sound [OF inv] call by (metis fst_conv sound_step_def)
  then have "pr_stock p \<le> max_int32" using db_invD(3) p(1) by (auto simp: product_ok_def)
  from capacity_bound [OF cap(1) this percent limit] show ?thesis using p cap(2) by (intro bexI [of _ p]) auto
qed

text \<open>
  C32. The percentage and the waiting room are under control: from its creation with the base
  percentage on, after any sequence of refreshes with any statistics and any floating point
  arithmetic, the percentage lies between the configured minimum and maximum and the snapshot shows
  it; one more refresh moves it by at most the configured step, and only as an applied change; and
  a customer whom a Join with this percentage admits to wait is one of fewer than
  \<open>stock * maximum / 100 + 1\<close>.
\<close>

theorem adaptive_waiting_room:
  assumes new: "new_controller fo config has_metrics (Some (ac_base config)) = Inr c" and limit: "ac_maximum config \<le> 500"
    and run: "c' = run_controller fo rounds c" and once_more: "c'' = refresh fo metrics now c'"
  shows "ac_minimum config \<le> ct_source c' \<and> ct_source c' \<le> ac_maximum config \<and>
     sh_current (ct_snapshot c') = ct_source c' \<and>
     \<bar>ct_source c'' - ct_source c'\<bar> \<le> ac_step config \<and>
     (ct_source c'' \<noteq> ct_source c' \<longrightarrow> sh_reason (ct_snapshot c'') = ReasonApplied) \<and>
     (\<forall>d rp env cmd d' r e a. db_inv d \<longrightarrow>
        join (rp\<lparr>rp_buffer_percent := ct_source c'\<rparr>) env d cmd = (d', Some r, e) \<longrightarrow>
        jr_created r \<longrightarrow> jr_attempt r = Some a \<longrightarrow> qa_state a = Waiting \<longrightarrow>
        (\<exists>p\<in>set (db_products d'). pr_id p = jq_product cmd \<and>
           100 * int (length (waiting_for (jq_product cmd) (db_attempts d'))) < pr_stock p * ac_maximum config + 100))"
proof -
  have "2 * ac_maximum config \<le> max_int64" using limit by (simp add: max_int64_def)
  then show ?thesis
    using percent_after_rounds [OF new _ run once_more] admitted_within [OF new limit, where rounds = rounds] run by blast
qed

lemma adaptive_waiting_room_witness:
  "\<exists>(c :: rat controller) d' r e p. ct_source c = 150 \<and>
     \<bar>ct_source (refresh exact_ops demo_metrics 3 c) - 150\<bar> \<le> 25 \<and>
     join (demo_repo\<lparr>rp_buffer_percent := ct_source c\<rparr>) (demo_env 2) demo_one (demo_join 2) = (d', Some r, e) \<and>
     p \<in> set (db_products d') \<and> 100 * int (length (waiting_for 7 (db_attempts d'))) < pr_stock p * 500 + 100"
proof -
  obtain c where c: "new_controller exact_ops demo_adaptive True (Some (ac_base demo_adaptive)) = Inr c"
    "ct_source (run_controller exact_ops [(demo_metrics, 1), (demo_metrics, 2)] c) = 150" by (rule demo_controller)
  let ?c = "run_controller exact_ops [(demo_metrics, 1), (demo_metrics, 2)] c"
  let ?j = "join (demo_repo\<lparr>rp_buffer_percent := 150\<rparr>) (demo_env 2) demo_one (demo_join 2)"
  have "map_option jr_created (fst (snd ?j)) = Some True"
    "map_option (map_option qa_state \<circ> jr_attempt) (fst (snd ?j)) = Some (Some Waiting)" by code_simp+
  then obtain d' r a e where j: "?j = (d', Some r, e)" "jr_created r" "jr_attempt r = Some a" "qa_state a = Waiting"
    by (cases ?j) auto
  have m: "ac_maximum demo_adaptive = 500" "ac_step demo_adaptive = 25" "jq_product (demo_join 2) = 7"
    by (simp_all add: demo_adaptive_def demo_join_def)
  have "ac_maximum demo_adaptive \<le> 500" by (simp add: m)
  note facts = adaptive_waiting_room [OF c(1) this refl refl, where metrics = demo_metrics and now = 3
      and rounds = "[(demo_metrics, 1), (demo_metrics, 2)]"]
  note room = facts [THEN conjunct2, THEN conjunct2, THEN conjunct2, THEN conjunct2, THEN conjunct2, rule_format,
      OF demo_db_inv(2) j(1) [folded c(2)] j(2-4)]
  have "\<bar>ct_source (refresh exact_ops demo_metrics 3 ?c) - 150\<bar> \<le> 25"
    using facts [THEN conjunct2, THEN conjunct2, THEN conjunct2, THEN conjunct1] c(2) m(2) by simp
  moreover obtain p where "p \<in> set (db_products d')"
    "100 * int (length (waiting_for 7 (db_attempts d'))) < pr_stock p * 500 + 100"
    using room unfolding m by auto
  ultimately show ?thesis using c(2) j(1)
    by (intro exI [of _ ?c] exI [of _ d'] exI [of _ r] exI [of _ e] exI [of _ p]) simp
qed

section \<open>The configuration\<close>

lemma duration_value_Inr: "duration_value gl lookup key fallback = Inr v \<Longrightarrow> 0 < v"
  by (auto simp: duration_value_def split: option.splits if_splits)

lemma bounded_duration_value_Inr:
  "bounded_duration_value gl lookup key fallback m = Inr v \<Longrightarrow> 0 < v \<and> v \<le> m"
  by (auto simp: bounded_duration_value_def dest: duration_value_Inr split: if_splits)

lemma integer_values_Inr:
  "positive_int_value lookup key fallback = Inr v \<Longrightarrow> 0 < v"
  "non_negative_int_value lookup key fallback = Inr v \<Longrightarrow> 0 \<le> v"
  "bounded_int_value lookup key fallback lo hi = Inr v \<Longrightarrow> lo \<le> v \<and> v \<le> hi"
  by (auto simp: positive_int_value_def non_negative_int_value_def bounded_int_value_def Let_def
      split: option.splits if_splits)

lemmas value_Inr = duration_value_Inr bounded_duration_value_Inr integer_values_Inr

lemma load_server_Inr:
  assumes "load_server gl lookup = Inr s"
  shows "(sv_mode s = mode_postgres \<and> sv_database_url s \<noteq> [] \<or> sv_mode s = mode_mock) \<and>
     0 \<le> sv_max_idle s \<and> sv_max_idle s \<le> sv_max_open s \<and> 0 < sv_max_open s \<and>
     0 < sv_shutdown_timeout s \<and> 0 < sv_read_header_timeout s \<and> 0 < sv_ping_timeout s \<and> 0 < sv_lifetime s"
  using assms
  by (auto simp: load_server_def mode_value_def Let_def dest!: value_Inr split: if_splits)

lemma load_queue_Inr:
  assumes "load_queue gl lookup = Inr q"
  shows "0 < qc_worker_interval q \<and> 0 < qc_invitation_ttl q \<and> 0 < qc_checkout_ttl q \<and>
     0 \<le> qc_waiting_buffer q \<and> qc_waiting_buffer q \<le> 500 \<and>
     1 \<le> qc_batch_size q \<and> 1 \<le> qc_max_products q \<and> 1 \<le> qc_max_outbox q \<and>
     0 < qc_retry_base q \<and> qc_retry_base q \<le> qc_retry_max q \<and>
     0 < qc_publisher_timeout q \<and> 2 * qc_publisher_timeout q \<le> qc_lease q"
  using assms
  by (auto simp: load_queue_def max_waiting_buffer_def dest!: value_Inr split: if_splits)

lemma load_services_Inr:
  "load_services gl lookup = Inr s \<Longrightarrow> 0 < se_success_window s \<and> (se_ai_enabled s \<longrightarrow> se_api_key s \<noteq> [])"
  by (auto simp: load_services_def Let_def dest!: value_Inr split: if_splits)

lemma load_adaptive_Inr:
  assumes "load_adaptive gl lookup mode buffer url = Inr a"
  shows "0 < ad_interval a \<and> 0 < ad_min_http a \<and> 0 < ad_min_checkout a \<and>
     0 \<le> ad_min_success a \<and> ad_min_success a \<le> 100 \<and>
     0 \<le> ad_min_buffer a \<and> ad_min_buffer a \<le> buffer \<and> buffer \<le> ad_max_buffer a \<and> ad_max_buffer a \<le> 500 \<and>
     1 \<le> ad_max_step a \<and> ad_max_step a \<le> ad_max_buffer a \<and>
     (ad_enabled a \<longrightarrow> mode = mode_postgres \<and> url \<noteq> [])"
  using assms
  by (auto simp: load_adaptive_def max_waiting_buffer_def dest!: value_Inr split: if_splits)

lemma load_from_Inr:
  assumes "load_from gl lookup = Inr c"
  shows "load_server gl lookup = Inr (cf_server c)" and "load_queue gl lookup = Inr (cf_queue c)"
    and "load_services gl lookup = Inr (cf_services c)"
    and "load_adaptive gl lookup (sv_mode (cf_server c)) (qc_waiting_buffer (cf_queue c)) (se_prometheus_url (cf_services c)) =
      Inr (cf_adaptive c)"
  using assms by (auto simp: load_from_def)

lemma loaded_controller:
  assumes load: "load_from gl lookup = Inr c"
    and float: "\<forall>i. 0 \<le> i \<and> i \<le> 100 \<longrightarrow>
      \<not> fo_less fo (fo_of_int fo i) (fo_of_int fo 0) \<and> \<not> fo_less fo (fo_of_int fo 100) (fo_of_int fo i)"
    and metrics: "ad_enabled (cf_adaptive c) \<longrightarrow> has_metrics"
  obtains ct where "new_controller fo (adaptive_config_of fo c) has_metrics (Some (qc_waiting_buffer (cf_queue c))) = Inr ct"
    and "controller_ok fo ct" and "ct_config ct = adaptive_config_of fo c"
proof -
  note parts = load_from_Inr [OF load]
  note Q = load_queue_Inr [OF parts(2)] and S = load_services_Inr [OF parts(3)] and A = load_adaptive_Inr [OF parts(4)]
  have "validate_config fo (adaptive_config_of fo c) = None"
    using Q S A float by (simp add: validate_config_def adaptive_config_of_def)
  then obtain ct where ct: "new_controller fo (adaptive_config_of fo c) has_metrics
      (Some (ac_base (adaptive_config_of fo c))) = Inr ct"
    using A metrics by (simp add: new_controller_def) (simp add: adaptive_config_of_def)
  have "2 * ac_maximum (adaptive_config_of fo c) \<le> max_int64"
    using A by (simp add: adaptive_config_of_def max_int64_def)
  from new_controller_ok [OF ct this] show thesis
    using that ct by (simp add: adaptive_config_of_def)
qed

text \<open>
  C33. A loaded configuration can be trusted: every environment that \<open>LoadFrom\<close> accepts gives
  positive lifetimes and timeouts, a waiting buffer of at most 500 percent, at least one item per
  worker cycle, a retry base not above its maximum and a lease of at least two publisher
  timeouts, and the adaptive controller it is used for is always constructed. The comparison of
  small integers is assumed not to change when they are converted to floating point.
\<close>

theorem loaded_config_sound:
  assumes load: "load_from gl lookup = Inr c"
    and float: "\<forall>i. 0 \<le> i \<and> i \<le> 100 \<longrightarrow>
      \<not> fo_less fo (fo_of_int fo i) (fo_of_int fo 0) \<and> \<not> fo_less fo (fo_of_int fo 100) (fo_of_int fo i)"
  shows "(let q = cf_queue c in
       0 < qc_invitation_ttl q \<and> 0 < qc_checkout_ttl q \<and> 0 \<le> qc_waiting_buffer q \<and> qc_waiting_buffer q \<le> 500 \<and>
       1 \<le> qc_batch_size q \<and> 1 \<le> qc_max_products q \<and> 1 \<le> qc_max_outbox q \<and>
       0 < qc_retry_base q \<and> qc_retry_base q \<le> qc_retry_max q \<and>
       0 < qc_publisher_timeout q \<and> 2 * qc_publisher_timeout q \<le> qc_lease q) \<and>
     (\<exists>ct. new_controller fo (adaptive_config_of fo c) (se_prometheus_url (cf_services c) \<noteq> [])
        (Some (qc_waiting_buffer (cf_queue c))) = Inr ct \<and> controller_ok fo ct)"
proof -
  note parts = load_from_Inr [OF load]
  have "ad_enabled (cf_adaptive c) \<longrightarrow> se_prometheus_url (cf_services c) \<noteq> []"
    using load_adaptive_Inr [OF parts(4)] by blast
  from loaded_controller [OF load float this] obtain ct
    where "new_controller fo (adaptive_config_of fo c) (se_prometheus_url (cf_services c) \<noteq> [])
        (Some (qc_waiting_buffer (cf_queue c))) = Inr ct" and "controller_ok fo ct" .
  then show ?thesis using load_queue_Inr [OF parts(2)] by (simp add: Let_def)
qed

text \<open>
  The defaults: \<open>Atoi\<close> reads back what \<open>Itoa\<close> writes, and an environment that names the database
  only gives the documented configuration.
\<close>

lemma atoi_show_int:
  assumes "- 9223372036854775808 \<le> i" and "i \<le> max_int64"
  shows "atoi (show_int i) = Some i"
proof -
  have digits: "list_all is_digit (show_nat n)" "hd (show_nat n) \<noteq> CHR ''-''" "hd (show_nat n) \<noteq> CHR ''+''" for n
  proof -
    show "list_all is_digit (show_nat n)" using show_nat_digits [of n] by (simp add: list_all_iff)
    have "hd (show_nat n) \<in> set (show_nat n)" by simp
    then have "is_digit (hd (show_nat n))" using show_nat_digits by blast
    then show "hd (show_nat n) \<noteq> CHR ''-''" "hd (show_nat n) \<noteq> CHR ''+''" by (auto simp: is_digit_def byte_of_def)
  qed
  show ?thesis using assms by (auto simp: atoi_def show_int_def digits Let_def)
qed

lemma defaults [simp]:
  assumes "lookup key = None"
  shows "string_value lookup key fb = fb"
    and "gl_parse_duration gl (gl_duration_string gl t) = Some t \<Longrightarrow> 0 < t \<Longrightarrow> duration_value gl lookup key t = Inr t"
    and "gl_parse_duration gl (gl_duration_string gl t) = Some t \<Longrightarrow> 0 < t \<Longrightarrow> t \<le> m \<Longrightarrow>
      bounded_duration_value gl lookup key t m = Inr t"
    and "0 < i \<Longrightarrow> i \<le> max_int64 \<Longrightarrow> positive_int_value lookup key i = Inr i"
    and "0 \<le> i \<Longrightarrow> i \<le> max_int64 \<Longrightarrow> non_negative_int_value lookup key i = Inr i"
    and "0 \<le> i \<Longrightarrow> i \<le> max_int64 \<Longrightarrow> lo \<le> i \<Longrightarrow> i \<le> hi \<Longrightarrow> bounded_int_value lookup key i lo hi = Inr i"
    and "bool_value lookup key b = Inr b"
    and "optional_http_url_value gl lookup key = Inr []"
proof -
  show t: "string_value lookup key fb = fb" for fb using assms by (simp add: string_value_def)
  show d: "gl_parse_duration gl (gl_duration_string gl t) = Some t \<Longrightarrow> 0 < t \<Longrightarrow> duration_value gl lookup key t = Inr t"
    by (simp add: duration_value_def t)
  then show "gl_parse_duration gl (gl_duration_string gl t) = Some t \<Longrightarrow> 0 < t \<Longrightarrow> t \<le> m \<Longrightarrow>
      bounded_duration_value gl lookup key t m = Inr t" by (simp add: bounded_duration_value_def)
  show "0 < i \<Longrightarrow> i \<le> max_int64 \<Longrightarrow> positive_int_value lookup key i = Inr i"
    "0 \<le> i \<Longrightarrow> i \<le> max_int64 \<Longrightarrow> non_negative_int_value lookup key i = Inr i"
    "0 \<le> i \<Longrightarrow> i \<le> max_int64 \<Longrightarrow> lo \<le> i \<Longrightarrow> i \<le> hi \<Longrightarrow> bounded_int_value lookup key i lo hi = Inr i"
    by (simp_all add: positive_int_value_def non_negative_int_value_def bounded_int_value_def integer_value_def t
        atoi_show_int Let_def)
  show "bool_value lookup key b = Inr b" by (cases b) (simp_all add: bool_value_def t format_bool_def parse_bool_def)
  show "optional_http_url_value gl lookup key = Inr []" using assms by (simp add: optional_http_url_value_def)
qed

lemmas duration_units = seconds_def minutes_def hours_def max_loadtest_window_def max_outbox_lease_def
  max_outbox_retry_def max_publisher_timeout_def

lemma trim_space_Nil: "trim_space [] = []"
  by code_simp

lemma default_sections:
  assumes durations: "\<And>t. 0 < t \<Longrightarrow> gl_parse_duration gl (gl_duration_string gl t) = Some t"
    and env: "\<And>key. key \<noteq> ''GOODQUEUE_DATABASE_URL'' \<Longrightarrow> lookup key = None"
  shows "load_queue gl lookup = Inr \<lparr>qc_worker_interval = seconds 1, qc_invitation_ttl = minutes 10,
      qc_checkout_ttl = minutes 5, qc_waiting_buffer = 100, qc_unsafe_stock = False, qc_unsafe_payment = False,
      qc_batch_size = 100, qc_max_products = 100, qc_max_outbox = 100, qc_lease = seconds 30,
      qc_retry_base = seconds 5, qc_retry_max = minutes 15, qc_publisher_timeout = seconds 5\<rparr>"
    and "load_services gl lookup = Inr \<lparr>se_ai_enabled = False, se_api_key = [],
      se_base_url = ''https://api.openai.com/v1'', se_embedding_model = ''text-embedding-3-small'',
      se_embedding_timeout = seconds 8, se_prometheus_url = [], se_success_window = minutes 30\<rparr>"
    and "load_adaptive gl lookup mode 100 [] = Inr \<lparr>ad_enabled = False, ad_interval = minutes 1, ad_min_http = 100,
      ad_min_checkout = 20, ad_min_success = 95, ad_min_buffer = 0, ad_max_buffer = 500, ad_max_step = 25\<rparr>"
  by (simp_all add: load_queue_def load_services_def load_adaptive_def trim_space_Nil env durations duration_units
      max_waiting_buffer_def max_worker_batch_def max_int64_def Let_def)

text \<open>Durations written as plain numbers, and an environment with the database only.\<close>

definition plain_library :: go_library where
  "plain_library = \<lparr>gl_parse_duration = (\<lambda>s. Some (int (length s))), gl_duration_string = (\<lambda>t. replicate (nat t) (CHR ''t'')),
     gl_parse_request_uri = (\<lambda>s. None)\<rparr>"

definition plain_environment :: lookup_env where
  "plain_environment key = (if key = ''GOODQUEUE_DATABASE_URL'' then Some ''postgres://db'' else None)"

lemma plain_load:
  obtains c where "load_from plain_library plain_environment = Inr c" and "qc_waiting_buffer (cf_queue c) = 100"
    and "se_prometheus_url (cf_services c) = []" and "\<not> se_ai_enabled (cf_services c)"
proof -
  have durations: "gl_parse_duration plain_library (gl_duration_string plain_library t) = Some t" if "0 < t" for t
    using that by (simp add: plain_library_def)
  have env: "plain_environment key = None" if "key \<noteq> ''GOODQUEUE_DATABASE_URL''" for key
    using that by (simp add: plain_environment_def)
  note sections = default_sections [of plain_library plain_environment, OF durations env]
  have mode: "mode_value plain_environment = Inr mode_postgres"
    "plain_environment ''GOODQUEUE_DATABASE_URL'' = Some ''postgres://db''" "trim_space ''postgres://db'' = ''postgres://db''"
    by code_simp+
  have "load_server plain_library plain_environment \<noteq> Inl m" for m
    by (simp add: load_server_def mode env durations duration_units max_int64_def Let_def)
  then obtain s where "load_server plain_library plain_environment = Inr s"
    by (cases "load_server plain_library plain_environment") auto
  then show thesis using that by (simp add: load_from_def sections)
qed

lemma loaded_config_sound_witness:
  "\<exists>c ct. load_from plain_library plain_environment = Inr c \<and> qc_waiting_buffer (cf_queue c) = 100 \<and>
     new_controller exact_ops (adaptive_config_of exact_ops c) False (Some 100) = Inr ct"
proof -
  obtain c where c: "load_from plain_library plain_environment = Inr c" "qc_waiting_buffer (cf_queue c) = 100"
    "se_prometheus_url (cf_services c) = []" by (rule plain_load)
  have "\<forall>i. 0 \<le> i \<and> i \<le> 100 \<longrightarrow> \<not> fo_less exact_ops (fo_of_int exact_ops i) (fo_of_int exact_ops 0) \<and>
      \<not> fo_less exact_ops (fo_of_int exact_ops 100) (fo_of_int exact_ops i)"
    by (auto simp: exact_ops_def not_less)
  from loaded_config_sound [OF c(1) this] show ?thesis using c by auto
qed

end
