(* ===== verification/Fixtures_Properties.thy ===== *)
theory Fixtures_Properties
  imports Fixtures
begin

text \<open>
  What the generator of the load test promises (\<open>data.go\<close>): the loops that hand products to users
  keep the two tables of the generator consistent, so that every fixture it returns is one the
  queue can serve.
\<close>

section \<open>Choosing products\<close>

text \<open>The documented contract of \<open>rand.Intn\<close>.\<close>

definition random_in_range :: "'g random_library \<Rightarrow> bool" where
  "random_in_range rl \<longleftrightarrow> (\<forall>n g. 0 < n \<longrightarrow> 0 \<le> fst (rl_intn rl n g) \<and> fst (rl_intn rl n g) < n)"

lemma random_in_rangeD:
  "random_in_range rl \<Longrightarrow> rl_intn rl n g = (k, g') \<Longrightarrow> 0 < n \<Longrightarrow> 0 \<le> k \<and> k < n"
  by (metis fst_conv random_in_range_def)

lemma product_candidates_facts:
  "i \<in> set (product_candidates products selected counts capacity wanted) \<Longrightarrow>
     i < length products \<and> i \<notin> selected \<and> counts ! i < capacity"
  by (auto simp: product_candidates_def)

lemma select_product_Inr:
  assumes fair: "random_in_range rl" and sel: "select_product rl products selected counts capacity g = (Inr i, g')"
  shows "i < length products \<and> i \<notin> selected \<and> counts ! i < capacity"
proof -
  let ?c = "product_candidates products selected counts capacity"
  obtain roll g1 where roll: "rl_intn rl 100 g = (roll, g1)" by fastforce
  define first where "first = ?c (if roll < 60 then ''hot'' else if roll < 90 then ''medium'' else ''normal'')"
  define cs where "cs = (if first = [] then ?c [] else first)"
  obtain k g2 where k: "rl_intn rl (int (length cs)) g1 = (k, g2)" by fastforce
  have eq: "select_product rl products selected counts capacity g =
      (if cs = [] then (Inl ''cannot allocate distinct products within LOADTEST_QUEUE_CAPACITY'', g1)
       else (Inr (cs ! nat k), g2))"
    by (simp add: select_product_def roll k flip: first_def cs_def)
  then have cs: "cs \<noteq> []" "i = cs ! nat k" using sel by (auto split: if_splits)
  have c: "\<exists>w. cs = ?c w" by (auto simp: cs_def first_def)
  have "nat k < length cs" using random_in_rangeD [OF fair k] cs(1) by auto
  then have "i \<in> set cs" using cs(2) by simp
  then show ?thesis using c product_candidates_facts by blast
qed

text \<open>
  The assignments of one user take distinct products, below the capacity as far as the counts know,
  and the counts grow by one for each of them.
\<close>

definition counts_for :: "nat list \<Rightarrow> int list \<Rightarrow> int list" where
  "counts_for picks counts = map (\<lambda>j. counts ! j + int (count_list picks j)) [0..<length counts]"

lemma counts_for_Nil [simp]: "counts_for [] counts = counts"
  by (simp add: counts_for_def map_nth)

lemma counts_for_Cons:
  "i < length counts \<Longrightarrow> counts_for (i # picks) counts = counts_for picks (counts[i := counts ! i + 1])"
  by (rule nth_equalityI) (auto simp: counts_for_def nth_list_update)

lemma counts_for_append: "counts_for (picks @ js) counts = counts_for js (counts_for picks counts)"
  by (rule nth_equalityI) (auto simp: counts_for_def count_list_append)

lemma length_counts_for [simp]: "length (counts_for picks counts) = length counts"
  by (simp add: counts_for_def)

definition planned_ok :: "load_config \<Rightarrow> load_assignment \<Rightarrow> bool" where
  "planned_ok c a \<longleftrightarrow>
     (if lc_scenario c \<noteq> scenario_purchase_outcomes
      then as_planned_outcome a = [] \<and> as_payment_event a = [] \<and> as_payment_reference a = []
      else as_planned_outcome a \<in> {''purchase'', ''cancel'', ''ttl''} \<and>
        (as_planned_outcome a \<noteq> ''purchase'' \<longrightarrow> as_payment_event a = [] \<and> as_payment_reference a = []))"

lemma plan_outcome_facts:
  assumes "random_in_range rl" and "plan_outcome rl le c user a g = (b, g')"
    and "as_planned_outcome a = [] \<and> as_payment_event a = [] \<and> as_payment_reference a = []"
  shows "planned_ok c b \<and> as_product b = as_product a \<and> as_key b = as_key a"
proof (cases "lc_scenario c \<noteq> scenario_purchase_outcomes")
  case True
  then show ?thesis using assms by (auto simp: plan_outcome_def planned_ok_def)
next
  case False
  obtain k g1 where k: "rl_intn rl 3 g = (k, g1)" by fastforce
  have "0 \<le> k" "k < 3" using random_in_rangeD [OF assms(1) k] by auto
  then have "k = 0 \<or> k = 1 \<or> k = 2" by arith
  then show ?thesis using False assms(2,3) k by (auto simp: plan_outcome_def planned_ok_def Let_def)
qed

definition user_ok :: "load_config \<Rightarrow> load_product list \<Rightarrow> nat list \<Rightarrow> load_assignment list \<Rightarrow> bool" where
  "user_ok c products picks as \<longleftrightarrow> distinct picks \<and> set picks \<subseteq> {..<length products} \<and>
     map as_product as = map (\<lambda>i. lo_id (products ! i)) picks \<and> list_all (planned_ok c) as"

lemma assign_products_Inr:
  assumes fair: "random_in_range rl"
    and "assign_products rl le c products user k selected counts g = (Inr (as, counts'), g')"
    and "length counts = length products" and "\<forall>n\<in>set counts. n \<le> lc_queue_capacity c"
  shows "\<exists>picks. length picks = k \<and> set picks \<inter> selected = {} \<and> user_ok c products picks as \<and>
     counts' = counts_for picks counts \<and> (\<forall>n\<in>set counts'. n \<le> lc_queue_capacity c)"
  using assms(2-)
proof (induction k arbitrary: selected counts g as)
  case 0
  then show ?case by (intro exI [of _ "[]"]) (simp add: user_ok_def)
next
  case (Suc k)
  obtain i g1 where s: "select_product rl products selected counts (lc_queue_capacity c) g = (Inr i, g1)"
    using Suc.prems(1) by (cases "select_product rl products selected counts (lc_queue_capacity c) g")
      (auto split: sum.splits)
  note S = select_product_Inr [OF fair s]
  obtain roll g2 where r: "rl_intn rl 100 g1 = (roll, g2)" by fastforce
  let ?a = "\<lparr>as_product = lo_id (products ! i), as_group = lo_group (products ! i),
    as_key = fixture_key le (lc_run_id c) user (lo_id (products ! i)),
    as_duplicate_join = roll < lc_duplicate_join_percent c, as_planned_outcome = [],
    as_payment_event = [], as_payment_reference = []\<rparr>"
  obtain a g3 where p: "plan_outcome rl le c user ?a g2 = (a, g3)" by fastforce
  let ?counts = "counts[i := counts ! i + 1]"
  obtain rest where t: "assign_products rl le c products user k (insert i selected) ?counts g3 =
      (Inr (rest, counts'), g')" and as: "as = a # rest"
    using Suc.prems(1) s r p by (auto split: sum.splits prod.splits)
  have P: "planned_ok c a" "as_product a = lo_id (products ! i)"
    using plan_outcome_facts [OF fair p] by simp_all
  have "\<forall>n\<in>set ?counts. n \<le> lc_queue_capacity c"
    using Suc.prems(3) S set_update_subset_insert [of counts i "counts ! i + 1"] by fastforce
  from Suc.IH [OF t _ this] Suc.prems(2) obtain "picks" where picks: "length picks = k" "set picks \<inter> insert i selected = {}"
    "user_ok c products picks rest" "counts' = counts_for picks ?counts" "\<forall>n\<in>set counts'. n \<le> lc_queue_capacity c"
    by auto
  show ?case
    using picks S P as Suc.prems(2) counts_for_Cons [of i counts "picks"]
    by (intro exI [of _ "i # picks"]) (auto simp: user_ok_def)
qed

section \<open>The users and the products\<close>

definition users_ok :: "load_config \<Rightarrow> load_product list \<Rightarrow> nat list list \<Rightarrow> load_user list \<Rightarrow> bool" where
  "users_ok c products pss us \<longleftrightarrow>
     list_all2 (\<lambda>ps u. length ps = nat (lc_products_per_user c) \<and> user_ok c products ps (lu_assignments u)) pss us"

lemma generate_users_from_Inr:
  assumes fair: "random_in_range rl"
    and "generate_users_from rl le c products pfx xs counts g = (Inr (us, counts'), g')"
    and "length counts = length products" and "\<forall>n\<in>set counts. n \<le> lc_queue_capacity c"
  shows "\<exists>pss. users_ok c products pss us \<and> length us = length xs \<and>
     counts' = counts_for (concat pss) counts \<and> (\<forall>n\<in>set counts'. n \<le> lc_queue_capacity c)"
  using assms(2-)
proof (induction xs arbitrary: counts g us)
  case Nil
  then show ?case by (intro exI [of _ "[]"]) (simp add: users_ok_def)
next
  case (Cons x xs)
  let ?user = "deterministic_uuid le (lc_run_id c) ''user'' (int x + 1)"
  obtain as counts1 g1 where a: "assign_products rl le c products ?user (nat (lc_products_per_user c)) {} counts g =
      (Inr (as, counts1), g1)"
    using Cons.prems(1) by (auto simp: Let_def split: sum.splits prod.splits)
  obtain u rest where r: "generate_users_from rl le c products pfx xs counts1 g1 = (Inr (rest, counts'), g')"
    and us: "us = u # rest" "lu_assignments u = as"
    using Cons.prems(1) a by (auto simp: Let_def split: sum.splits prod.splits)
  from assign_products_Inr [OF fair a Cons.prems(2,3)] obtain ps where ps:
    "length ps = nat (lc_products_per_user c)" "user_ok c products ps as" "counts1 = counts_for ps counts"
    "\<forall>n\<in>set counts1. n \<le> lc_queue_capacity c" by auto
  from Cons.IH [OF r _ ps(4)] ps(3) Cons.prems(2) obtain pss where
    "users_ok c products pss rest" "length rest = length xs" "counts' = counts_for (concat pss) counts1"
    "\<forall>n\<in>set counts'. n \<le> lc_queue_capacity c" by auto
  then show ?case using ps us
    by (intro exI [of _ "ps # pss"]) (simp add: users_ok_def counts_for_append)
qed

lemma retry_users_Inr:
  "retry_users rl le c products pfx n latest g = Inr us \<Longrightarrow>
     latest = Inr us \<and> n = 0 \<or> (\<exists>g1 counts g2. generate_users rl le c products pfx g1 = (Inr (us, counts), g2))"
proof (induction n arbitrary: latest g)
  case 0
  then show ?case by simp
next
  case (Suc n)
  obtain r g1 where r: "generate_users rl le c products pfx g = (r, g1)" by fastforce
  show ?case
  proof (cases r)
    case (Inl e)
    then have "retry_users rl le c products pfx n (Inl e) g1 = Inr us" using Suc.prems r by simp
    from Suc.IH [OF this] show ?thesis by simp
  next
    case (Inr y)
    then show ?thesis using Suc.prems r by (cases y) auto
  qed
qed

lemma generate_products_facts:
  assumes "random_in_range rl" and "generate_products rl le c pfx xs g = (ps, g')" and "lc_min_stock c \<le> lc_max_stock c"
  shows "length ps = length xs \<and> (\<forall>p\<in>set ps. lc_min_stock c \<le> lo_initial_stock p \<and> lo_initial_stock p \<le> lc_max_stock c \<and>
     lo_queue_capacity p = lc_queue_capacity c \<and> take (length pfx) (lo_title p) = pfx)"
  using assms(2)
proof (induction xs arbitrary: g ps g')
  case Nil
  then show ?case by simp
next
  case (Cons x xs)
  obtain n g1 where n: "rl_intn rl (lc_max_stock c - lc_min_stock c + 1) g = (n, g1)" by fastforce
  obtain rest g2 where r: "generate_products rl le c pfx xs g1 = (rest, g2)" by fastforce
  have "0 \<le> n" "n < lc_max_stock c - lc_min_stock c + 1" using random_in_rangeD [OF assms(1) n] assms(3) by auto
  then show ?case using Cons.IH [OF r] Cons.prems n r by (auto simp: fixture_product_def)
qed

lemma count_list_distinct: "distinct xs \<Longrightarrow> count_list xs x = (if x \<in> set xs then 1 else 0)"
  by (induction xs) auto

lemma users_of_product:
  assumes "users_ok c products pss us" and "distinct (map lo_id products)" and "j < length products"
  shows "length (filter (\<lambda>u. lo_id (products ! j) \<in> as_product ` set (lu_assignments u)) us) = count_list (concat pss) j"
  using assms(1) unfolding users_ok_def
proof (induction rule: list_all2_induct)
  case Nil
  then show ?case by simp
next
  case (Cons ps pss u us)
  have "as_product ` set (lu_assignments u) = (\<lambda>i. lo_id (products ! i)) ` set ps"
    using Cons.hyps by (metis (no_types, lifting) list.set_map user_ok_def)
  moreover have "i = j" if "i \<in> set ps" "lo_id (products ! i) = lo_id (products ! j)" for i
  proof -
    have "i < length products" using Cons.hyps that(1) by (auto simp: user_ok_def)
    then show ?thesis using nth_eq_iff_index_eq [OF assms(2), of i j] assms(3) that(2) by simp
  qed
  ultimately have "lo_id (products ! j) \<in> as_product ` set (lu_assignments u) \<longleftrightarrow> j \<in> set ps" by force
  moreover have "count_list ps j = (if j \<in> set ps then 1 else 0)"
    using Cons.hyps by (simp add: user_ok_def count_list_distinct)
  ultimately show ?case using Cons.IH by (simp add: count_list_append)
qed

lemma user_ok_distinct:
  assumes "user_ok c products ps as" and "distinct (map lo_id products)"
  shows "length as = length ps \<and> distinct (map as_product as) \<and> as_product ` set as \<subseteq> lo_id ` set products"
proof -
  have m: "map as_product as = map (\<lambda>i. lo_id (products ! i)) ps" and d: "distinct ps" "set ps \<subseteq> {..<length products}"
    using assms(1) by (simp_all add: user_ok_def)
  have "inj_on (\<lambda>i. lo_id (products ! i)) (set ps)"
    using assms(2) d(2) by (auto simp: inj_on_def distinct_conv_nth)
  then have "distinct (map as_product as)" using m d(1) by (simp add: distinct_map)
  moreover have "as_product ` set as = (\<lambda>i. lo_id (products ! i)) ` set ps" using m by (metis list.set_map)
  ultimately show ?thesis using m d(2) by (auto dest: map_eq_imp_length_eq)
qed

lemma generate_data_Inr:
  assumes "generate_data rl le c = Inr d"
  obtains pfx products users g g1 where "validate_load_config (le_library le) c = None" "run_prefix (lc_run_id c) = Inr pfx"
    "generate_products rl le c pfx [0..<nat (lc_products c)] (rl_source rl (lc_random_seed c)) = (products, g)"
    "retry_users rl le c products pfx generation_attempts (Inr []) g = Inr users"
    "ld_run_id d = lc_run_id c" "ld_users d = users" "ld_products d = products"
proof -
  obtain pfx where v: "validate_load_config (le_library le) c = None" and x: "run_prefix (lc_run_id c) = Inr pfx"
    using assms by (auto simp: generate_data_def split: option.splits)
  obtain products g where gp: "generate_products rl le c pfx [0..<nat (lc_products c)] (rl_source rl (lc_random_seed c)) = (products, g)"
    by fastforce
  obtain users where u: "retry_users rl le c products pfx generation_attempts (Inr []) g = Inr users"
    using assms by (cases "retry_users rl le c products pfx generation_attempts (Inr []) g")
      (simp_all add: generate_data_def v x gp)
  have "d = load_data.extend \<lparr>ld_run_id = lc_run_id c, ld_users = users, ld_products = products\<rparr>
      (load_file.fields (lc_random_seed c) (effective (le_library le) c))"
    using assms by (simp add: generate_data_def v x gp u)
  then show thesis using that [OF v x gp u] by (simp add: load_data.defs)
qed

text \<open>
  C36. Every fixture can be served: a fixture that is generated has the configured users and
  products, gives each user the configured number of distinct products of the run, gives no product
  to more users than its queue may hold, keeps every initial stock within the configured bounds and
  names every product so that the queries of the run find it (unless SHA-1 collides on the products
  of the run).
\<close>

theorem generated_load_fits:
  assumes fair: "random_in_range rl" and call: "generate_data rl le c = Inr d"
    and ids: "distinct (map lo_id (ld_products d))"
  shows "int (length (ld_users d)) = lc_users c \<and> int (length (ld_products d)) = lc_products c \<and>
     (\<forall>u\<in>set (ld_users d). int (length (lu_assignments u)) = lc_products_per_user c \<and>
        distinct (map as_product (lu_assignments u)) \<and>
        as_product ` set (lu_assignments u) \<subseteq> lo_id ` set (ld_products d) \<and> list_all (planned_ok c) (lu_assignments u)) \<and>
     (\<forall>p\<in>set (ld_products d). lc_min_stock c \<le> lo_initial_stock p \<and> lo_initial_stock p \<le> lc_max_stock c \<and>
        run_prefix (lc_run_id c) = Inr (take (length (lc_run_id c) + 4) (lo_title p)) \<and>
        int (length (filter (\<lambda>u. lo_id p \<in> as_product ` set (lu_assignments u)) (ld_users d))) \<le> lc_queue_capacity c)"
proof -
  obtain pfx products users g g1 where v: "validate_load_config (le_library le) c = None"
    and pfx: "run_prefix (lc_run_id c) = Inr pfx"
    and gp: "generate_products rl le c pfx [0..<nat (lc_products c)] (rl_source rl (lc_random_seed c)) = (products, g)"
    and gu: "retry_users rl le c products pfx generation_attempts (Inr []) g = Inr users"
    and d: "ld_users d = users" "ld_products d = products"
    by (rule generate_data_Inr [OF call])
  have V: "0 < lc_users c" "0 < lc_products c" "0 < lc_products_per_user c" "1 \<le> lc_queue_capacity c"
    "lc_min_stock c \<le> lc_max_stock c"
    using v by (simp_all add: validate_load_config_def split: if_splits)
  note P = generate_products_facts [OF fair gp V(5)]
  have l: "length pfx = length (lc_run_id c) + 4" using pfx by (auto simp: run_prefix_def split: if_splits)
  obtain g2 counts g3 where u: "generate_users_from rl le c products pfx [0..<nat (lc_users c)]
      (replicate (length products) 0) g2 = (Inr (users, counts), g3)"
    using retry_users_Inr [OF gu] by (auto simp: generation_attempts_def generate_users_def)
  have "\<forall>n\<in>set (replicate (length products) 0). n \<le> lc_queue_capacity c" using V(4) by auto
  from generate_users_from_Inr [OF fair u _ this] obtain pss where
    U: "users_ok c products pss users" "length users = nat (lc_users c)"
      "counts = counts_for (concat pss) (replicate (length products) 0)" "\<forall>n\<in>set counts. n \<le> lc_queue_capacity c"
    by auto
  have "int (length (lu_assignments u)) = lc_products_per_user c \<and> distinct (map as_product (lu_assignments u)) \<and>
      as_product ` set (lu_assignments u) \<subseteq> lo_id ` set products \<and> list_all (planned_ok c) (lu_assignments u)"
    if u: "u \<in> set users" for u
  proof -
    obtain i where "i < length users" "u = users ! i" using u by (metis in_set_conv_nth)
    then have n: "length (pss ! i) = nat (lc_products_per_user c)"
      and ok: "user_ok c products (pss ! i) (lu_assignments u)"
      using U(1) by (simp_all add: users_ok_def list_all2_conv_all_nth)
    have "list_all (planned_ok c) (lu_assignments u)" using ok by (simp add: user_ok_def)
    then show ?thesis using user_ok_distinct [OF ok] ids d n V(3) by simp
  qed
  moreover have "int (length (filter (\<lambda>u. lo_id p \<in> as_product ` set (lu_assignments u)) users)) \<le> lc_queue_capacity c"
    if p: "p \<in> set products" for p
  proof -
    obtain j where j: "j < length products" "p = products ! j" using p by (metis in_set_conv_nth)
    then have "int (count_list (concat pss) j) = counts ! j" "j < length counts" by (simp_all add: U(3) counts_for_def)
    then show ?thesis using users_of_product [OF U(1) ids [unfolded d] j(1)] U(4) j(2) by (metis nth_mem)
  qed
  ultimately show ?thesis using P U(2) V d pfx l by auto
qed

text \<open>Two users and two products, with a counter for the random source.\<close>

definition demo_random :: "nat random_library" where
  "demo_random = \<lparr>rl_source = nat, rl_intn = (\<lambda>n g. (int g mod n, Suc g))\<rparr>"

definition demo_load_externals :: load_externals where
  "demo_load_externals = \<lparr>le_library = \<lparr>gl_parse_duration = (\<lambda>s. None), gl_duration_string = (\<lambda>n. show_int n),
     gl_parse_request_uri = (\<lambda>s. Some (''http'', ''localhost''))\<rparr>, le_sha1_uuid = id, le_sha256 = id\<rparr>"

definition demo_load :: load_config where
  "demo_load = \<lparr>lc_profile = ''smoke'', lc_scenario = scenario_purchase_outcomes, lc_source = ''cli'',
     lc_base_url = ''http://localhost'', lc_database_url = ''postgres'', lc_run_id = ''r'', lc_random_seed = 1,
     lc_users = 2, lc_products = 2, lc_products_per_user = 1, lc_ramp_duration = 1, lc_poll_interval = 1,
     lc_poll_duration = 1, lc_outcome_timeout = 1, lc_queue_capacity = 1, lc_duplicate_join_percent = 10,
     lc_min_stock = 1, lc_max_stock = 3, lc_cleanup_before_seed = False, lc_keep_data = True,
     lc_data_file = ''d'', lc_results_dir = ''r''\<rparr>"

lemma generated_load_fits_witness:
  "\<exists>d. generate_data demo_random demo_load_externals demo_load = Inr d \<and> length (ld_users d) = 2 \<and>
     (\<forall>p\<in>set (ld_products d). length (filter (\<lambda>u. lo_id p \<in> as_product ` set (lu_assignments u)) (ld_users d)) \<le> 1)"
proof -
  let ?g = "generate_data demo_random demo_load_externals demo_load"
  let ?v = "validate_load_config (le_library demo_load_externals) demo_load"
  have v: "?v = None" by code_simp
  have x: "run_prefix ''r'' = Inr ''LT-r-''" by code_simp
  let ?gp = "generate_products demo_random demo_load_externals demo_load ''LT-r-'' [0..<2] 1"
  let ?gu = "generate_users demo_random demo_load_externals demo_load (fst ?gp) ''LT-r-'' (snd ?gp)"
  have gu: "\<not> isl (fst ?gu)" "distinct (map lo_id (fst ?gp))" by code_simp+
  obtain us counts g1 where us: "?gu = (Inr (us, counts), g1)" using gu(1) by (cases ?gu; cases "fst ?gu") auto
  have r: "retry_users demo_random demo_load_externals demo_load (fst ?gp) ''LT-r-'' generation_attempts (Inr []) (snd ?gp) = Inr us"
    using us by (simp add: generation_attempts_def eval_nat_numeral)
  have c: "lc_run_id demo_load = ''r''" "nat (lc_products demo_load) = 2"
    "rl_source demo_random (lc_random_seed demo_load) = 1"
    by (simp_all add: demo_load_def demo_random_def)
  obtain d where d: "?g = Inr d" "ld_products d = fst ?gp"
    by (simp add: generate_data_def v x r c case_prod_beta load_data.defs del: One_nat_def)
  have "random_in_range demo_random" by (simp add: random_in_range_def demo_random_def)
  from generated_load_fits [OF this d(1)] gu(2) d show ?thesis by (auto simp: demo_load_def)
qed

end
