(* ===== verification/Outcomes.thy ===== *)
theory Outcomes
  imports Fixtures
begin

text \<open>
  The verdict on a purchase scenario (\<open>internal/loadtest/outcomes.go\<close>): the outcome events the k6
  script wrote, the payments of the run, and the comparison of both with the attempts, pair by
  pair. Decoding a line of the log (\<open>json.Unmarshal\<close>) and \<open>strconv.Quote\<close> are parameters, and a
  file is the lines of its scanner and the error that ended it.
\<close>

section \<open>Payments and events\<close>

record payment_snapshot =
  py_id :: string
  py_provider :: string
  py_event :: string
  py_attempt :: string
  py_outcome :: string
  py_status :: string
  py_response_status :: "int option"
  py_last_error :: "string option"

fun inbox_status_text :: "inbox_status \<Rightarrow> string" where
  "inbox_status_text InboxReceived = ''received''"
| "inbox_status_text InboxProcessing = ''processing''"
| "inbox_status_text InboxRetry = ''retry''"
| "inbox_status_text InboxCompleted = ''completed''"
| "inbox_status_text InboxRejected = ''rejected''"

definition payment_snapshot_of :: "externals \<Rightarrow> (go_error \<Rightarrow> string) \<Rightarrow> inbox_row \<Rightarrow> payment_snapshot" where
  "payment_snapshot_of ext message r =
     \<lparr>py_id = ext_uuid_string ext (ib_id r), py_provider = ib_provider r, py_event = ib_event_id r,
      py_attempt = ext_uuid_string ext (ib_attempt r), py_outcome = outcome_text (ib_outcome r),
      py_status = inbox_status_text (ib_status r), py_response_status = ib_response_status r,
      py_last_error = map_option message (ib_last_error r)\<rparr>"

definition read_payments :: "externals \<Rightarrow> (go_error \<Rightarrow> string) \<Rightarrow> string \<Rightarrow> db \<Rightarrow> payment_snapshot list" where
  "read_payments ext message pfx d = map (payment_snapshot_of ext message)
     (sort_key (\<lambda>r. (ib_created_at r, ib_id r))
       (filter (\<lambda>r. list_ex (\<lambda>a. qa_id a = ib_attempt r \<and>
            list_ex (\<lambda>p. pr_id p = qa_product a \<and> in_run pfx p) (db_products d)) (db_attempts d)) (db_inbox d)))"

record k6_event =
  ke_run_id :: string
  ke_user :: string
  ke_product :: string
  ke_attempt :: string
  ke_operation :: string
  ke_http_status :: "int option"
  ke_payment_event :: string
  ke_final_state :: string
  ke_actual_outcome :: string
  ke_technical_error :: string

definition no_event :: k6_event where
  "no_event = \<lparr>ke_run_id = [], ke_user = [], ke_product = [], ke_attempt = [], ke_operation = [],
     ke_http_status = None, ke_payment_event = [], ke_final_state = [], ke_actual_outcome = [], ke_technical_error = []\<rparr>"

definition outcome_marker :: string where "outcome_marker = ''GOODQUEUE_OUTCOME ''"

text \<open>What follows the first occurrence of the marker (\<open>strings.Index\<close>).\<close>

fun after_marker :: "string \<Rightarrow> string option" where
  "after_marker line =
     (if take (length outcome_marker) line = outcome_marker then Some (drop (length outcome_marker) line)
      else case line of [] \<Rightarrow> None | _ # rest \<Rightarrow> after_marker rest)"

declare after_marker.simps [simp del]

fun collect_events ::
  "(string \<Rightarrow> string + k6_event) \<Rightarrow> (string \<Rightarrow> string) \<Rightarrow> string \<Rightarrow> string list \<Rightarrow> string option \<Rightarrow>
     (string \<rightharpoonup> k6_event) \<Rightarrow> string + (string \<rightharpoonup> k6_event)" where
  "collect_events decode quote run_id [] failure events =
     (case failure of Some e \<Rightarrow> Inl (''read k6 outcome log: '' @ e) | None \<Rightarrow> Inr events)"
| "collect_events decode quote run_id (line # rest) failure events =
     (case after_marker line of
        None \<Rightarrow> collect_events decode quote run_id rest failure events
      | Some json \<Rightarrow>
          (case decode json of
             Inl e \<Rightarrow> Inl (''decode k6 outcome event: '' @ e)
           | Inr ev \<Rightarrow>
               if ke_run_id ev \<noteq> run_id
               then Inl (''k6 outcome event run_id '' @ quote (ke_run_id ev) @ '' does not match '' @ quote run_id)
               else let key = pair_key (ke_user ev) (ke_product ev) in
                 if events key \<noteq> None then Inl (''duplicate k6 outcome event for '' @ key)
                 else collect_events decode quote run_id rest failure (events(key \<mapsto> ev))))"

definition read_k6_outcome_events ::
  "(string \<Rightarrow> string + k6_event) \<Rightarrow> (string \<Rightarrow> string) \<Rightarrow> string \<Rightarrow> string list \<Rightarrow> string option \<Rightarrow> string + (string \<rightharpoonup> k6_event)" where
  "read_k6_outcome_events decode quote run_id lines failure = collect_events decode quote run_id lines failure Map.empty"

section \<open>One pair\<close>

text \<open>The variables of the loop over users and assignments.\<close>

record purchase_scan =
  sc_counts :: verification_counts
  sc_logs :: "request_log_result list"
  sc_mapping :: "string list"
  sc_payment :: "string list"
  sc_active :: "string list"
  sc_event :: "string list"
  sc_purchased :: "string \<Rightarrow> int"
  sc_allowed :: "string set"

definition string_pointer :: "string \<Rightarrow> string option" where
  "string_pointer s = (if s = [] then None else Some s)"

definition start_log :: "string \<Rightarrow> load_assignment \<Rightarrow> k6_event option \<Rightarrow> request_log_result" where
  "start_log user x event =
     (let ev = (case event of None \<Rightarrow> no_event | Some ev \<Rightarrow> ev);
          log = \<lparr>lg_user = user, lg_product = as_product x, lg_attempt = None, lg_operation = ke_operation ev,
            lg_http_status = ke_http_status ev, lg_payment_event = string_pointer (ke_payment_event ev),
            lg_payment_inbox = None, lg_final_state = ke_final_state ev, lg_actual_outcome = ke_actual_outcome ev,
            lg_technical_error = string_pointer (ke_technical_error ev)\<rparr>
      in if event = None
         then log\<lparr>lg_operation := ''k6_outcome_missing'', lg_final_state := ''unresolved'',
           lg_actual_outcome := ''unresolved'', lg_technical_error := Some ''k6 outcome event is missing''\<rparr>
         else log)"

definition count_unresolved :: "purchase_scan \<Rightarrow> purchase_scan" where
  "count_unresolved s = s\<lparr>sc_counts := (sc_counts s)\<lparr>vn_unresolved := vn_unresolved (sc_counts s) + 1\<rparr>\<rparr>"

definition unattempted_pair :: "string \<Rightarrow> request_log_result \<Rightarrow> purchase_scan \<Rightarrow> purchase_scan" where
  "unattempted_pair pair log s =
     (let outcome = lg_actual_outcome log;
          s1 = (if outcome = ''queue_rejected''
                then s\<lparr>sc_counts := (sc_counts s)\<lparr>vn_queue_rejected := vn_queue_rejected (sc_counts s) + 1\<rparr>\<rparr>
                else if outcome = ''sold_out''
                then s\<lparr>sc_counts := (sc_counts s)\<lparr>vn_sold_out := vn_sold_out (sc_counts s) + 1\<rparr>\<rparr>
                else if outcome = ''unresolved''
                then (count_unresolved s)\<lparr>sc_active :=
                  append_violation (sc_active s) (pair @ '': no attempt and unresolved outcome'')\<rparr>
                else (count_unresolved s)\<lparr>sc_event :=
                  append_violation (sc_event s) (pair @ '': outcome without attempt is '' @ outcome)\<rparr>);
          log1 = (if outcome \<in> {''queue_rejected'', ''sold_out'', ''unresolved''} then log
                  else log\<lparr>lg_actual_outcome := ''unresolved''\<rparr>)
      in s1\<lparr>sc_logs := sc_logs s1 @ [log1]\<rparr>)"

definition default_operation :: "string \<Rightarrow> request_log_result \<Rightarrow> request_log_result" where
  "default_operation operation log = (if lg_operation log = [] then log\<lparr>lg_operation := operation\<rparr> else log)"

text \<open>The switch over the outcome of the attempt.\<close>

definition settle_outcome ::
  "attempt_snapshot \<Rightarrow> string \<Rightarrow> string \<Rightarrow> request_log_result \<times> purchase_scan \<Rightarrow> request_log_result \<times> purchase_scan" where
  "settle_outcome a pid actual ls = (case ls of (log, s) \<Rightarrow>
     let c = sc_counts s in
     (if actual = ''purchased''
      then (default_operation ''POST /internal/v1/payment-events'' log,
        s\<lparr>sc_counts := c\<lparr>vn_purchased := vn_purchased c + 1\<rparr>, sc_purchased := (sc_purchased s)(pid := sc_purchased s pid + 1)\<rparr>)
      else if actual = ''cancelled''
      then (default_operation ''DELETE /api/v1/products/{productID}/queue-entry'' log,
        s\<lparr>sc_counts := c\<lparr>vn_cancelled := vn_cancelled c + 1\<rparr>\<rparr>)
      else if actual = ''checkout_expired''
      then (default_operation ''wait_checkout_ttl'' log, s\<lparr>sc_counts := c\<lparr>vn_checkout_expired := vn_checkout_expired c + 1\<rparr>\<rparr>)
      else if actual = ''sold_out''
      then (default_operation ''GET /api/v1/products/{productID}/queue-entry'' log,
        s\<lparr>sc_counts := c\<lparr>vn_sold_out := vn_sold_out c + 1\<rparr>\<rparr>)
      else ((default_operation ''poll_until_terminal'' log)\<lparr>lg_technical_error := Some (''attempt remained in state '' @ sn_state a)\<rparr>,
        (count_unresolved s)\<lparr>sc_active := append_violation (sc_active s) (sn_id a @ '': '' @ sn_state a)\<rparr>)))"

text \<open>The first payment of the attempt, or the record that is missing for a planned purchase.\<close>

definition settle_payment ::
  "attempt_snapshot \<Rightarrow> load_assignment \<Rightarrow> payment_snapshot list \<Rightarrow> request_log_result \<times> purchase_scan \<Rightarrow>
     request_log_result \<times> purchase_scan" where
  "settle_payment a x payments ls = (case ls of (log, s) \<Rightarrow>
     (case payments of
        p # _ \<Rightarrow>
          (log\<lparr>lg_payment_event := Some (py_event p), lg_payment_inbox := Some (py_id p),
             lg_http_status := (if lg_http_status log = None then py_response_status p else lg_http_status log),
             lg_technical_error := (if py_last_error p \<noteq> None then py_last_error p else lg_technical_error log)\<rparr>, s)
      | [] \<Rightarrow>
          if as_planned_outcome x = ''purchase'' \<and> sn_checkout_started_at a \<noteq> None
          then (log\<lparr>lg_operation := ''POST /internal/v1/payment-events'',
                  lg_technical_error := Some ''payment request produced no payment_inbox record''\<rparr>,
                s\<lparr>sc_counts := (sc_counts s)\<lparr>vn_payment_technical_error := vn_payment_technical_error (sc_counts s) + 1\<rparr>\<rparr>)
          else (log, s)))"

definition expected_outcome :: "string \<Rightarrow> string" where
  "expected_outcome planned = (if planned = ''purchase'' then ''purchased'' else if planned = ''cancel'' then ''cancelled''
     else if planned = ''ttl'' then ''checkout_expired'' else [])"

definition settle_plan ::
  "string \<Rightarrow> attempt_snapshot \<Rightarrow> load_assignment \<Rightarrow> string \<Rightarrow> request_log_result \<times> purchase_scan \<Rightarrow>
     request_log_result \<times> purchase_scan" where
  "settle_plan user a x actual ls = (case ls of (log, s) \<Rightarrow>
     if sn_checkout_started_at a \<noteq> None \<and> actual \<noteq> ''unresolved'' \<and> actual \<noteq> expected_outcome (as_planned_outcome x)
     then (log\<lparr>lg_technical_error := Some (''planned outcome '' @ as_planned_outcome x @ '' does not match '' @ actual)\<rparr>,
       s\<lparr>sc_mapping := append_violation (sc_mapping s)
         (user @ ''/'' @ as_product x @ '': planned='' @ as_planned_outcome x @ '' actual='' @ actual)\<rparr>)
     else (log, s))"

definition accepted_status :: "int option \<Rightarrow> bool" where
  "accepted_status status = (case status of None \<Rightarrow> False | Some code \<Rightarrow> 200 \<le> code \<and> code < 300)"

definition payment_completed :: "load_assignment \<Rightarrow> payment_snapshot \<Rightarrow> bool" where
  "payment_completed x p \<longleftrightarrow> py_provider p = ''goodqueue-loadtest'' \<and> py_event p = as_payment_event x \<and>
     py_outcome p = ''succeeded'' \<and> py_status p = ''completed'' \<and> accepted_status (py_response_status p)"

definition judge_payments ::
  "attempt_snapshot \<Rightarrow> load_assignment \<Rightarrow> string \<Rightarrow> payment_snapshot list \<Rightarrow> string list \<Rightarrow> string list" where
  "judge_payments a x actual payments vs =
     (if actual = ''purchased''
      then if as_planned_outcome x \<noteq> ''purchase'' \<or> length payments \<noteq> 1
        then append_violation vs (sn_id a @ '': purchased requires exactly one planned payment; planned='' @
          as_planned_outcome x @ '' payments='' @ show_nat (length payments))
        else if \<not> payment_completed x (hd payments)
        then append_violation vs (sn_id a @ '': payment_inbox event was not accepted and completed'') else vs
      else if payments \<noteq> []
      then append_violation vs (sn_id a @ '': '' @ actual @ '' must not have payment events (found '' @
        show_nat (length payments) @ '')'')
      else vs)"

definition judge_event :: "string \<Rightarrow> k6_event option \<Rightarrow> attempt_snapshot \<Rightarrow> string \<Rightarrow> string list \<Rightarrow> string list" where
  "judge_event pair event a actual vs = (case event of None \<Rightarrow> vs | Some ev \<Rightarrow>
     let v1 = (if ke_attempt ev \<noteq> [] \<and> ke_attempt ev \<noteq> sn_id a
               then append_violation vs (pair @ '': k6 attempt_id does not match PostgreSQL'') else vs)
     in if ke_actual_outcome ev \<noteq> actual
        then append_violation v1 (pair @ '': k6 actual='' @ ke_actual_outcome ev @ '' PostgreSQL actual='' @ actual)
        else v1)"

definition attempted_pair ::
  "string \<Rightarrow> string \<Rightarrow> load_assignment \<Rightarrow> k6_event option \<Rightarrow> attempt_snapshot \<Rightarrow> payment_snapshot list \<Rightarrow>
     request_log_result \<Rightarrow> purchase_scan \<Rightarrow> purchase_scan" where
  "attempted_pair pair user x event a payments log s =
     (let actual = actual_outcome (sn_state a);
          s1 = s\<lparr>sc_event := judge_event pair event a actual (sc_event s)\<rparr>;
          log1 = log\<lparr>lg_attempt := Some (sn_id a), lg_final_state := sn_state a, lg_actual_outcome := actual\<rparr>;
          (log2, s2) = settle_plan user a x actual (settle_payment a x payments (settle_outcome a (as_product x) actual (log1, s1)))
      in s2\<lparr>sc_payment := judge_payments a x actual payments (sc_payment s2), sc_logs := sc_logs s2 @ [log2]\<rparr>)"

definition purchase_step ::
  "(string \<rightharpoonup> attempt_snapshot) \<Rightarrow> (string \<Rightarrow> payment_snapshot list) \<Rightarrow> (string \<rightharpoonup> k6_event) \<Rightarrow>
     string \<times> load_assignment \<Rightarrow> purchase_scan \<Rightarrow> purchase_scan" where
  "purchase_step by_pair by_attempt events ux s = (case ux of (user, x) \<Rightarrow>
     let pair = pair_key user (as_product x);
         event = events pair;
         s1 = s\<lparr>sc_allowed := insert pair (sc_allowed s),
                sc_event := (if event = None then append_violation (sc_event s) (''missing k6 outcome event for '' @ pair)
                             else sc_event s)\<rparr>;
         log = start_log user x event
     in case by_pair pair of
          None \<Rightarrow> unattempted_pair pair log s1
        | Some a \<Rightarrow> attempted_pair pair user x event a (by_attempt (sn_id a)) log s1)"

section \<open>The verdict\<close>

definition payments_by_attempt :: "payment_snapshot list \<Rightarrow> string \<Rightarrow> payment_snapshot list" where
  "payments_by_attempt payments = fold (\<lambda>p m. m(py_attempt p := m (py_attempt p) @ [p])) payments (\<lambda>_. [])"

definition count_payment :: "payment_snapshot \<Rightarrow> verification_counts \<Rightarrow> verification_counts" where
  "count_payment p c =
     (if py_status p = ''completed'' \<and> accepted_status (py_response_status p)
      then c\<lparr>vn_payment_accepted := vn_payment_accepted c + 1\<rparr>
      else if py_status p = ''rejected'' \<or> (case py_response_status p of None \<Rightarrow> False | Some code \<Rightarrow> 400 \<le> code \<and> code < 500)
      then c\<lparr>vn_payment_rejected := vn_payment_rejected c + 1\<rparr>
      else c\<lparr>vn_payment_technical_error := vn_payment_technical_error c + 1\<rparr>)"

definition initial_stocks :: "load_data \<Rightarrow> string \<Rightarrow> int" where
  "initial_stocks data = fold (\<lambda>p m. m(lo_id p := lo_initial_stock p)) (ld_products data) (\<lambda>_. 0)"

definition stock_violations ::
  "(string \<Rightarrow> int) \<Rightarrow> (string \<Rightarrow> int) \<Rightarrow> product_snapshot \<Rightarrow> string list \<Rightarrow> string list" where
  "stock_violations initial purchased p vs =
     (let v1 = (if ps_reserved p \<noteq> 0
                then append_violation vs (ps_id p @ '': reserved='' @ show_int (ps_reserved p) @ '' expected=0'') else vs);
          expected = initial (ps_id p) - purchased (ps_id p)
      in if ps_stock p \<noteq> expected
         then append_violation v1 (ps_id p @ '': allocatable_stock='' @ show_int (ps_stock p) @ '' expected='' @
           show_int expected @ '' (initial='' @ show_int (initial (ps_id p)) @ '' purchased='' @
           show_int (purchased (ps_id p)) @ '')'')
         else v1)"

record outcome_evaluation =
  oe_counts :: verification_counts
  oe_checks :: "verification_check list"
  oe_logs :: "request_log_result list"

definition assigned_pairs :: "load_data \<Rightarrow> (string \<times> load_assignment) list" where
  "assigned_pairs data = concat (map (\<lambda>u. map (\<lambda>x. (lu_id u, x)) (lu_assignments u)) (ld_users data))"

definition scan_pairs ::
  "load_data \<Rightarrow> attempt_snapshot list \<Rightarrow> payment_snapshot list \<Rightarrow> (string \<rightharpoonup> k6_event) \<Rightarrow> purchase_scan" where
  "scan_pairs data attempts payments events =
     fold (purchase_step (attempt_by_pair attempts) (payments_by_attempt payments) events) (assigned_pairs data)
       \<lparr>sc_counts = zero_counts, sc_logs = [], sc_mapping = [], sc_payment = [], sc_active = [], sc_event = [],
        sc_purchased = (\<lambda>_. 0), sc_allowed = {}\<rparr>"

text \<open>\<open>event_order\<close> is the order in which Go visits the keys of the events.\<close>

definition evaluate_purchase_outcomes ::
  "load_data \<Rightarrow> product_snapshot list \<Rightarrow> attempt_snapshot list \<Rightarrow> payment_snapshot list \<Rightarrow> (string \<rightharpoonup> k6_event) \<Rightarrow>
     string list \<Rightarrow> outcome_evaluation" where
  "evaluate_purchase_outcomes data products attempts payments events event_order =
     (let s = scan_pairs data attempts payments events;
          event_vs = fold (\<lambda>pair vs. if pair \<notin> sc_allowed s
              then append_violation vs (''k6 outcome event is outside generated assignments: '' @ pair) else vs)
            event_order (sc_event s);
          stock_vs = fold (stock_violations (initial_stocks data) (sc_purchased s)) products []
      in \<lparr>oe_counts = fold count_payment payments (sc_counts s),
          oe_checks =
            [make_check ''k6_outcome_events_complete'' event_vs
               ''one run-scoped k6 event exists for every user-product pair and matches PostgreSQL'',
             make_check ''planned_purchase_outcomes_match'' (sc_mapping s)
               ''purchase -> purchased, cancel -> cancelled, ttl -> checkout_expired after checkout starts'',
             make_check ''payment_events_match_outcomes'' (sc_payment s)
               ''purchases have one accepted payment_inbox event; cancel and TTL have none'',
             make_check ''purchase_scenario_has_no_unresolved_attempts'' (sc_active s)
               ''no waiting, invited, checkout, or unexpected terminal attempts remain'',
             make_check ''purchase_inventory_released'' stock_vs
               ''reserved is released and stock decreases only for purchased attempts''],
          oe_logs = sc_logs s\<rparr>)"

end
