(* ===== verification/Load_Store.thy ===== *)
theory Load_Store
  imports Outcomes
begin

text \<open>
  The database of the load test (\<open>internal/loadtest/store.go\<close>, the transactions of \<open>verify.go\<close> and
  \<open>outcomes.go\<close>, migrations 00008 to 00012): the tables of runs and request logs with their
  constraints, seeding and cleaning up a run, and \<open>Verify\<close>. The foreign keys that restrict a
  deletion are written out. Each transaction commits as a whole or leaves the store as it was;
  failures of the driver are not modelled. The text of an error is not kept, and an error that
  wraps no other is \<open>Wrapped []\<close>.
\<close>

section \<open>Tables\<close>

record run_counts =
  rc_purchased :: int
  rc_cancelled :: int
  rc_checkout_expired :: int
  rc_queue_rejected :: int
  rc_sold_out :: int
  rc_unresolved :: int
  rc_payment_accepted :: int
  rc_payment_rejected :: int
  rc_payment_technical_error :: int

record run_row =
  rn_run_id :: string
  rn_scenario :: string
  rn_profile :: string
  rn_source :: string
  rn_keep_data :: bool
  rn_random_seed :: int
  rn_effective_config :: effective_config
  rn_status :: string
  rn_planned :: "int \<times> int \<times> int"
  rn_counts :: run_counts
  rn_verification_passed :: "bool option"
  rn_completed_at :: "time option"

record log_row =
  lr_run_id :: string
  lr_user :: uuid
  lr_product :: uuid
  lr_key :: string
  lr_planned_outcome :: "string option"
  lr_attempt :: "uuid option"
  lr_operation :: "string option"
  lr_http_status :: "int option"
  lr_payment_event :: "string option"
  lr_payment_inbox :: "uuid option"
  lr_final_state :: "string option"
  lr_actual_outcome :: "string option"
  lr_technical_error :: "string option"
  lr_created_at :: time
  lr_updated_at :: time
  lr_completed_at :: "time option"

record load_store =
  lb_db :: db
  lb_users :: "(uuid \<times> string) list"
  lb_runs :: "run_row list"
  lb_logs :: "log_row list"

text \<open>The characters of a UTF-8 string: the bytes that continue none.\<close>

definition char_length :: "string \<Rightarrow> nat" where
  "char_length s = length (filter (\<lambda>c. \<not> (128 \<le> byte_of c \<and> byte_of c < 192)) s)"

definition btrim :: "string \<Rightarrow> string" where
  "btrim s = rev (dropWhile (\<lambda>c. c = CHR '' '') (rev (dropWhile (\<lambda>c. c = CHR '' '') s)))"

definition varchar :: "nat \<Rightarrow> string option \<Rightarrow> bool" where
  "varchar n v = (case v of None \<Rightarrow> True | Some s \<Rightarrow> char_length s \<le> n)"

definition run_violation :: "run_row constraint_check" where
  "run_violation r others =
     (if \<not> (run_id_pattern (rn_run_id r) \<and>
            rn_scenario r \<in> {scenario_queue_join_polling, scenario_purchase_outcomes} \<and>
            rn_profile r \<in> {''smoke'', ''medium'', ''main''} \<and> rn_source r \<in> {''cli'', ''runner_ui''} \<and>
            (if rn_status r = ''seeded'' then rn_completed_at r = None \<and> rn_verification_passed r = None
             else rn_status r \<in> {''completed'', ''failed''} \<and> rn_completed_at r \<noteq> None \<and> rn_verification_passed r \<noteq> None))
      then Some ''runs_check''
      else if list_ex (\<lambda>q. rn_run_id q = rn_run_id r) others then Some ''runs_pkey''
      else None)"

definition log_violation :: "log_row constraint_check" where
  "log_violation r others =
     (if \<not> (varchar 128 (Some (lr_key r)) \<and> varchar 128 (lr_operation r) \<and> varchar 200 (lr_payment_event r) \<and>
            varchar 32 (lr_final_state r) \<and>
            (lr_planned_outcome r = None \<or> lr_planned_outcome r \<in> Some ` {''purchase'', ''cancel'', ''ttl''}) \<and>
            (case lr_http_status r of None \<Rightarrow> True | Some code \<Rightarrow> 100 \<le> code \<and> code \<le> 599) \<and>
            (lr_actual_outcome r = None \<or> lr_actual_outcome r \<in> Some ` {''purchased'', ''cancelled'', ''checkout_expired'',
               ''queue_rejected'', ''sold_out'', ''unresolved''}) \<and>
            lr_created_at r \<le> lr_updated_at r \<and> (lr_actual_outcome r = None) = (lr_completed_at r = None))
      then Some ''request_logs_check''
      else if list_ex (\<lambda>q. lr_run_id q = lr_run_id r \<and> lr_user q = lr_user r \<and> lr_product q = lr_product r) others
      then Some ''request_logs_pkey''
      else None)"

definition parse_uuid_column :: "externals \<Rightarrow> string \<Rightarrow> go_error + uuid" where
  "parse_uuid_column ext s = (case ext_uuid_parse ext s of None \<Rightarrow> Inl (Wrapped []) | Some u \<Rightarrow> Inr u)"

text \<open>A batch of statements, which ends with the first that fails.\<close>

fun batch :: "('a \<Rightarrow> 's \<Rightarrow> go_error + 's) \<Rightarrow> 'a list \<Rightarrow> 's \<Rightarrow> go_error + 's" where
  "batch f [] s = Inr s"
| "batch f (x # xs) s = bindE (f x s) (batch f xs)"

definition in_transaction :: "go_error + load_store \<Rightarrow> load_store \<Rightarrow> load_store \<times> go_error option" where
  "in_transaction r s = (case r of Inl e \<Rightarrow> (s, Some (Wrapped [e])) | Inr s' \<Rightarrow> (s', None))"

section \<open>Cleaning up\<close>

definition run_product :: "string \<Rightarrow> db \<Rightarrow> product_id \<Rightarrow> bool" where
  "run_product pfx d pid \<longleftrightarrow> list_ex (\<lambda>p. pr_id p = pid \<and> in_run pfx p) (db_products d)"

definition run_attempt :: "string \<Rightarrow> db \<Rightarrow> attempt_id \<Rightarrow> bool" where
  "run_attempt pfx d aid \<longleftrightarrow> list_ex (\<lambda>a. qa_id a = aid \<and> run_product pfx d (qa_product a)) (db_attempts d)"

definition delete_outbox :: "string \<Rightarrow> db \<Rightarrow> go_error + db" where
  "delete_outbox pfx d = Inr (d\<lparr>db_outbox := filter (\<lambda>r. case ob_attempt r of
     None \<Rightarrow> True | Some aid \<Rightarrow> \<not> run_attempt pfx d aid) (db_outbox d)\<rparr>)"

definition delete_inbox :: "string \<Rightarrow> db \<Rightarrow> go_error + db" where
  "delete_inbox pfx d = Inr (d\<lparr>db_inbox := filter (\<lambda>r. \<not> run_attempt pfx d (ib_attempt r)) (db_inbox d)\<rparr>)"

definition delete_attempts :: "string \<Rightarrow> db \<Rightarrow> go_error + db" where
  "delete_attempts pfx d =
     bindE (guardE (\<not> list_ex (\<lambda>a. run_product pfx d (qa_product a) \<and>
         list_ex (\<lambda>r. ob_attempt r = Some (qa_id a)) (db_outbox d)) (db_attempts d))
       (PgConstraint ''notification_outbox_attempt_id_fkey'')) (\<lambda>_.
     Inr (d\<lparr>db_attempts := filter (\<lambda>a. \<not> run_product pfx d (qa_product a)) (db_attempts d)\<rparr>))"

definition delete_adjustments :: "string \<Rightarrow> db \<Rightarrow> go_error + db" where
  "delete_adjustments pfx d =
     Inr (d\<lparr>db_adjustments := filter (\<lambda>r. \<not> run_product pfx d (ad_product r)) (db_adjustments d)\<rparr>)"

definition delete_products :: "string \<Rightarrow> db \<Rightarrow> go_error + db" where
  "delete_products pfx d =
     bindE (guardE (\<not> list_ex (\<lambda>p. in_run pfx p \<and> list_ex (\<lambda>a. qa_product a = pr_id p) (db_attempts d)) (db_products d))
       (PgConstraint ''queue_attempts_product_id_fkey'')) (\<lambda>_.
     bindE (guardE (\<not> list_ex (\<lambda>p. in_run pfx p \<and> list_ex (\<lambda>r. ad_product r = pr_id p) (db_adjustments d)) (db_products d))
       (PgConstraint ''inventory_adjustments_product_id_fkey'')) (\<lambda>_.
     Inr (d\<lparr>db_products := filter (\<lambda>p. \<not> in_run pfx p) (db_products d)\<rparr>)))"

text \<open>The logs of a run go with it (\<open>ON DELETE CASCADE\<close>).\<close>

definition cleanup_run :: "string \<Rightarrow> string \<Rightarrow> load_store \<Rightarrow> go_error + load_store" where
  "cleanup_run run_id pfx s =
     bindE (delete_outbox pfx (lb_db s)) (\<lambda>d1. bindE (delete_inbox pfx d1) (\<lambda>d2.
     bindE (delete_attempts pfx d2) (\<lambda>d3. bindE (delete_adjustments pfx d3) (\<lambda>d4.
     bindE (delete_products pfx d4) (\<lambda>d5.
     Inr (s\<lparr>lb_db := d5, lb_users := filter (\<lambda>(u, name). take (length pfx) name \<noteq> pfx) (lb_users s),
            lb_runs := filter (\<lambda>r. rn_run_id r \<noteq> run_id) (lb_runs s),
            lb_logs := filter (\<lambda>r. lr_run_id r \<noteq> run_id) (lb_logs s)\<rparr>))))))"

definition cleanup :: "string \<Rightarrow> load_store \<Rightarrow> load_store \<times> go_error option" where
  "cleanup run_id s = (case run_prefix run_id of
     Inl e \<Rightarrow> (s, Some (Wrapped []))
   | Inr pfx \<Rightarrow> in_transaction (cleanup_run run_id pfx s) s)"

section \<open>Seeding\<close>

definition check_text :: "nat \<Rightarrow> string \<Rightarrow> bool" where
  "check_text n s \<longleftrightarrow> 1 \<le> char_length (btrim s) \<and> char_length (btrim s) \<le> n"

definition seed_user :: "externals \<Rightarrow> load_user \<Rightarrow> load_store \<Rightarrow> go_error + load_store" where
  "seed_user ext u s =
     bindE (parse_uuid_column ext (lu_id u)) (\<lambda>uid.
     bindE (guardE (check_text 100 (lu_name u)) (PgConstraint ''users_name_check'')) (\<lambda>_.
     Inr (s\<lparr>lb_users :=
       (if list_ex (\<lambda>(v, name). v = uid) (lb_users s)
        then map (\<lambda>(v, name). if v = uid then (v, lu_name u) else (v, name)) (lb_users s)
        else lb_users s @ [(uid, lu_name u)])\<rparr>)))"

text \<open>
  \<open>started\<close> is the time of the transaction, which dates the row of a new product, and \<open>clock\<close>
  is \<open>clock_timestamp()\<close>.
\<close>

definition seed_product :: "externals \<Rightarrow> time \<Rightarrow> time \<Rightarrow> string \<Rightarrow> load_product \<Rightarrow> load_store \<Rightarrow> go_error + load_store" where
  "seed_product ext started clock run_id p s =
     (let d = lb_db s; description = ''GoodQueue load-test product for run '' @ run_id in
     bindE (parse_uuid_column ext (lo_id p)) (\<lambda>pid.
     bindE (guardE (lo_initial_stock p = i32 (lo_initial_stock p)) (Wrapped [])) (\<lambda>_.
     bindE (guardE (check_text 200 (lo_title p) \<and> char_length description \<le> 5000 \<and> 0 \<le> lo_initial_stock p)
       (PgConstraint ''products_check'')) (\<lambda>_.
     if list_ex (\<lambda>q. pr_id q = pid) (db_products d)
     then bindE (update_products (\<lambda>q. pr_id q = pid) (\<lambda>q. q\<lparr>pr_title := lo_title p, pr_description := description,
              pr_image_url := [], pr_queue_enabled := True, pr_stock := lo_initial_stock p, pr_reserved := 0,
              pr_next_sequence := 1, pr_updated_at := clock\<rparr>) d) (\<lambda>(d', n). Inr (s\<lparr>lb_db := d'\<rparr>))
     else Inr (s\<lparr>lb_db := d\<lparr>db_products := db_products d @
       [\<lparr>pr_id = pid, pr_title = lo_title p, pr_description = description, pr_image_url = [], pr_category = ''other'',
         pr_price_cents = 0, pr_queue_enabled = True, pr_stock = lo_initial_stock p, pr_reserved = 0,
         pr_next_sequence = 1, pr_created_at = started, pr_updated_at = started\<rparr>]\<rparr>\<rparr>)))))"

definition planned_outcome_counts :: "load_data \<Rightarrow> int \<times> int \<times> int" where
  "planned_outcome_counts data =
     fold (\<lambda>(user, x) (purchase, cancel, ttl).
        if as_planned_outcome x = ''purchase'' then (purchase + 1, cancel, ttl)
        else if as_planned_outcome x = ''cancel'' then (purchase, cancel + 1, ttl)
        else if as_planned_outcome x = ''ttl'' then (purchase, cancel, ttl + 1)
        else (purchase, cancel, ttl)) (assigned_pairs data) (0, 0, 0)"

definition seed_run :: "load_config \<Rightarrow> load_file \<Rightarrow> load_store \<Rightarrow> go_error + load_store" where
  "seed_run c data s =
     bindE (pg_result (sql_insert run_violation
       \<lparr>rn_run_id = lc_run_id c, rn_scenario = lc_scenario c, rn_profile = lc_profile c, rn_source = lc_source c,
        rn_keep_data = lc_keep_data c, rn_random_seed = lc_random_seed c,
        rn_effective_config = lf_effective_config data, rn_status = ''seeded'',
        rn_planned = planned_outcome_counts (load_data.truncate data),
        rn_counts = \<lparr>rc_purchased = 0, rc_cancelled = 0, rc_checkout_expired = 0, rc_queue_rejected = 0,
          rc_sold_out = 0, rc_unresolved = 0, rc_payment_accepted = 0, rc_payment_rejected = 0,
          rc_payment_technical_error = 0\<rparr>,
        rn_verification_passed = None, rn_completed_at = None\<rparr> (lb_runs s))) (\<lambda>t. Inr (s\<lparr>lb_runs := t\<rparr>))"

definition seed_log :: "externals \<Rightarrow> time \<Rightarrow> string \<Rightarrow> string \<times> load_assignment \<Rightarrow> load_store \<Rightarrow> go_error + load_store" where
  "seed_log ext clock run_id ux s = (case ux of (user, x) \<Rightarrow>
     bindE (parse_uuid_column ext user) (\<lambda>uid.
     bindE (parse_uuid_column ext (as_product x)) (\<lambda>pid.
     bindE (pg_result (sql_insert log_violation
       \<lparr>lr_run_id = run_id, lr_user = uid, lr_product = pid, lr_key = as_key x,
        lr_planned_outcome = string_pointer (as_planned_outcome x), lr_attempt = None, lr_operation = None,
        lr_http_status = None, lr_payment_event = string_pointer (as_payment_event x), lr_payment_inbox = None,
        lr_final_state = None, lr_actual_outcome = None, lr_technical_error = None, lr_created_at = clock,
        lr_updated_at = clock, lr_completed_at = None\<rparr> (lb_logs s))) (\<lambda>t.
     Inr (s\<lparr>lb_logs := t\<rparr>)))))"

definition prepare_run :: "load_config \<Rightarrow> string \<Rightarrow> load_store \<Rightarrow> go_error + load_store" where
  "prepare_run c pfx s =
     (if lc_cleanup_before_seed c then cleanup_run (lc_run_id c) pfx s
      else bindE (guardE (\<not> list_ex (\<lambda>a. run_product pfx (lb_db s) (qa_product a)) (db_attempts (lb_db s))) (Wrapped [])) (\<lambda>_.
           bindE (guardE (\<not> list_ex (\<lambda>r. rn_run_id r = lc_run_id c) (lb_runs s)) (Wrapped [])) (\<lambda>_. Inr s)))"

definition seed :: "externals \<Rightarrow> time \<Rightarrow> time \<Rightarrow> load_config \<Rightarrow> load_file \<Rightarrow> load_store \<Rightarrow> load_store \<times> go_error option" where
  "seed ext started clock c data s = (case run_prefix (lc_run_id c) of
     Inl e \<Rightarrow> (s, Some (Wrapped []))
   | Inr pfx \<Rightarrow> in_transaction
       (bindE (prepare_run c pfx s) (\<lambda>s0.
        bindE (batch (seed_user ext) (ld_users data) s0) (\<lambda>s1.
        bindE (batch (seed_product ext started clock (lc_run_id c)) (ld_products data) s1) (\<lambda>s2.
        bindE (seed_run c data s2) (\<lambda>s3.
        batch (seed_log ext clock (lc_run_id c)) (assigned_pairs (load_data.truncate data)) s3))))) s)"

section \<open>Runs of the user interface\<close>

definition find_disposable_ui_run :: "load_store \<Rightarrow> string" where
  "find_disposable_ui_run s =
     (case sort_key (\<lambda>r. case rn_completed_at r of None \<Rightarrow> 0 | Some t \<Rightarrow> - t)
        (filter (\<lambda>r. rn_source r = ''runner_ui'' \<and> \<not> rn_keep_data r \<and> rn_status r = ''completed'') (lb_runs s)) of
        [] \<Rightarrow> [] | r # _ \<Rightarrow> rn_run_id r)"

definition preserve_failed_run :: "time \<Rightarrow> string \<Rightarrow> load_store \<Rightarrow> load_store \<times> go_error option" where
  "preserve_failed_run clock run_id s = (case run_prefix run_id of
     Inl e \<Rightarrow> (s, Some (Wrapped []))
   | Inr pfx \<Rightarrow> in_transaction
       (bindE (pg_result (sql_update run_violation (\<lambda>r. rn_run_id r = run_id \<and> rn_source r = ''runner_ui'')
          (\<lambda>r. r\<lparr>rn_status := ''failed'', rn_keep_data := True, rn_verification_passed := Some False,
             rn_completed_at := (case rn_completed_at r of None \<Rightarrow> Some clock | Some t \<Rightarrow> Some t)\<rparr>) (lb_runs s)))
        (\<lambda>(t, n). Inr (s\<lparr>lb_runs := t\<rparr>))) s)"

section \<open>Persisting the verdict\<close>

definition optional_uuid :: "externals \<Rightarrow> string option \<Rightarrow> go_error + uuid option" where
  "optional_uuid ext v = (case v of None \<Rightarrow> Inr None | Some s \<Rightarrow> bindE (parse_uuid_column ext s) (\<lambda>u. Inr (Some u)))"

definition persist_log :: "externals \<Rightarrow> time \<Rightarrow> string \<Rightarrow> request_log_result \<Rightarrow> load_store \<Rightarrow> go_error + load_store" where
  "persist_log ext clock run_id log s =
     bindE (parse_uuid_column ext (lg_user log)) (\<lambda>uid. bindE (parse_uuid_column ext (lg_product log)) (\<lambda>pid.
     bindE (optional_uuid ext (lg_attempt log)) (\<lambda>aid. bindE (optional_uuid ext (lg_payment_inbox log)) (\<lambda>iid.
     bindE (pg_result (sql_update log_violation (\<lambda>r. lr_run_id r = run_id \<and> lr_user r = uid \<and> lr_product r = pid)
       (\<lambda>r. r\<lparr>lr_attempt := aid, lr_operation := Some (lg_operation log), lr_http_status := lg_http_status log,
          lr_payment_event := (if lg_payment_event log = None then lr_payment_event r else lg_payment_event log),
          lr_payment_inbox := iid, lr_final_state := Some (lg_final_state log),
          lr_actual_outcome := Some (lg_actual_outcome log), lr_technical_error := lg_technical_error log,
          lr_updated_at := clock, lr_completed_at := Some clock\<rparr>) (lb_logs s))) (\<lambda>(t, n).
     if n \<noteq> 1 then Inl (Wrapped []) else Inr (s\<lparr>lb_logs := t\<rparr>))))))"

definition run_counts_of :: "verification_counts \<Rightarrow> run_counts" where
  "run_counts_of c = \<lparr>rc_purchased = vn_purchased c, rc_cancelled = vn_cancelled c,
     rc_checkout_expired = vn_checkout_expired c, rc_queue_rejected = vn_queue_rejected c, rc_sold_out = vn_sold_out c,
     rc_unresolved = vn_unresolved c, rc_payment_accepted = vn_payment_accepted c,
     rc_payment_rejected = vn_payment_rejected c, rc_payment_technical_error = vn_payment_technical_error c\<rparr>"

definition persist_run :: "time \<Rightarrow> string \<Rightarrow> bool \<Rightarrow> verification_counts \<Rightarrow> load_store \<Rightarrow> go_error + load_store" where
  "persist_run clock run_id passed counts s =
     bindE (pg_result (sql_update run_violation (\<lambda>r. rn_run_id r = run_id)
       (\<lambda>r. r\<lparr>rn_status := (if passed then ''completed'' else ''failed''), rn_counts := run_counts_of counts,
          rn_verification_passed := Some passed, rn_completed_at := Some clock\<rparr>) (lb_runs s))) (\<lambda>(t, n).
     if n \<noteq> 1 then Inl (Wrapped []) else Inr (s\<lparr>lb_runs := t\<rparr>))"

definition persist_outcome_evaluation ::
  "externals \<Rightarrow> time \<Rightarrow> string \<Rightarrow> bool \<Rightarrow> verification_counts \<Rightarrow> request_log_result list \<Rightarrow> load_store \<Rightarrow>
     load_store \<times> go_error option" where
  "persist_outcome_evaluation ext clock run_id passed counts logs s = in_transaction
     (bindE (batch (persist_log ext clock run_id) logs s) (persist_run clock run_id passed counts)) s"

section \<open>Verify\<close>

definition read_user_ids :: "externals \<Rightarrow> string \<Rightarrow> load_store \<Rightarrow> string set" where
  "read_user_ids ext pfx s =
     set (map (\<lambda>(u, name). ext_uuid_string ext u) (filter (\<lambda>(u, name). take (length pfx) name = pfx) (lb_users s)))"

text \<open>What \<open>Verify\<close> takes from its surroundings: the log of k6, the decoder of its lines, the order of map visits.\<close>

record verify_world =
  vw_ext :: externals
  vw_clock :: time
  vw_message :: "go_error \<Rightarrow> string"
  vw_quote :: "string \<Rightarrow> string"
  vw_decode :: "string \<Rightarrow> string + k6_event"
  vw_read_file :: "string \<Rightarrow> string + string list \<times> string option"
  vw_product_order :: "string list"
  vw_event_order :: "string list"

definition queue_counts :: "verification_counts \<Rightarrow> verification_result \<Rightarrow> verification_result" where
  "queue_counts c r = r\<lparr>vr_counts := (vr_counts r)\<lparr>vn_purchased := vn_purchased c, vn_cancelled := vn_cancelled c,
     vn_checkout_expired := vn_checkout_expired c, vn_queue_rejected := vn_queue_rejected c,
     vn_sold_out := vn_sold_out c, vn_unresolved := vn_unresolved c\<rparr>\<rparr>"

definition purchase_counts :: "verification_counts \<Rightarrow> verification_result \<Rightarrow> verification_result" where
  "purchase_counts c r = (let q = queue_counts c r in
     q\<lparr>vr_counts := (vr_counts q)\<lparr>vn_payment_accepted := vn_payment_accepted c,
       vn_payment_rejected := vn_payment_rejected c, vn_payment_technical_error := vn_payment_technical_error c\<rparr>\<rparr>)"

definition finish_verify ::
  "verify_world \<Rightarrow> load_config \<Rightarrow> verification_result \<Rightarrow> verification_counts \<Rightarrow> request_log_result list \<Rightarrow>
     load_store \<Rightarrow> load_store \<times> verification_result go_return" where
  "finish_verify vw c r counts logs s =
     (case persist_outcome_evaluation (vw_ext vw) (vw_clock vw) (lc_run_id c) (vr_passed r) counts logs s of
        (s', Some e) \<Rightarrow> (s', None, Some e)
      | (s', None) \<Rightarrow> (s', Some r, None))"

definition verify_purchase ::
  "verify_world \<Rightarrow> load_config \<Rightarrow> load_data \<Rightarrow> string \<Rightarrow> product_snapshot list \<Rightarrow> attempt_snapshot list \<Rightarrow>
     verification_result \<Rightarrow> load_store \<Rightarrow> load_store \<times> verification_result go_return" where
  "verify_purchase vw c data pfx products attempts r s =
     (case vw_read_file vw (lc_results_dir c @ ''/'' @ lc_run_id c @ ''/k6-events.log'') of
        Inl e \<Rightarrow> (s, None, Some (Wrapped []))
      | Inr (lines, failure) \<Rightarrow>
     (case read_k6_outcome_events (vw_decode vw) (vw_quote vw) (lc_run_id c) lines failure of
        Inl e \<Rightarrow> (s, None, Some (Wrapped []))
      | Inr events \<Rightarrow>
          let payments = read_payments (vw_ext vw) (vw_message vw) pfx (lb_db s);
              oe = evaluate_purchase_outcomes data products attempts payments events (vw_event_order vw);
              counted = purchase_counts (oe_counts oe) r;
              r' = counted\<lparr>vr_checks := vr_checks counted @ oe_checks oe,
                     vr_passed := vr_passed counted \<and> list_all vc_passed (oe_checks oe)\<rparr>
          in finish_verify vw c r' (oe_counts oe) (oe_logs oe) s))"

definition verify ::
  "verify_world \<Rightarrow> load_config \<Rightarrow> load_data \<Rightarrow> load_store \<Rightarrow> load_store \<times> verification_result go_return" where
  "verify vw c data s =
     (if ld_run_id data \<noteq> lc_run_id c then (s, None, Some (Wrapped []))
      else case run_prefix (lc_run_id c) of
        Inl e \<Rightarrow> (s, None, Some (Wrapped []))
      | Inr pfx \<Rightarrow>
          let products = read_products (vw_ext vw) pfx (lb_db s);
              attempts = read_attempts (vw_ext vw) pfx (lb_db s);
              users = read_user_ids (vw_ext vw) pfx s;
              r = evaluate (lc_run_id c) data (vw_product_order vw) users products attempts
          in if lc_scenario c \<noteq> scenario_purchase_outcomes
             then let (counts, logs) = evaluate_queue_scenario data attempts
                  in finish_verify vw c (queue_counts counts r) counts logs s
             else verify_purchase vw c data pfx products attempts r s)"

end
