(* ===== verification/Load_Properties.thy ===== *)
theory Load_Properties
  imports Load_Store Example
begin

text \<open>
  What cleaning up a run does to the store (\<open>store.go\<close>): everything of the run goes, in an order
  that no foreign key refuses, everything else stays, and the invariants of the queue survive. The
  theorem also says whose products are \<open>of the run\<close>: the prefix of a run also matches the
  runs whose identifier extends it with a hyphen.
\<close>

section \<open>Cleaning up keeps the invariants\<close>

lemma run_product_iff:
  assumes "distinct (map pr_id (db_products d))" and "p \<in> set (db_products d)"
  shows "run_product pfx d (pr_id p) \<longleftrightarrow> in_run pfx p"
  using assms by (auto simp: run_product_def list_ex_iff distinct_map dest: inj_onD)

text \<open>The store without the rows of the run.\<close>

definition without_run :: "string \<Rightarrow> db \<Rightarrow> db" where
  "without_run pfx d =
     \<lparr>db_products = filter (\<lambda>p. \<not> in_run pfx p) (db_products d),
      db_attempts = filter (\<lambda>a. \<not> run_product pfx d (qa_product a)) (db_attempts d),
      db_outbox = filter (\<lambda>r. case ob_attempt r of None \<Rightarrow> True | Some aid \<Rightarrow> \<not> run_attempt pfx d aid) (db_outbox d),
      db_inbox = filter (\<lambda>r. \<not> run_attempt pfx d (ib_attempt r)) (db_inbox d),
      db_adjustments = filter (\<lambda>r. \<not> run_product pfx d (ad_product r)) (db_adjustments d)\<rparr>"

lemma attempt_of_run:
  "a \<in> set (db_attempts d) \<Longrightarrow> run_product pfx d (qa_product a) \<Longrightarrow> run_attempt pfx d (qa_id a)"
  by (auto simp: run_attempt_def list_ex_iff)

lemma cleanup_run_Inr:
  assumes "distinct (map pr_id (db_products (lb_db s)))"
  shows "\<exists>s'. cleanup_run run_id pfx s = Inr s' \<and> lb_db s' = without_run pfx (lb_db s) \<and>
     lb_users s' = filter (\<lambda>(u, name). take (length pfx) name \<noteq> pfx) (lb_users s) \<and>
     lb_runs s' = filter (\<lambda>r. rn_run_id r \<noteq> run_id) (lb_runs s) \<and>
     lb_logs s' = filter (\<lambda>r. lr_run_id r \<noteq> run_id) (lb_logs s)"
proof -
  let ?d = "lb_db s"
  let ?outbox = "filter (\<lambda>r. case ob_attempt r of None \<Rightarrow> True | Some aid \<Rightarrow> \<not> run_attempt pfx ?d aid) (db_outbox ?d)"
  let ?inbox = "filter (\<lambda>r. \<not> run_attempt pfx ?d (ib_attempt r)) (db_inbox ?d)"
  let ?attempts = "filter (\<lambda>a. \<not> run_product pfx ?d (qa_product a)) (db_attempts ?d)"
  let ?adjustments = "filter (\<lambda>r. \<not> run_product pfx ?d (ad_product r)) (db_adjustments ?d)"
  have a: "\<not> list_ex (\<lambda>a. run_product pfx ?d (qa_product a) \<and> list_ex (\<lambda>r. ob_attempt r = Some (qa_id a)) ?outbox) (db_attempts ?d)"
    using attempt_of_run [of _ ?d pfx] by (auto simp: list_ex_iff)
  have p: "in_run pfx p \<Longrightarrow> p \<in> set (db_products ?d) \<Longrightarrow> run_product pfx ?d (pr_id p)" for p
    by (auto simp: run_product_def list_ex_iff)
  have fk1: "\<not> list_ex (\<lambda>p. in_run pfx p \<and> list_ex (\<lambda>a. qa_product a = pr_id p) ?attempts) (db_products ?d)"
    using p by (auto simp: list_ex_iff)
  have fk2: "\<not> list_ex (\<lambda>p. in_run pfx p \<and> list_ex (\<lambda>r. ad_product r = pr_id p) ?adjustments) (db_products ?d)"
    using p by (auto simp: list_ex_iff)
  have r: "run_product pfx (?d\<lparr>db_outbox := x\<rparr>) = run_product pfx ?d" 
    "run_product pfx (?d\<lparr>db_outbox := x, db_inbox := y\<rparr>) = run_product pfx ?d"
    "run_product pfx (?d\<lparr>db_outbox := x, db_inbox := y, db_attempts := z\<rparr>) = run_product pfx ?d"
    "run_attempt pfx (?d\<lparr>db_outbox := x\<rparr>) = run_attempt pfx ?d" for x y z
    by (simp_all add: run_product_def run_attempt_def fun_eq_iff)
  show ?thesis
    using a fk1 fk2
    by (simp add: cleanup_run_def delete_outbox_def delete_inbox_def delete_attempts_def delete_adjustments_def
        delete_products_def r without_run_def)
qed

lemma without_run_inv:
  assumes "store_inv d"
  shows "store_inv (without_run pfx d)"
proof -
  have inv: "db_inv d" and ob: "outbox_inv (db_outbox d)" using assms by (simp_all add: store_inv_def)
  note I = db_invD [OF inv]
  have "attempts_inv (db_attempts (without_run pfx d))"
    using I(1) by (auto simp: without_run_def attempts_inv_def sorted_wrt_filter)
  moreover have "product_counts (db_attempts (without_run pfx d)) p"
    if p: "p \<in> set (db_products d)" "\<not> in_run pfx p" for p
  proof -
    have "\<not> run_product pfx d (pr_id p)" using run_product_iff [OF I(2) p(1)] p(2) by simp
    then have "filter (\<lambda>a. qa_product a = pr_id p \<and> reserves_stock (qa_state a)) (db_attempts (without_run pfx d)) =
        filter (\<lambda>a. qa_product a = pr_id p \<and> reserves_stock (qa_state a)) (db_attempts d)"
      by (auto simp: without_run_def intro!: filter_cong)
    then show ?thesis using I(4) [OF p(1)] by (auto simp: product_counts_def reserved_in_def without_run_def)
  qed
  moreover have "inbox_inv (db_inbox (without_run pfx d))" "outbox_inv (db_outbox (without_run pfx d))"
    using I(5) ob by (auto simp: inbox_inv_def outbox_inv_def without_run_def distinct_map_filter)
  ultimately show ?thesis
    using I(2,3) by (auto simp: store_inv_def db_inv_def without_run_def distinct_map_filter)
qed

text \<open>
  A run identifier may contain hyphens, so the prefix of the run \<open>a\<close> also matches the titles of
  the run \<open>a-b\<close>.
\<close>

lemma run_prefix_overlap:
  assumes "run_prefix run_id = Inr pfx" and "run_prefix (run_id @ ''-'' @ rest) = Inr pfx2" and "in_run pfx2 p"
  shows "in_run pfx p"
proof -
  have e: "pfx2 = pfx @ rest @ ''-''" using assms(1,2) by (auto simp: run_prefix_def split: if_splits)
  then have "take (length pfx) (take (length pfx2) (pr_title p)) = pfx" using assms(3) by (simp add: in_run_def)
  then show ?thesis using e by (simp add: in_run_def)
qed

text \<open>
  C37. Cleaning up a run never fails half-way and leaves a sound store: afterwards the queries of
  the verifier find no product, attempt, payment or user under the prefix of the run, no payment
  event and no notification of its attempts and no report of it is left, the products outside the prefix are all there with all their attempts and
  adjustments, the notifications and payments of those attempts are too, and every invariant of the
  queue still holds, its reservation counters included. But the prefix is not exact: the products
  of every run whose identifier extends this one with a hyphen are deleted as well.
\<close>

theorem cleanup_removes_run:
  assumes inv: "store_inv (lb_db s)" and run: "run_prefix run_id = Inr pfx" and call: "cleanup run_id s = (s', e)"
  shows "e = None \<and> store_inv (lb_db s') \<and>
     read_products ext pfx (lb_db s') = [] \<and> read_attempts ext pfx (lb_db s') = [] \<and>
     read_payments ext message pfx (lb_db s') = [] \<and> read_user_ids ext pfx s' = {} \<and>
     (\<forall>r\<in>set (lb_runs s'). rn_run_id r \<noteq> run_id) \<and> (\<forall>r\<in>set (lb_logs s'). lr_run_id r \<noteq> run_id) \<and>
     (\<forall>p\<in>set (db_products (lb_db s)). \<not> in_run pfx p \<longrightarrow> p \<in> set (db_products (lb_db s')) \<and>
        filter (\<lambda>a. qa_product a = pr_id p) (db_attempts (lb_db s')) =
          filter (\<lambda>a. qa_product a = pr_id p) (db_attempts (lb_db s)) \<and>
        filter (\<lambda>r. ad_product r = pr_id p) (db_adjustments (lb_db s')) =
          filter (\<lambda>r. ad_product r = pr_id p) (db_adjustments (lb_db s))) \<and>
     (\<forall>a\<in>set (db_attempts (lb_db s')).
        filter (\<lambda>r. ob_attempt r = Some (qa_id a)) (db_outbox (lb_db s')) =
          filter (\<lambda>r. ob_attempt r = Some (qa_id a)) (db_outbox (lb_db s)) \<and>
        filter (\<lambda>r. ib_attempt r = qa_id a) (db_inbox (lb_db s')) =
          filter (\<lambda>r. ib_attempt r = qa_id a) (db_inbox (lb_db s))) \<and>
     (\<forall>a\<in>set (db_attempts (lb_db s)). \<forall>p\<in>set (db_products (lb_db s)). qa_product a = pr_id p \<and> in_run pfx p \<longrightarrow>
        (\<forall>r\<in>set (db_inbox (lb_db s')). ib_attempt r \<noteq> qa_id a) \<and>
        (\<forall>r\<in>set (db_outbox (lb_db s')). ob_attempt r \<noteq> Some (qa_id a))) \<and>
     (\<forall>rest pfx2. run_prefix (run_id @ ''-'' @ rest) = Inr pfx2 \<longrightarrow>
        (\<forall>p\<in>set (db_products (lb_db s')). \<not> in_run pfx2 p))"
proof -
  let ?d = "lb_db s" and ?d' = "without_run pfx (lb_db s)"
  have I: "db_inv ?d" using inv by (simp add: store_inv_def)
  note D = db_invD(2) [OF I]
  obtain s1 where s1: "cleanup_run run_id pfx s = Inr s1" "lb_db s1 = ?d'"
      "lb_users s1 = filter (\<lambda>(u, name). take (length pfx) name \<noteq> pfx) (lb_users s)"
      "lb_runs s1 = filter (\<lambda>r. rn_run_id r \<noteq> run_id) (lb_runs s)"
      "lb_logs s1 = filter (\<lambda>r. lr_run_id r \<noteq> run_id) (lb_logs s)"
    using cleanup_run_Inr [OF D] by blast
  have s': "s' = s1" "e = None" using call run s1(1) by (simp_all add: cleanup_def in_transaction_def)
  have none: "\<not> list_ex (\<lambda>p. pr_id p = q \<and> in_run pfx p) (db_products ?d')" for q
    by (auto simp: list_ex_iff without_run_def)
  have reads: "read_products ext pfx ?d' = []" "read_attempts ext pfx ?d' = []" "read_payments ext message pfx ?d' = []"
    unfolding read_attempts_def read_payments_def
    by (simp_all add: none read_products_def without_run_def list_ex_iff)
  have users: "read_user_ids ext pfx s1 = {}" by (auto simp: read_user_ids_def s1(3))
  have kept: "p \<in> set (db_products ?d') \<and>
      filter (\<lambda>a. qa_product a = pr_id p) (db_attempts ?d') = filter (\<lambda>a. qa_product a = pr_id p) (db_attempts ?d) \<and>
      filter (\<lambda>r. ad_product r = pr_id p) (db_adjustments ?d') = filter (\<lambda>r. ad_product r = pr_id p) (db_adjustments ?d)"
    if p: "p \<in> set (db_products ?d)" "\<not> in_run pfx p" for p
    using run_product_iff [OF D p(1)] p by (auto simp: without_run_def intro!: filter_cong)
  have rows: "filter (\<lambda>r. ob_attempt r = Some (qa_id a)) (db_outbox ?d') = filter (\<lambda>r. ob_attempt r = Some (qa_id a)) (db_outbox ?d) \<and>
      filter (\<lambda>r. ib_attempt r = qa_id a) (db_inbox ?d') = filter (\<lambda>r. ib_attempt r = qa_id a) (db_inbox ?d)"
    if a: "a \<in> set (db_attempts ?d')" for a
  proof -
    have "\<not> run_attempt pfx ?d (qa_id a)"
      using a attempts_inv_id_eq [OF db_invD(1) [OF I]] by (auto simp: run_attempt_def list_ex_iff without_run_def)
    then show ?thesis by (auto simp: without_run_def intro!: filter_cong)
  qed
  have emptied: "(\<forall>r\<in>set (db_inbox ?d'). ib_attempt r \<noteq> qa_id a) \<and> (\<forall>r\<in>set (db_outbox ?d'). ob_attempt r \<noteq> Some (qa_id a))"
    if "a \<in> set (db_attempts ?d)" "p \<in> set (db_products ?d)" "qa_product a = pr_id p" "in_run pfx p" for a p
  proof -
    have "run_product pfx ?d (qa_product a)" using that by (auto simp: run_product_def list_ex_iff)
    with attempt_of_run [OF that(1)] have "run_attempt pfx ?d (qa_id a)" by blast
    then show ?thesis by (auto simp: without_run_def)
  qed
  have gone: "\<not> in_run pfx2 p"
    if "run_prefix (run_id @ ''-'' @ rest) = Inr pfx2" "p \<in> set (db_products ?d')" for rest pfx2 p
    using run_prefix_overlap [OF run that(1), of p] that(2) by (auto simp: without_run_def)
  show ?thesis unfolding s' s1(2)
    using without_run_inv [OF inv] reads users kept rows s1(4,5) emptied gone by auto
qed

section \<open>A run, a run that extends it, and a shop\<close>

definition demo_run_db :: db where
  "demo_run_db = demo_db\<lparr>db_products := [demo_product\<lparr>pr_title := ''LT-a-Product-001''\<rparr>,
     demo_product\<lparr>pr_id := 6, pr_title := ''LT-a-b-Product-001''\<rparr>, demo_product\<lparr>pr_id := 5\<rparr>]\<rparr>"

definition demo_run_store :: load_store where
  "demo_run_store = \<lparr>lb_db = fst (join demo_repo (demo_env 1) demo_run_db (demo_join 1)), lb_users = [(1, ''LT-a-User-0001'')],
     lb_runs = [], lb_logs = []\<rparr>"

lemma demo_run_inv: "store_inv (lb_db demo_run_store)"
proof -
  have "fresh_catalogue demo_run_db"
    by (simp add: demo_run_db_def fresh_catalogue_def demo_db_def demo_product_def product_ok_def max_int32_def max_int64_def)
  moreover have "reachable demo_repo demo_run_db (lb_db demo_run_store)"
    unfolding demo_run_store_def load_store.simps by (rule reachable_step [OF reachable_start step_join])
  ultimately show ?thesis using reachable_inv by blast
qed

lemma demo_run_rows:
  "map qa_product (db_attempts (lb_db demo_run_store)) = [7]"
  "map (in_run ''LT-a-'') (db_products (lb_db demo_run_store)) = [True, True, False]"
  "run_prefix ''a'' = Inr ''LT-a-''"
  "list_ex (\<lambda>p. \<not> in_run ''LT-a-'' p) (db_products (lb_db demo_run_store))"
  by code_simp+

lemma cleanup_removes_run_witness:
  "\<exists>s'. cleanup ''a'' demo_run_store = (s', None) \<and> store_inv (lb_db s') \<and> read_attempts demo_externals ''LT-a-'' (lb_db s') = [] \<and>
     map qa_product (db_attempts (lb_db demo_run_store)) = [7] \<and>
     (\<exists>p\<in>set (db_products (lb_db demo_run_store)). p \<in> set (db_products (lb_db s')))"
proof -
  obtain s' e where c: "cleanup ''a'' demo_run_store = (s', e)" by fastforce
  note C = cleanup_removes_run [OF demo_run_inv demo_run_rows(3) c, of demo_externals "\<lambda>_. []"]
  obtain p where "p \<in> set (db_products (lb_db demo_run_store))" "\<not> in_run ''LT-a-'' p"
    using demo_run_rows(4) by (auto simp: list_ex_iff)
  then show ?thesis using C c demo_run_rows(1) by auto
qed

text \<open>Cleaning up the run \<open>a\<close> deletes the product of the run \<open>a-b\<close>.\<close>

lemma cleanup_reaches_longer_run_example:
  "run_prefix ''a-b'' = Inr ''LT-a-b-'' \<and> list_ex (in_run ''LT-a-b-'') (db_products (lb_db demo_run_store)) \<and>
   \<not> list_ex (in_run ''LT-a-b-'') (db_products (lb_db (fst (cleanup ''a'' demo_run_store))))"
  by code_simp

end
