(* ===== verification/Runner_Properties.thy ===== *)
theory Runner_Properties
  imports Runner
begin

text \<open>
  What the state of the load-test runner means: it is compared with the history of the run, the
  answers its commands got. The reservation is the lemma \<open>impatient_overlap\<close>: a seed that fails marks the run as failed before its goroutine is through, and a client
  that starts the next run in that moment gets two runs at once. The invariants are therefore about
  clients that wait for the end of a run (its \<open>finishedAt\<close>) before they start another.
\<close>

section \<open>Runs of patient clients\<close>


text \<open>
  The history of the current run: each step its goroutine made, with the job as it stood before
  and what the surroundings answered to the command of that phase. An accepted start begins a new
  history.
\<close>

type_synonym run_history = "(run_job \<times> run_answer) list"



section \<open>What the answers in a history say\<close>

text \<open>
  The answers that fail a run: a command that ends with an error, a seed whose fixture cannot be
  used or whose results directory cannot be made, a verifier without a report that says passed.
\<close>

definition answer_fails :: "run_job \<Rightarrow> run_answer \<Rightarrow> bool" where
  "answer_fails j an = (case jb_phase j of
     InCleanup \<Rightarrow> an_error an \<noteq> None
   | InSeed \<Rightarrow> an_error an \<noteq> None \<or> (\<nexists>data. validate_fixture (jb_effective j) (an_fixture an) = Inr data) \<or>
       rq_scenario (jb_request j) = scenario_purchase_outcomes \<and> an_directory an \<noteq> None
   | InK6 \<Rightarrow> an_error an \<noteq> None
   | InVerifier \<Rightarrow> an_error an \<noteq> None \<or> an_report an \<noteq> Inr True
   | _ \<Rightarrow> False)"

text \<open>The exit code of the failing command, or -1 where a command passed and what it left is unusable.\<close>

definition failure_code :: "run_job \<Rightarrow> run_answer \<Rightarrow> int" where
  "failure_code j an = (if jb_phase j = InSeed \<and> an_error an = None then - 1 else an_exit_code an)"

definition all_answers_pass :: "run_history \<Rightarrow> bool" where
  "all_answers_pass h \<longleftrightarrow> (\<forall>(j, an)\<in>set h. \<not> answer_fails j an)"

text \<open>An answer failed with this code, and unless it was the cleanup, \<open>--mark-failed\<close> was run.\<close>

definition failed_by_answer :: "runner_world \<Rightarrow> runner_config \<Rightarrow> run_history \<Rightarrow> int \<Rightarrow> bool" where
  "failed_by_answer rw c h code \<longleftrightarrow> (\<exists>(j, an)\<in>set h. answer_fails j an \<and> failure_code j an = code \<and>
     (jb_phase j \<noteq> InCleanup \<longrightarrow>
       (\<exists>(k, an')\<in>set h. map_option cm_args (job_command rw c k) = Some [''--mark-failed''])))"

definition passing_course :: "run_phase list" where
  "passing_course = [Stamping, Launched, InCleanup, InSeed, InK6, InVerifier, Passing, Finishing 0 None]"

fun history_ok :: "runner_world \<Rightarrow> runner_config \<Rightarrow> run_phase \<Rightarrow> run_history \<Rightarrow> bool" where
  "history_ok rw c (Preserving code e) h \<longleftrightarrow> (\<exists>(j, an)\<in>set h. answer_fails j an \<and> failure_code j an = code)"
| "history_ok rw c (Finishing code (Some e)) h \<longleftrightarrow> failed_by_answer rw c h code"
| "history_ok rw c ph h \<longleftrightarrow> map (jb_phase \<circ> fst) h = takeWhile (\<lambda>p. p \<noteq> ph) passing_course \<and> all_answers_pass h"

section \<open>The invariant\<close>

text \<open>What the state says of the phase of the only run.\<close>

definition reports :: "runner_state \<Rightarrow> string \<Rightarrow> string \<Rightarrow> string \<Rightarrow> bool" where
  "reports s status seeded verified \<longleftrightarrow> rs_status s = status \<and> rs_seed_status s = seeded \<and> rs_verifier_status s = verified"






section \<open>One step\<close>

lemma verifier_failure_not_Nil [simp]: "verifier_failure e r \<noteq> []"
  by (simp add: verifier_failure_def)


lemmas step_simps = job_step_def Let_def set_status_def set_seed_status_def reports_def seed_failed_def





text \<open>A step extends the history in step with the phase.\<close>

lemma all_answers_pass_simps [simp]:
  "all_answers_pass []" "all_answers_pass ((j, an) # h) \<longleftrightarrow> \<not> answer_fails j an \<and> all_answers_pass h"
  "all_answers_pass (h @ [(j, an)]) \<longleftrightarrow> all_answers_pass h \<and> \<not> answer_fails j an"
  by (auto simp: all_answers_pass_def)

lemma failed_last: "answer_fails j an \<Longrightarrow> failure_code j an = code \<Longrightarrow> history_ok rw c (Preserving code e) (h @ [(j, an)])"
  by auto










section \<open>A run that passes, and a client that does not wait\<close>

definition demo_world :: runner_world where
  "demo_world = \<lparr>rw_library = \<lparr>gl_parse_duration = (\<lambda>s. Some 1), gl_duration_string = (\<lambda>n. ''1''),
       gl_parse_request_uri = (\<lambda>s. Some (''http'', ''localhost''))\<rparr>,
     rw_quote = id, rw_clean = id, rw_join = concat, rw_format_time = (\<lambda>t. ''20250101T000000''),
     rw_environment = Map.empty\<rparr>"

definition demo_runner_config :: runner_config where
  "demo_runner_config = \<lparr>ru_enabled = True, ru_address = '':8081'', ru_api_key = [], ru_allowed_origins = [],
     ru_base_url = ''http://b'', ru_database_url = ''p'', ru_prometheus_write_url = ''w'', ru_generated_dir = ''g'',
     ru_results_dir = ''r'', ru_k6_binary = ''k6'', ru_seed_binary = ''seed'', ru_verifier_binary = ''verify'',
     ru_scripts_dir = ''s''\<rparr>"

definition demo_run_request :: run_request where
  "demo_run_request = \<lparr>rq_profile = ''smoke'', rq_scenario = scenario_queue_join_polling, rq_keep_data = Some False\<rparr>"

definition demo_answer :: "string option \<Rightarrow> run_answer" where
  "demo_answer failure = \<lparr>an_now = 5, an_exit_code = (if failure = None then 0 else 1), an_error = failure,
     an_fixture = Inl ''no file'', an_directory = None, an_report = Inl ''no file''\<rparr>"

definition demo_begin :: "runner_system \<Rightarrow> runner_system" where
  "demo_begin y = run_start demo_world demo_run_request 1 (Inr [CHR 0x01, CHR 0x02, CHR 0x03, CHR 0x04]) y"

definition demo_step :: "string option \<Rightarrow> runner_system \<Rightarrow> runner_system" where
  "demo_step failure y = run_job_at demo_world demo_runner_config (demo_answer failure) 0 y"

text \<open>Started, its cleanup has passed, its seed has failed.\<close>

definition demo_failing :: runner_system where
  "demo_failing = demo_step (Some ''exit status 1'') (demo_step None (demo_step None (demo_step None (demo_begin initial_system))))"

lemma demo_started: "map jb_phase (sy_jobs (demo_begin initial_system)) = [Stamping]"
  by code_simp

lemma demo_failing_state:
  "map jb_phase (sy_jobs demo_failing) = [Preserving 1 ''seed failed: exit status 1'']"
  "rs_finished_at (sy_state demo_failing) = None" "length (sy_jobs (demo_begin demo_failing)) = 2"
  by code_simp+

text \<open>The seed has failed and its run is still to report, but another run is accepted.\<close>

lemma impatient_overlap:
  "\<exists>y. (runner_step demo_world demo_runner_config)\<^sup>*\<^sup>* initial_system y \<and> length (sy_jobs y) = 2"
proof -
  let ?R = "(runner_step demo_world demo_runner_config)\<^sup>*\<^sup>*"
  have start: "?R x y \<Longrightarrow> ?R x (demo_begin y)" for x y
    unfolding demo_begin_def by (erule rtranclp.rtrancl_into_rtrancl) (rule step_start)
  have step: "?R x y \<Longrightarrow> sy_jobs y \<noteq> [] \<Longrightarrow> ?R x (demo_step f y)" for x y f
    unfolding demo_step_def by (erule rtranclp.rtrancl_into_rtrancl) (rule step_job, simp)
  obtain s j where s: "demo_begin initial_system = \<lparr>sy_state = s, sy_jobs = [j]\<rparr>" "jb_phase j = Stamping"
    using demo_started by (cases "demo_begin initial_system") (auto simp: map_eq_Cons_conv)
  have "?R initial_system demo_failing"
    unfolding demo_failing_def
    by (intro step start rtranclp.rtrancl_refl)
       (use s in \<open>simp_all add: demo_step_def run_job_at_def step_simps demo_answer_def\<close>)
  from start [OF this] demo_failing_state(3) show ?thesis by blast
qed










end
