(* ===== verification/Commands.thy ===== *)
theory Commands
  imports Load_Store
begin

text \<open>
  The commands of the load test (\<open>cmd/loadtest-seed\<close>, \<open>cmd/loadtest-verify\<close>), which the runner starts
  as processes: the modes of the seeding command, and the verdict of the verifier as an exit code.

  The environment of a command is a record: the configuration that \<open>LoadConfig\<close> read, the error of
  \<open>Connect\<close> if any, the \<open>path/filepath\<close> functions, and for every operation on files the error it
  ends with. The operations that succeeded are returned in order. The time limit of the
  commands and the summary lines they print are left out.
\<close>

datatype file_operation =
    RemoveAll string
  | WriteData string load_file
  | MkdirAll string
  | WriteVerification string verification_result

datatype tool_error =
    Refused string
  | NotConfigured string
  | NotConnected string
  | StoreFailed go_error
  | FileFailed string

record 'g tool_world =
  tw_random :: "'g random_library"
  tw_load :: load_externals
  tw_ext :: externals
  tw_started :: time
  tw_clock :: time
  tw_config :: "string + load_config"
  tw_connect :: "string option"
  tw_join :: "string \<Rightarrow> string \<Rightarrow> string"
  tw_dir :: "string \<Rightarrow> string"
  tw_fails :: "file_operation \<Rightarrow> string option"

text \<open>File operations one after the other, up to the first that fails.\<close>

fun perform :: "'g tool_world \<Rightarrow> file_operation list \<Rightarrow> file_operation list \<times> tool_error option" where
  "perform tw [] = ([], None)"
| "perform tw (op # ops) = (case tw_fails tw op of
     Some message \<Rightarrow> ([], Some (FileFailed message))
   | None \<Rightarrow> (case perform tw ops of (done_ops, e) \<Rightarrow> (op # done_ops, e)))"

section \<open>Seeding\<close>

record seed_flags =
  sf_cleanup_only :: bool
  sf_cleanup_ui :: bool
  sf_mark_failed :: bool

definition selected_modes :: "seed_flags \<Rightarrow> nat" where
  "selected_modes f = length (filter id [sf_cleanup_only f, sf_cleanup_ui f, sf_mark_failed f])"

definition store_result :: "load_store \<times> go_error option \<Rightarrow> load_store \<times> file_operation list \<times> tool_error option" where
  "store_result r = (case r of (s, e) \<Rightarrow> (s, [], map_option StoreFailed e))"

definition cleanup_disposable_ui ::
  "'g tool_world \<Rightarrow> load_config \<Rightarrow> load_store \<Rightarrow> load_store \<times> file_operation list \<times> tool_error option" where
  "cleanup_disposable_ui tw c s =
     (let run_id = find_disposable_ui_run s in
      if run_id = [] then (s, [], None)
      else let generated_root = tw_dir tw (tw_dir tw (lc_data_file c)) in
        case perform tw [RemoveAll (tw_join tw generated_root run_id), RemoveAll (tw_join tw (lc_results_dir c) run_id)] of
          (ops, Some e) \<Rightarrow> (s, ops, Some e)
        | (ops, None) \<Rightarrow> (case cleanup run_id s of (s', e) \<Rightarrow> (s', ops, map_option StoreFailed e)))"

definition seed_all ::
  "'g tool_world \<Rightarrow> load_config \<Rightarrow> load_store \<Rightarrow> load_store \<times> file_operation list \<times> tool_error option" where
  "seed_all tw c s = (case generate_data (tw_random tw) (tw_load tw) c of
     Inl message \<Rightarrow> (s, [], Some (NotConfigured message))
   | Inr data \<Rightarrow> (case seed (tw_ext tw) (tw_started tw) (tw_clock tw) c data s of
       (s', Some e) \<Rightarrow> (s', [], Some (StoreFailed e))
     | (s', None) \<Rightarrow> (s', perform tw [WriteData (lc_data_file c) data,
         MkdirAll (tw_join tw (lc_results_dir c) (lc_run_id c))])))"

definition seed_command ::
  "'g tool_world \<Rightarrow> seed_flags \<Rightarrow> load_store \<Rightarrow> load_store \<times> file_operation list \<times> tool_error option" where
  "seed_command tw f s =
     (if selected_modes f > 1 then (s, [], Some (Refused ''cleanup and failure modes are mutually exclusive''))
      else case tw_config tw of
        Inl message \<Rightarrow> (s, [], Some (NotConfigured message))
      | Inr c \<Rightarrow> (case tw_connect tw of
          Some message \<Rightarrow> (s, [], Some (NotConnected message))
        | None \<Rightarrow>
            if sf_cleanup_ui f then cleanup_disposable_ui tw c s
            else if sf_mark_failed f then store_result (preserve_failed_run (tw_clock tw) (lc_run_id c) s)
            else if sf_cleanup_only f then store_result (cleanup (lc_run_id c) s)
            else seed_all tw c s))"

section \<open>Verifying\<close>

definition check_lines :: "verification_check \<Rightarrow> string list" where
  "check_lines v = (''['' @ (if vc_passed v then ''PASS'' else ''FAIL'') @ ''] '' @ vc_name v) #
     map (\<lambda>w. ''  - '' @ w) (vc_violations v)"

text \<open>The scenario of the fixture overrides that of the environment.\<close>

definition fixture_scenario :: "load_file \<Rightarrow> load_config \<Rightarrow> load_config" where
  "fixture_scenario data c =
     (if lc_scenario (lf_effective_config data) \<noteq> [] then c\<lparr>lc_scenario := lc_scenario (lf_effective_config data)\<rparr> else c)"

text \<open>\<open>run\<close> returns whether the verdict is a pass; \<open>main\<close> makes it the exit code.\<close>

definition verify_run ::
  "'g tool_world \<Rightarrow> verify_world \<Rightarrow> (string \<Rightarrow> string + load_file) \<Rightarrow> load_store \<Rightarrow>
     load_store \<times> file_operation list \<times> string list \<times> (tool_error + bool)" where
  "verify_run tw vw read_data s = (case tw_config tw of
     Inl message \<Rightarrow> (s, [], [], Inl (NotConfigured message))
   | Inr c0 \<Rightarrow> (case read_data (lc_data_file c0) of
       Inl message \<Rightarrow> (s, [], [], Inl (FileFailed message))
     | Inr data \<Rightarrow>
         let c = fixture_scenario data c0 in
         (case tw_connect tw of
            Some message \<Rightarrow> (s, [], [], Inl (NotConnected message))
          | None \<Rightarrow> (case verify vw c (load_data.truncate data) s of
              (s', r, Some e) \<Rightarrow> (s', [], [], Inl (StoreFailed e))
            | (s', None, None) \<Rightarrow> (s', [], [], Inr False)
            | (s', Some r, None) \<Rightarrow>
                (case perform tw [WriteVerification
                    (tw_join tw (tw_join tw (lc_results_dir c) (lc_run_id c)) ''verifier.json'') r] of
                   (ops, Some e) \<Rightarrow> (s', ops, [], Inl e)
                 | (ops, None) \<Rightarrow> (s', ops, concat (map check_lines (vr_checks r)), Inr (vr_passed r)))))))"

definition verify_command ::
  "'g tool_world \<Rightarrow> verify_world \<Rightarrow> (string \<Rightarrow> string + load_file) \<Rightarrow> load_store \<Rightarrow>
     load_store \<times> file_operation list \<times> string list \<times> int" where
  "verify_command tw vw read_data s = (case verify_run tw vw read_data s of
     (s', ops, output, Inl e) \<Rightarrow> (s', ops, output, 1)
   | (s', ops, output, Inr passed) \<Rightarrow> (s', ops, output, if passed then 0 else 1))"

section \<open>What the commands promise\<close>

text \<open>A failed command leaves the database as it was, unless only writing the fixture failed.\<close>

lemma failed_seed_command:
  assumes "seed_command tw f s = (s', ops, Some e)"
  shows "s' = s \<or> (\<exists>message. e = FileFailed message)"
  using assms
  by (auto simp: seed_command_def cleanup_disposable_ui_def store_result_def seed_all_def cleanup_def seed_def
        preserve_failed_run_def in_transaction_def Let_def split: if_splits sum.splits option.splits prod.splits)

text \<open>
  A verifier that exits with 0 has left its verdict: the row of the run says that it is completed
  and verified, and the report with a passed result is written.
\<close>

lemma persisted_verdict:
  assumes "persist_outcome_evaluation ext clock run_id passed counts logs s = (s', None)"
  shows "\<exists>r\<in>set (lb_runs s'). rn_run_id r = run_id \<and> rn_status r = (if passed then ''completed'' else ''failed'') \<and>
    rn_verification_passed r = Some passed"
proof -
  let ?f = "\<lambda>r. r\<lparr>rn_status := (if passed then ''completed'' else ''failed''), rn_counts := run_counts_of counts,
     rn_verification_passed := Some passed, rn_completed_at := Some clock\<rparr>"
  obtain s1 where "persist_run clock run_id passed counts s1 = Inr s'"
    using assms by (auto simp: persist_outcome_evaluation_def in_transaction_def split: sum.splits)
  then have upd: "sql_update run_violation (\<lambda>r. rn_run_id r = run_id) ?f (lb_runs s1) = Inr (lb_runs s', 1)"
    by (auto simp: persist_run_def split: if_splits)
  have "filter (\<lambda>r. rn_run_id r = run_id) (lb_runs s1) \<noteq> []" using sql_update_Inr(2) [OF upd] by auto
  then obtain r where r: "r \<in> set (lb_runs s1)" "rn_run_id r = run_id" by (auto simp: filter_empty_conv)
  have "?f r \<in> set (lb_runs s')"
    unfolding sql_update_Inr(1) [OF upd] set_map by (rule image_eqI [OF _ r(1)]) (simp add: r(2))
  then show ?thesis by (rule bexI [rotated]) (simp add: r(2))
qed

lemma verified_result:
  assumes "verify vw c data s = (s', Some r, None)"
  shows "\<exists>q\<in>set (lb_runs s'). rn_run_id q = lc_run_id c \<and>
    rn_status q = (if vr_passed r then ''completed'' else ''failed'') \<and> rn_verification_passed q = Some (vr_passed r)"
proof -
  obtain r' counts logs where "finish_verify vw c r' counts logs s = (s', Some r, None)"
    using assms by (auto simp: verify_def verify_purchase_def Let_def split: if_splits sum.splits prod.splits)
  then have "persist_outcome_evaluation (vw_ext vw) (vw_clock vw) (lc_run_id c) (vr_passed r) counts logs s = (s', None)"
    by (auto simp: finish_verify_def split: prod.splits option.splits)
  then show ?thesis by (rule persisted_verdict)
qed

lemma verify_command_pass:
  assumes "verify_command tw vw read_data s = (s', ops, output, 0)"
  obtains c r path where "tw_config tw = Inr c" and "ops = [WriteVerification path r]" and "vr_passed r"
    and "\<exists>q\<in>set (lb_runs s'). rn_run_id q = lc_run_id c \<and> rn_status q = ''completed'' \<and> rn_verification_passed q = Some True"
proof -
  obtain c0 data r ops' where config: "tw_config tw = Inr c0"
    and verified: "verify vw (fixture_scenario data c0) (load_data.truncate data) s = (s', Some r, None)"
    and written: "perform tw [WriteVerification (tw_join tw (tw_join tw (lc_results_dir (fixture_scenario data c0))
        (lc_run_id (fixture_scenario data c0))) ''verifier.json'') r] = (ops, None)" and passed: "vr_passed r"
    using assms by (auto simp: verify_command_def verify_run_def Let_def
        split: prod.splits sum.splits option.splits if_splits)
  moreover have "lc_run_id (fixture_scenario data c0) = lc_run_id c0" by (simp add: fixture_scenario_def)
  ultimately show thesis
    using that [OF config _ passed] verified_result [OF verified] by (auto split: option.splits)
qed

end
