(* ===== verification/Metrics.thy ===== *)
theory Metrics
  imports Config Http
begin

text \<open>
  What the server reads of its own operation: the client of the Prometheus HTTP API
  (\<open>internal/loadtest/prometheus.go\<close>) with its queries and the checks on a reply, the two handlers
  that show its statistics (\<open>handler/loadtest_metrics.go\<close>), and the business snapshot that the
  server exports (\<open>internal/observability/metrics.go\<close>).

  Parameters are \<open>float64\<close> arithmetic, the parsing of URLs, of JSON strings and of numbers, and the
  Prometheus service, a function on its own state that may answer two equal queries differently. A
  pointer or interface that may be nil is an option; calling a method on nil panics.
\<close>

section \<open>Queries\<close>

definition loadtest_scenario_selector :: string where
  "loadtest_scenario_selector = ''loadtest_scenario=~\"queue_join_polling|purchase_outcomes\"''"

definition purchase_scenario_selector :: string where
  "purchase_scenario_selector = ''loadtest_scenario=\"purchase_outcomes\"''"

definition counter_count_query :: "string \<Rightarrow> string \<Rightarrow> string \<Rightarrow> string" where
  "counter_count_query metric_name selector window =
     (let metric = metric_name @ ''{'' @ selector @ ''}'';
          last_value = ''last_over_time('' @ metric @ ''['' @ window @ ''])''
      in ''sum('' @ last_value @ '' - ('' @ metric @ '' offset '' @ window @ '' or '' @ last_value @
         '' * 0)) or vector(0)'')"

definition request_count_query :: "string \<Rightarrow> string \<Rightarrow> string" where
  "request_count_query selector window = counter_count_query ''k6_http_reqs_total'' selector window"

section \<open>One query\<close>

text \<open>
  The body of a reply after JSON decoding; an element of \<open>value\<close> stays raw, a byte string. \<open>None\<close> in
  \<open>rp_payload\<close> is a body that does not decode.
\<close>

record prometheus_payload =
  pp_status :: string
  pp_result_type :: string
  pp_result :: "bytes list list"

record prometheus_reply =
  rp_status_code :: int
  rp_payload :: "prometheus_payload option"

record 'f prometheus_library =
  pl_seconds :: "time \<Rightarrow> 'f"
  pl_format_time :: "time \<Rightarrow> string"
  pl_url_parses :: "string \<Rightarrow> bool"
  pl_request_builds :: "string \<Rightarrow> bool"
  pl_json_string :: "bytes \<Rightarrow> string option"
  pl_parse_float :: "string \<Rightarrow> 'f option"
  pl_is_nan :: "'f \<Rightarrow> bool"
  pl_is_inf :: "'f \<Rightarrow> bool"
  pl_duration_string :: "time \<Rightarrow> string"

text \<open>\<open>client.Do\<close>: the endpoint and the query parameters; \<open>None\<close> is a failure of the transport.\<close>

type_synonym 'w prometheus_service =
  "'w \<Rightarrow> string \<times> (string \<times> string) list \<Rightarrow> 'w \<times> prometheus_reply option"

text \<open>The client is its base URL; the HTTP client behind it is the service.\<close>

type_synonym prometheus_client = string

definition new_prometheus_client :: "string \<Rightarrow> prometheus_client" where
  "new_prometheus_client base_url = trim_right_char (CHR ''/'') base_url"

definition metrics_unavailable :: go_error where
  "metrics_unavailable = Wrapped [Sentinel ErrMetricsUnavailable]"

definition read_scalar :: "'f float_ops \<Rightarrow> 'f prometheus_library \<Rightarrow> prometheus_reply \<Rightarrow> go_error + 'f" where
  "read_scalar fo lib reply =
     (if rp_status_code reply \<noteq> 200 then Inl metrics_unavailable
      else case rp_payload reply of
        None \<Rightarrow> Inl metrics_unavailable
      | Some p \<Rightarrow>
          if pp_status p \<noteq> ''success'' \<or> pp_result_type p \<noteq> ''vector'' \<or> length (pp_result p) \<noteq> 1 \<or>
             length (pp_result p ! 0) \<noteq> 2
          then Inl metrics_unavailable
          else case pl_json_string lib (pp_result p ! 0 ! 1) of
            None \<Rightarrow> Inl metrics_unavailable
          | Some raw_value \<Rightarrow>
              (case pl_parse_float lib raw_value of
                 None \<Rightarrow> Inl metrics_unavailable
               | Some x \<Rightarrow>
                   if pl_is_nan lib x \<or> pl_is_inf lib x \<or> fo_less fo x (fo_of_int fo 0)
                   then Inl metrics_unavailable else Inr x))"

definition scalar_query ::
  "'f float_ops \<Rightarrow> 'f prometheus_library \<Rightarrow> 'w prometheus_service \<Rightarrow> prometheus_client \<Rightarrow> time \<Rightarrow> string \<Rightarrow>
     'w \<Rightarrow> 'w \<times> (go_error + 'f)" where
  "scalar_query fo lib service client evaluation_time query w =
     (let endpoint = client @ ''/api/v1/query'' in
      if \<not> pl_url_parses lib endpoint \<or> \<not> pl_request_builds lib endpoint then (w, Inl metrics_unavailable)
      else case service w (endpoint, [(''query'', query), (''time'', pl_format_time lib evaluation_time)]) of
        (w', None) \<Rightarrow> (w', Inl metrics_unavailable)
      | (w', Some reply) \<Rightarrow> (w', read_scalar fo lib reply))"

section \<open>The statistics\<close>

definition window_seconds_text :: "'f float_ops \<Rightarrow> 'f prometheus_library \<Rightarrow> time \<Rightarrow> string" where
  "window_seconds_text fo lib window = show_int (fo_to_int fo (fo_ceil fo (pl_seconds lib window))) @ ''s''"

definition query_request_stats ::
  "'f float_ops \<Rightarrow> 'f prometheus_library \<Rightarrow> 'w prometheus_service \<Rightarrow> prometheus_client \<Rightarrow> time \<Rightarrow> time \<Rightarrow>
     'w \<Rightarrow> 'w \<times> (go_error + 'f request_success_stats)" where
  "query_request_stats fo lib service client now window w =
     (let text_window = window_seconds_text fo lib window;
          total_query = request_count_query loadtest_scenario_selector text_window;
          success_query = request_count_query
            (loadtest_scenario_selector @ '',expected_response=\"true\"'') text_window
      in case scalar_query fo lib service client now total_query w of
        (w1, Inl e) \<Rightarrow> (w1, Inl e)
      | (w1, Inr overall) \<Rightarrow>
          (case scalar_query fo lib service client now success_query w1 of
             (w2, Inl e) \<Rightarrow> (w2, Inl e)
           | (w2, Inr successful) \<Rightarrow>
               (w2, Inr \<lparr>rs_successful = (if fo_less fo overall successful then overall else successful),
                         rs_total = overall\<rparr>)))"

fun query_each ::
  "'f float_ops \<Rightarrow> 'f prometheus_library \<Rightarrow> 'w prometheus_service \<Rightarrow> prometheus_client \<Rightarrow> time \<Rightarrow> string list \<Rightarrow>
     'w \<Rightarrow> 'w \<times> (go_error + 'f list)" where
  "query_each fo lib service client now [] w = (w, Inr [])"
| "query_each fo lib service client now (q # qs) w =
     (case scalar_query fo lib service client now q w of
        (w', Inl e) \<Rightarrow> (w', Inl e)
      | (w', Inr x) \<Rightarrow>
          (case query_each fo lib service client now qs w' of
             (w'', Inl e) \<Rightarrow> (w'', Inl e) | (w'', Inr xs) \<Rightarrow> (w'', Inr (x # xs))))"

definition purchase_metrics :: "string list" where
  "purchase_metrics =
     [''k6_purchased_outcomes_total'', ''k6_cancelled_outcomes_total'', ''k6_checkout_expired_outcomes_total'']"

definition query_purchase_stats ::
  "'f float_ops \<Rightarrow> 'f prometheus_library \<Rightarrow> 'w prometheus_service \<Rightarrow> prometheus_client \<Rightarrow> time \<Rightarrow> time \<Rightarrow>
     'w \<Rightarrow> 'w \<times> (go_error + 'f purchase_success_stats)" where
  "query_purchase_stats fo lib service client now window w =
     (let text_window = window_seconds_text fo lib window in
      case query_each fo lib service client now
             (map (\<lambda>m. counter_count_query m purchase_scenario_selector text_window) purchase_metrics) w of
        (w', Inl e) \<Rightarrow> (w', Inl e)
      | (w', Inr xs) \<Rightarrow>
          (w', Inr \<lparr>pu_purchased = xs ! 0, pu_cancelled = xs ! 1, pu_checkout_expired = xs ! 2\<rparr>))"

section \<open>The handlers of the statistics\<close>

text \<open>
  A reader is what the interface \<open>LoadtestMetricsReader\<close> holds: the outer option is the interface,
  the inner one the pointer in it, which may be nil. \<open>None\<close> as the end of a handler is a panic.
\<close>

record 'f request_success_response =
  rr_window :: string
  rr_window_seconds :: int
  rr_successful :: 'f
  rr_total :: 'f
  rr_percentage :: 'f

record 'f purchase_success_response =
  ps_window :: string
  ps_window_seconds :: int
  ps_purchased :: 'f
  ps_cancelled :: 'f
  ps_checkout_expired :: 'f
  ps_total :: 'f
  ps_percentage :: 'f

definition shown_percentage :: "'f float_ops \<Rightarrow> 'f \<Rightarrow> 'f \<Rightarrow> 'f" where
  "shown_percentage fo part overall =
     (if fo_less fo (fo_of_int fo 0) overall
      then fo_div fo (fo_round fo (fo_mul fo (fo_div fo part overall) (fo_of_int fo 10000))) (fo_of_int fo 100)
      else fo_of_int fo 0)"

definition request_success_handler ::
  "'f float_ops \<Rightarrow> 'f prometheus_library \<Rightarrow> 'w prometheus_service \<Rightarrow> prometheus_client option \<Rightarrow> time \<Rightarrow> time \<Rightarrow>
     'w \<Rightarrow> 'w \<times> (http_response + int \<times> 'f request_success_response) option" where
  "request_success_handler fo lib service pointer now window w = (case pointer of
     None \<Rightarrow> (w, None)
   | Some client \<Rightarrow>
       (case query_request_stats fo lib service client now window w of
          (w', Inl e) \<Rightarrow> (w', Some (Inl (map_http_error e)))
        | (w', Inr stats) \<Rightarrow>
            (w', Some (Inr (200, \<lparr>rr_window = pl_duration_string lib window,
               rr_window_seconds = fo_to_int fo (pl_seconds lib window),
               rr_successful = rs_successful stats, rr_total = rs_total stats,
               rr_percentage = shown_percentage fo (rs_successful stats) (rs_total stats)\<rparr>)))))"

definition purchase_success_handler ::
  "'f float_ops \<Rightarrow> 'f prometheus_library \<Rightarrow> 'w prometheus_service \<Rightarrow> prometheus_client option \<Rightarrow> time \<Rightarrow> time \<Rightarrow>
     'w \<Rightarrow> 'w \<times> (http_response + int \<times> 'f purchase_success_response) option" where
  "purchase_success_handler fo lib service pointer now window w = (case pointer of
     None \<Rightarrow> (w, None)
   | Some client \<Rightarrow>
       (case query_purchase_stats fo lib service client now window w of
          (w', Inl e) \<Rightarrow> (w', Some (Inl (map_http_error e)))
        | (w', Inr stats) \<Rightarrow>
            let overall = fo_add fo (fo_add fo (pu_purchased stats) (pu_cancelled stats)) (pu_checkout_expired stats)
            in (w', Some (Inr (200, \<lparr>ps_window = pl_duration_string lib window,
                 ps_window_seconds = fo_to_int fo (pl_seconds lib window),
                 ps_purchased = pu_purchased stats, ps_cancelled = pu_cancelled stats,
                 ps_checkout_expired = pu_checkout_expired stats, ps_total = overall,
                 ps_percentage = shown_percentage fo (pu_purchased stats) overall\<rparr>)))))"

section \<open>The business snapshot\<close>

text \<open>
  The two queries see the database at different moments: \<open>d1\<close> and \<open>d2\<close>. The attempts are grouped in
  a map, where a state that does not occur counts 0. Products come in the order of their rows.
\<close>

record 'f business_snapshot =
  bs_attempts :: "string \<Rightarrow> 'f"
  bs_current_capacity :: 'f
  bs_recommended_capacity :: 'f
  bs_current_percent :: 'f
  bs_recommended_percent :: 'f

definition attempt_count :: "db \<Rightarrow> string \<Rightarrow> nat" where
  "attempt_count d state = length (filter (\<lambda>a. state_text (qa_state a) = state) (db_attempts d))"

fun add_capacities ::
  "'f float_ops \<Rightarrow> int \<Rightarrow> int \<Rightarrow> int list \<Rightarrow> 'f \<times> 'f \<Rightarrow> go_error + 'f \<times> 'f" where
  "add_capacities fo current_percent recommended_percent [] acc = Inr acc"
| "add_capacities fo current_percent recommended_percent (stock # stocks) (current_sum, recommended_sum) =
     bindE (waiting_capacity stock current_percent) (\<lambda>current.
     bindE (waiting_capacity stock recommended_percent) (\<lambda>recommended.
     add_capacities fo current_percent recommended_percent stocks
       (fo_add fo current_sum (fo_of_int fo current), fo_add fo recommended_sum (fo_of_int fo recommended))))"

definition read_business_snapshot ::
  "'f float_ops \<Rightarrow> db \<Rightarrow> db \<Rightarrow> int \<Rightarrow> 'f adaptive_snapshot option \<Rightarrow> go_error + 'f business_snapshot" where
  "read_business_snapshot fo d1 d2 current_percent adaptive =
     (let recommended_percent = (case adaptive of None \<Rightarrow> current_percent
            | Some s \<Rightarrow> (case sh_target s of None \<Rightarrow> current_percent | Some target \<Rightarrow> target))
      in bindE (add_capacities fo current_percent recommended_percent
           (map pr_stock (filter pr_queue_enabled (db_products d2))) (fo_of_int fo 0, fo_of_int fo 0))
         (\<lambda>(current, recommended). Inr \<lparr>bs_attempts = (\<lambda>state. fo_of_int fo (int (attempt_count d1 state))),
            bs_current_capacity = current, bs_recommended_capacity = recommended,
            bs_current_percent = fo_of_int fo current_percent,
            bs_recommended_percent = fo_of_int fo recommended_percent\<rparr>))"

text \<open>A sample: the name of the metric, the label of the state, the value.\<close>

definition collect_business :: "'f float_ops \<Rightarrow> go_error + 'f business_snapshot \<Rightarrow> (string \<times> string option \<times> 'f) list" where
  "collect_business fo result = (case result of
     Inl e \<Rightarrow> [(''goodqueue_business_metrics_collection_success'', None, fo_of_int fo 0)]
   | Inr s \<Rightarrow>
       map (\<lambda>state. (''goodqueue_queue_attempts'', Some state, bs_attempts s state))
         [''waiting'', ''invited'', ''checkout'', ''purchased''] @
       [(''goodqueue_queue_waiting_capacity'', None, bs_current_capacity s),
        (''goodqueue_queue_recommended_waiting_capacity'', None, bs_recommended_capacity s),
        (''goodqueue_queue_waiting_buffer_percent'', None, bs_current_percent s),
        (''goodqueue_queue_recommended_buffer_percent'', None, bs_recommended_percent s),
        (''goodqueue_business_metrics_collection_success'', None, fo_of_int fo 1)])"

section \<open>What the readers promise\<close>

lemma read_scalar_error: "read_scalar fo lib reply = Inl e \<Longrightarrow> e = metrics_unavailable"
  by (auto simp: read_scalar_def split: if_splits option.splits)

lemma scalar_query_error:
  "scalar_query fo lib service client now query w = (w', Inl e) \<Longrightarrow> e = metrics_unavailable"
  by (auto simp: scalar_query_def Let_def split: if_splits prod.splits option.splits dest: read_scalar_error)

lemma scalar_query_value:
  "scalar_query fo lib service client now query w = (w', Inr x) \<Longrightarrow>
     \<not> pl_is_nan lib x \<and> \<not> pl_is_inf lib x \<and> \<not> fo_less fo x (fo_of_int fo 0)"
  by (auto simp: scalar_query_def read_scalar_def Let_def split: if_splits prod.splits option.splits)

lemma query_each_error:
  "query_each fo lib service client now qs w = (w', Inl e) \<Longrightarrow> e = metrics_unavailable"
  by (induction qs arbitrary: w w') (auto split: prod.splits sum.splits dest: scalar_query_error)

lemma metrics_unavailable_answer [simp]:
  "map_http_error metrics_unavailable = (503, ErrorBody ''metrics_unavailable'' ''loadtest metrics are unavailable'')"
  by (simp add: metrics_unavailable_def map_http_error_def public_error_def)

lemma query_request_stats_error:
  "query_request_stats fo lib service client now window w = (w', Inl e) \<Longrightarrow> e = metrics_unavailable"
  by (auto simp: query_request_stats_def Let_def split: prod.splits sum.splits dest: scalar_query_error)

lemma query_purchase_stats_error:
  "query_purchase_stats fo lib service client now window w = (w', Inl e) \<Longrightarrow> e = metrics_unavailable"
  by (auto simp: query_purchase_stats_def Let_def split: prod.splits sum.splits dest: query_each_error)

text \<open>However the counters move between the two queries, no more requests succeed than there were.\<close>

lemma successful_at_most_total:
  assumes "\<And>x. \<not> fo_less fo x x" and "query_request_stats fo lib service client now window w = (w', Inr stats)"
  shows "\<not> fo_less fo (rs_total stats) (rs_successful stats)"
  using assms(2) assms(1) by (auto simp: query_request_stats_def Let_def split: prod.splits sum.splits if_splits)

lemma waiting_capacity_defined:
  assumes "0 \<le> stock" "stock \<le> 2147483647" "0 \<le> percent" "percent \<le> 1000000"
  shows "\<exists>c. waiting_capacity stock percent = Inr c"
proof -
  have product: "stock * percent \<le> 2147483647 * 1000000"
    using assms by (intro mult_mono) auto
  have "percent \<le> max_int64 div stock" if "stock \<noteq> 0"
    using that assms product zdiv_mono1 [of "stock * percent" max_int64 stock] by (simp add: max_int64_def)
  moreover have "i64 (stock * percent) = stock * percent"
    using product mult_nonneg_nonneg [OF assms(1,3)] by (intro i64_id) (auto simp: max_int64_def)
  ultimately show ?thesis
    using assms product by (auto simp: waiting_capacity_def Let_def max_int64_def)
qed

lemma add_capacities_total:
  assumes "\<forall>stock \<in> set stocks. 0 \<le> stock \<and> stock \<le> 2147483647"
    and "0 \<le> current" "current \<le> 1000000" "0 \<le> recommended" "recommended \<le> 1000000"
  shows "\<exists>sums. add_capacities fo current recommended stocks acc = Inr sums"
  using assms
proof (induction stocks arbitrary: acc)
  case (Cons stock stocks)
  obtain c r where "waiting_capacity stock current = Inr c" "waiting_capacity stock recommended = Inr r"
    using Cons.prems waiting_capacity_defined by (metis list.set_intros(1))
  then show ?case
    using Cons by (cases acc) simp
qed simp

text \<open>
  Under the database invariant and any percentages the configuration allows, the collector always
  has its snapshot.
\<close>

lemma business_snapshot_read:
  assumes "db_inv d2" and "0 \<le> percent" "percent \<le> max_waiting_buffer"
    and "\<And>s target. adaptive = Some s \<Longrightarrow> sh_target s = Some target \<Longrightarrow> 0 \<le> target \<and> target \<le> max_waiting_buffer"
  obtains s where "read_business_snapshot fo d1 d2 percent adaptive = Inr s"
    and "\<And>state. bs_attempts s state = fo_of_int fo (int (attempt_count d1 state))"
proof -
  have stocks: "\<forall>stock \<in> set (map pr_stock (filter pr_queue_enabled (db_products d2))). 0 \<le> stock \<and> stock \<le> 2147483647"
    using assms(1) by (auto simp: db_inv_def product_ok_def max_int32_def)
  obtain recommended where r: "0 \<le> recommended" "recommended \<le> 1000000"
    and eq: "(case adaptive of None \<Rightarrow> percent
       | Some s \<Rightarrow> (case sh_target s of None \<Rightarrow> percent | Some target \<Rightarrow> target)) = recommended"
    using assms(2-) by (fastforce simp: max_waiting_buffer_def split: option.splits)
  obtain sums where "add_capacities fo percent recommended
      (map pr_stock (filter pr_queue_enabled (db_products d2))) (fo_of_int fo 0, fo_of_int fo 0) = Inr sums"
    using add_capacities_total [OF stocks assms(2) _ r] assms(3) by (fastforce simp: max_waiting_buffer_def)
  then show ?thesis
    using that by (cases sums) (simp add: read_business_snapshot_def eq)
qed

end
