(* ===== verification/Router.thy ===== *)
theory Router
  imports Metrics Catalogue
begin

text \<open>
  The HTTP server as one function (\<open>internal/app/http/router.go\<close>, \<open>middleware\<close>, \<open>handler/health.go\<close>,
  \<open>handler/adaptive_queue.go\<close>): the table of routes with the ones that depend on the configuration,
  the chain of middlewares, and the dispatch to the handlers of \<open>Http\<close>, \<open>Catalogue\<close> and \<open>Metrics\<close>.

  The gin library is outside the repository. Its lookup of a path among the registered routes is
  the parameter \<open>gin_match\<close>; of its context the model keeps the status, the headers, whether a body
  was written, and the last error; \<open>c.Next()\<close> is the call of the rest of the chain, which ends
  normally or in a panic. The pages of the swagger and Prometheus libraries are a parameter as well.
  The identity middleware is part of the handlers (\<open>identity_from_context\<close>).
\<close>

section \<open>Requests, responses, routes\<close>

record wire_request =
  wq_method :: string
  wq_path :: string
  wq_origin :: string
  wq_request_id :: string
  wq_user :: string
  wq_key :: string
  wq_stock_body :: "stock_adjustment_request option"
  wq_payment_body :: "payment_event_request option"

record 'f adaptive_status_response =
  as_enabled :: bool
  as_base :: int
  as_current :: int
  as_target :: "int option"
  as_minimum :: int
  as_maximum :: int
  as_step :: int
  as_window :: string
  as_window_seconds :: int
  as_min_http :: int
  as_min_checkout :: int
  as_min_success :: 'f
  as_http_requests :: 'f
  as_http_success :: 'f
  as_checkout_outcomes :: 'f
  as_purchase_success :: 'f
  as_reason :: string
  as_evaluated_at :: "time option"
  as_applied_at :: "time option"

datatype 'f web_body =
    Empty
  | QueueJson http_body
  | StatusJson string
  | ProductJson product_response
  | ProductsJson "product_response list"
  | OffersJson "'f recommendation_response list"
  | UsersJson "(string \<times> string) list"
  | AdaptiveJson "'f adaptive_status_response"
  | RequestStatsJson "'f request_success_response"
  | PurchaseStatsJson "'f purchase_success_response"
  | RedirectTo string
  | ForeignPage bytes

text \<open>
  How a handler ends: it wrote a response; it left an error with \<open>c.Error\<close>, here as \<open>MapError\<close>
  renders it; it panicked.
\<close>

datatype 'f handler_end = Answered int "'f web_body" | Failed http_response | Panicked

datatype endpoint =
    Healthz | Readyz | MetricsPage | DocsRoot | DocsPages
  | ProductList | ProductGet | ProductAlternatives | QueueJoin | QueueCurrent | QueueLeave | QueueActive
  | CheckoutStart | DemoPayment | DemoUsers
  | AdaptiveStatus | RequestSuccessRate | PurchaseSuccessRate | StockAdjustment | PaymentEvents

type_synonym route = "string \<times> string \<times> endpoint"

section \<open>Dependencies\<close>

text \<open>
  \<open>rd_loadtest_metrics\<close> is an interface around a pointer, both may be nil. The other services are
  there or not; where the router does not test for nil they are functions.
\<close>

record ('s, 'f) router_dependencies =
  rd_ping :: "'s \<Rightarrow> bool"
  rd_list_products :: "'s \<Rightarrow> 's \<times> product list go_return"
  rd_get_product :: "'s \<Rightarrow> product_id \<Rightarrow> 's \<times> product go_return"
  rd_alternatives :: "'s \<Rightarrow> product_id \<Rightarrow> 's \<times> 'f product_recommendation list go_return"
  rd_join :: "'s \<Rightarrow> product_id \<Rightarrow> user_id \<Rightarrow> idempotency_key \<Rightarrow> 's \<times> join_queue_result go_return"
  rd_current :: "'s \<Rightarrow> product_id \<Rightarrow> user_id \<Rightarrow> 's \<times> current_queue_result go_return"
  rd_active :: "'s \<Rightarrow> user_id \<Rightarrow> 's \<times> current_queue_result list go_return"
  rd_leave :: "'s \<Rightarrow> product_id \<Rightarrow> user_id \<Rightarrow> 's \<times> go_error option"
  rd_start_checkout :: "'s \<Rightarrow> attempt_id \<Rightarrow> user_id \<Rightarrow> 's \<times> queue_attempt go_return"
  rd_demo_payment ::
    "'s \<Rightarrow> product_id \<Rightarrow> attempt_id \<Rightarrow> user_id \<Rightarrow> idempotency_key \<Rightarrow> 's \<times> demo_payment_result go_return"
  rd_demo_users :: "'s \<Rightarrow> 's \<times> demo_user list go_return"
  rd_stock :: "('s \<Rightarrow> stock_adjustment_command \<Rightarrow> 's \<times> stock_adjustment_result go_return) option"
  rd_payment ::
    "('s \<Rightarrow> string \<Rightarrow> string \<Rightarrow> string \<Rightarrow> string \<Rightarrow> string \<Rightarrow> 's \<times> payment_result go_return) option"
  rd_unsafe_stock :: bool
  rd_unsafe_payment :: bool
  rd_loadtest_metrics :: "prometheus_client option option"
  rd_success_window :: time
  rd_adaptive :: "('s \<Rightarrow> 'f adaptive_snapshot) option"
  rd_cors_origins :: "string list"
  rd_metrics_handler :: bool
  rd_metrics_middleware :: bool

definition registered_routes :: "('s, 'f) router_dependencies \<Rightarrow> route list" where
  "registered_routes rd =
     [(''GET'', ''/healthz'', Healthz), (''GET'', ''/readyz'', Readyz)] @
     (if rd_metrics_handler rd then [(''GET'', ''/metrics'', MetricsPage)] else []) @
     [(''GET'', ''/docs'', DocsRoot), (''GET'', ''/docs/*any'', DocsPages),
      (''GET'', ''/api/v1/products'', ProductList),
      (''GET'', ''/api/v1/products/:productID'', ProductGet),
      (''GET'', ''/api/v1/products/:productID/alternatives'', ProductAlternatives),
      (''POST'', ''/api/v1/products/:productID/queue-entries'', QueueJoin),
      (''GET'', ''/api/v1/products/:productID/queue-entry'', QueueCurrent),
      (''DELETE'', ''/api/v1/products/:productID/queue-entry'', QueueLeave),
      (''GET'', ''/api/v1/queue-entries/active'', QueueActive),
      (''POST'', ''/api/v1/queue-attempts/:attemptID/checkout'', CheckoutStart),
      (''POST'', ''/api/v1/products/:productID/queue-attempts/:attemptID/demo-payment'', DemoPayment),
      (''GET'', ''/api/v1/demo/users'', DemoUsers)] @
     (if rd_adaptive rd \<noteq> None then [(''GET'', ''/internal/v1/adaptive-queue/status'', AdaptiveStatus)] else []) @
     (if rd_loadtest_metrics rd \<noteq> None
      then [(''GET'', ''/internal/v1/loadtest/request-success-rate'', RequestSuccessRate),
            (''GET'', ''/internal/v1/loadtest/purchase-success-rate'', PurchaseSuccessRate)] else []) @
     (if rd_unsafe_stock rd \<and> rd_stock rd \<noteq> None
      then [(''POST'', ''/internal/v1/products/:productID/stock-adjustments'', StockAdjustment)] else []) @
     (if rd_unsafe_payment rd \<and> rd_payment rd \<noteq> None
      then [(''POST'', ''/internal/v1/payment-events'', PaymentEvents)] else [])"

section \<open>Handlers\<close>

definition health_handler :: "'f handler_end" where
  "health_handler = Answered 200 (StatusJson ''ok'')"

definition ready_handler :: "bool \<Rightarrow> 'f handler_end" where
  "ready_handler responds =
     (if \<not> responds then Answered 503 (StatusJson ''unavailable'') else Answered 200 (StatusJson ''ok''))"

definition adaptive_status_handler ::
  "'f float_ops \<Rightarrow> 'f prometheus_library \<Rightarrow> 'f adaptive_snapshot \<Rightarrow> 'f handler_end" where
  "adaptive_status_handler fo lib s = Answered 200 (AdaptiveJson
     \<lparr>as_enabled = sh_enabled s, as_base = sh_base s, as_current = sh_current s, as_target = sh_target s,
      as_minimum = sh_minimum s, as_maximum = sh_maximum s, as_step = sh_step s,
      as_window = pl_duration_string lib (sh_window s),
      as_window_seconds = fo_to_int fo (pl_seconds lib (sh_window s)),
      as_min_http = sh_min_http s, as_min_checkout = sh_min_checkout s, as_min_success = sh_min_success s,
      as_http_requests = sh_http_requests s, as_http_success = sh_http_success s,
      as_checkout_outcomes = sh_checkout_outcomes s, as_purchase_success = sh_purchase_success s,
      as_reason = reason_text (sh_reason s), as_evaluated_at = sh_evaluated_at s, as_applied_at = sh_applied_at s\<rparr>)"

fun of_response :: "http_response \<Rightarrow> 'f handler_end" where
  "of_response (status, ErrorBody code message) = Failed (status, ErrorBody code message)"
| "of_response (status, body) = Answered status (QueueJson body)"

fun of_answer :: "('b \<Rightarrow> 'f web_body) \<Rightarrow> 'b answer \<Rightarrow> 'f handler_end" where
  "of_answer render (Inl e) = Failed e"
| "of_answer render (Inr (status, b)) = Answered status (render b)"

fun of_reader :: "('b \<Rightarrow> 'f web_body) \<Rightarrow> 'b answer option \<Rightarrow> 'f handler_end" where
  "of_reader render None = Panicked"
| "of_reader render (Some answer) = of_answer render answer"

text \<open>What the handlers use besides their services: libraries, pages of third parties, the clock.\<close>

record ('s, 'f) web_environment =
  we_externals :: externals
  we_floats :: "'f float_ops"
  we_library :: "'f prometheus_library"
  we_prometheus :: "'s prometheus_service"
  we_page :: "endpoint \<Rightarrow> 's \<Rightarrow> 'f handler_end"
  we_now :: "'s \<Rightarrow> time"

definition http_request_of :: "wire_request \<Rightarrow> string \<Rightarrow> string \<Rightarrow> http_request" where
  "http_request_of q product_param attempt_param =
     \<lparr>rq_user_header = wq_user q, rq_key_header = wq_key q, rq_product = product_param, rq_attempt = attempt_param\<rparr>"

text \<open>An endpoint whose service is missing is not registered; the last case is never reached.\<close>

definition run_endpoint ::
  "('s, 'f) web_environment \<Rightarrow> ('s, 'f) router_dependencies \<Rightarrow> endpoint \<Rightarrow> wire_request \<Rightarrow> http_request \<Rightarrow> 's \<Rightarrow>
     's \<times> 'f handler_end" where
  "run_endpoint we rd e q req s =
     (let ext = we_externals we; fo = we_floats we; lib = we_library we in
      case e of
        Healthz \<Rightarrow> (s, health_handler)
      | Readyz \<Rightarrow> (s, ready_handler (rd_ping rd s))
      | MetricsPage \<Rightarrow> (s, we_page we MetricsPage s)
      | DocsRoot \<Rightarrow> (s, Answered 301 (RedirectTo ''/docs/index.html''))
      | DocsPages \<Rightarrow> (s, we_page we DocsPages s)
      | ProductList \<Rightarrow> map_prod id (of_answer ProductsJson) (product_list_handler ext (rd_list_products rd) s)
      | ProductGet \<Rightarrow> map_prod id (of_answer ProductJson) (product_get_handler ext (rd_get_product rd) s req)
      | ProductAlternatives \<Rightarrow> map_prod id (of_answer OffersJson) (alternatives_handler ext (rd_alternatives rd) s req)
      | QueueJoin \<Rightarrow> map_prod id of_response (join_handler ext (rd_join rd) s req)
      | QueueCurrent \<Rightarrow> map_prod id of_response (current_handler ext (rd_current rd) s req)
      | QueueLeave \<Rightarrow> map_prod id of_response (leave_handler ext (rd_leave rd) s req)
      | QueueActive \<Rightarrow> map_prod id of_response (active_handler ext (rd_active rd) s req)
      | CheckoutStart \<Rightarrow> map_prod id of_response (start_checkout_handler ext (rd_start_checkout rd) s req)
      | DemoPayment \<Rightarrow> map_prod id of_response (demo_payment_handler ext (rd_demo_payment rd) s req)
      | DemoUsers \<Rightarrow> map_prod id (of_answer UsersJson) (demo_user_list_handler (rd_demo_users rd) s)
      | AdaptiveStatus \<Rightarrow> (case rd_adaptive rd of
            Some snapshot \<Rightarrow> (s, adaptive_status_handler fo lib (snapshot s)) | None \<Rightarrow> (s, Panicked))
      | RequestSuccessRate \<Rightarrow> (case rd_loadtest_metrics rd of
            Some pointer \<Rightarrow> map_prod id (of_reader RequestStatsJson)
              (request_success_handler fo lib (we_prometheus we) pointer (we_now we s) (rd_success_window rd) s)
          | None \<Rightarrow> (s, Panicked))
      | PurchaseSuccessRate \<Rightarrow> (case rd_loadtest_metrics rd of
            Some pointer \<Rightarrow> map_prod id (of_reader PurchaseStatsJson)
              (purchase_success_handler fo lib (we_prometheus we) pointer (we_now we s) (rd_success_window rd) s)
          | None \<Rightarrow> (s, Panicked))
      | StockAdjustment \<Rightarrow> (case rd_stock rd of
            Some service \<Rightarrow> map_prod id of_response (adjust_stock_handler ext service s req (wq_stock_body q))
          | None \<Rightarrow> (s, Panicked))
      | PaymentEvents \<Rightarrow> (case rd_payment rd of
            Some service \<Rightarrow> map_prod id of_response (payment_event_handler ext service s (wq_payment_body q))
          | None \<Rightarrow> (s, Panicked)))"

section \<open>The middlewares\<close>

record 'f gin_context =
  gc_headers :: "(string \<times> string) list"
  gc_status :: int
  gc_written :: "'f web_body option"
  gc_error :: "http_response option"
  gc_request_id :: string

record access_line =
  al_method :: string
  al_path :: string
  al_status :: int
  al_request_id :: string

text \<open>The server around the store: the counted requests in order, and the access log.\<close>

record 's web_state =
  ws_store :: 's
  ws_counted :: "(string \<times> string \<times> int) list"
  ws_log :: "access_line list"

text \<open>The rest of the chain; the flag says that it panicked.\<close>

type_synonym ('s, 'f) flow = "'s web_state \<Rightarrow> 'f gin_context \<Rightarrow> ('s web_state \<times> 'f gin_context) \<times> bool"

definition set_header :: "string \<Rightarrow> string \<Rightarrow> 'f gin_context \<Rightarrow> 'f gin_context" where
  "set_header name value c = c\<lparr>gc_headers := filter (\<lambda>h. fst h \<noteq> name) (gc_headers c) @ [(name, value)]\<rparr>"

definition request_id_middleware :: "string \<Rightarrow> wire_request \<Rightarrow> ('s, 'f) flow \<Rightarrow> ('s, 'f) flow" where
  "request_id_middleware fresh_id q next s c =
     (let request_id = (if wq_request_id q = [] then fresh_id else wq_request_id q)
      in next s (set_header ''X-Request-ID'' request_id (c\<lparr>gc_request_id := request_id\<rparr>)))"

definition set_cors_headers :: "string \<Rightarrow> 'f gin_context \<Rightarrow> 'f gin_context" where
  "set_cors_headers origin c =
     set_header ''Vary'' ''Origin''
     (set_header ''Access-Control-Expose-Headers'' ''X-Request-ID''
     (set_header ''Access-Control-Allow-Headers'' ''Content-Type, X-User-ID, Idempotency-Key, X-Request-ID''
     (set_header ''Access-Control-Allow-Methods'' ''GET, POST, DELETE, OPTIONS''
     (set_header ''Access-Control-Allow-Origin'' origin c))))"

definition abort_with_status :: "int \<Rightarrow> 'f gin_context \<Rightarrow> 'f gin_context" where
  "abort_with_status status c = c\<lparr>gc_status := status, gc_written := Some Empty\<rparr>"

definition cors_middleware :: "string list \<Rightarrow> wire_request \<Rightarrow> ('s, 'f) flow \<Rightarrow> ('s, 'f) flow" where
  "cors_middleware allowed q next s c =
     (let origin = wq_origin q;
          c' = (if origin \<in> set allowed then set_cors_headers origin c else c)
      in if wq_method q = ''OPTIONS''
         then if origin = [] then ((s, abort_with_status 204 c'), False)
              else if origin \<notin> set allowed then ((s, abort_with_status 403 c'), False)
              else ((s, abort_with_status 204 c'), False)
         else next s c')"

definition access_log_middleware :: "wire_request \<Rightarrow> ('s, 'f) flow \<Rightarrow> ('s, 'f) flow" where
  "access_log_middleware q next s c = (case next s c of
     (r, True) \<Rightarrow> (r, True)
   | ((s', c'), False) \<Rightarrow>
       ((s'\<lparr>ws_log := ws_log s' @ [\<lparr>al_method = wq_method q, al_path = wq_path q, al_status = gc_status c',
           al_request_id = gc_request_id c'\<rparr>]\<rparr>, c'), False))"

definition error_middleware :: "('s, 'f) flow \<Rightarrow> ('s, 'f) flow" where
  "error_middleware next s c = (case next s c of
     (r, True) \<Rightarrow> (r, True)
   | ((s', c'), False) \<Rightarrow>
       (case gc_error c' of
          None \<Rightarrow> ((s', c'), False)
        | Some (status, body) \<Rightarrow>
            if gc_written c' \<noteq> None then ((s', c'), False)
            else ((s', c'\<lparr>gc_status := status, gc_written := Some (QueueJson body)\<rparr>), False)))"

definition recovery_middleware :: "('s, 'f) flow \<Rightarrow> ('s, 'f) flow" where
  "recovery_middleware next s c = (case next s c of
     (r, False) \<Rightarrow> (r, False)
   | ((s', c'), True) \<Rightarrow> ((s', c'\<lparr>gc_error := Some (map_http_error (Wrapped [Sentinel ErrInternal]))\<rparr>), False))"

definition counted_route :: "string \<Rightarrow> bool" where
  "counted_route route \<longleftrightarrow> route \<noteq> [] \<and> (take 5 route = ''/api/'' \<or> take 10 route = ''/internal/'')"

definition metrics_middleware :: "wire_request \<Rightarrow> string \<Rightarrow> ('s, 'f) flow \<Rightarrow> ('s, 'f) flow" where
  "metrics_middleware q route next s c = (case next s c of
     (r, True) \<Rightarrow> (r, True)
   | ((s', c'), False) \<Rightarrow>
       if \<not> counted_route route then ((s', c'), False)
       else ((s'\<lparr>ws_counted := ws_counted s' @ [(wq_method q, route, gc_status c')]\<rparr>, c'), False))"

text \<open>\<open>c.Status\<close> sets the status alone, \<open>c.JSON\<close> and \<open>c.Data\<close> write.\<close>

definition handler_flow :: "('s \<Rightarrow> 's \<times> 'f handler_end) \<Rightarrow> ('s, 'f) flow" where
  "handler_flow handler s c = (case handler (ws_store s) of (store, ending) \<Rightarrow>
     (case ending of
        Answered status (QueueJson NoBody) \<Rightarrow> ((s\<lparr>ws_store := store\<rparr>, c\<lparr>gc_status := status\<rparr>), False)
      | Answered status body \<Rightarrow>
          ((s\<lparr>ws_store := store\<rparr>, c\<lparr>gc_status := status, gc_written := Some body\<rparr>), False)
      | Failed e \<Rightarrow> ((s\<lparr>ws_store := store\<rparr>, c\<lparr>gc_error := Some e\<rparr>), False)
      | Panicked \<Rightarrow> ((s\<lparr>ws_store := store\<rparr>, c), True)))"

section \<open>Serving a request\<close>

text \<open>
  The outcome of gin's lookup: a route with its parameters, no route, or the redirection to the same
  path with or without its trailing slash, which gin answers before any middleware.
\<close>

datatype gin_lookup =
    Matched string endpoint string string
  | Unmatched
  | SlashRedirect int string

type_synonym gin_match = "route list \<Rightarrow> string \<Rightarrow> string \<Rightarrow> gin_lookup"

definition middleware_chain ::
  "('s, 'f) router_dependencies \<Rightarrow> string \<Rightarrow> wire_request \<Rightarrow> string \<Rightarrow> ('s, 'f) flow \<Rightarrow> ('s, 'f) flow" where
  "middleware_chain rd fresh_id q route handler =
     request_id_middleware fresh_id q
     (cors_middleware (rd_cors_origins rd) q
     (access_log_middleware q
     (error_middleware
     (recovery_middleware
     (if rd_metrics_middleware rd then metrics_middleware q route handler else handler)))))"

definition fresh_context :: "int \<Rightarrow> 'f gin_context" where
  "fresh_context status = \<lparr>gc_headers = [], gc_status = status, gc_written = None, gc_error = None, gc_request_id = []\<rparr>"

definition serve_request ::
  "gin_match \<Rightarrow> ('s, 'f) web_environment \<Rightarrow> ('s, 'f) router_dependencies \<Rightarrow> string \<Rightarrow> wire_request \<Rightarrow>
     's web_state \<Rightarrow> 's web_state \<times> 'f gin_context" where
  "serve_request gin we rd fresh_id q s =
     (case gin (registered_routes rd) (wq_method q) (wq_path q) of
        Matched route e product_param attempt_param \<Rightarrow>
          fst (middleware_chain rd fresh_id q route
            (handler_flow (run_endpoint we rd e q (http_request_of q product_param attempt_param))) s (fresh_context 200))
      | Unmatched \<Rightarrow>
          (case fst (middleware_chain rd fresh_id q [] (\<lambda>s c. ((s, c), False)) s (fresh_context 404)) of
             (s', c) \<Rightarrow> (s', if gc_written c = None \<and> gc_status c = 404
                then c\<lparr>gc_written := Some (ForeignPage ''404 page not found'')\<rparr> else c))
      | SlashRedirect status location \<Rightarrow>
          (s, (fresh_context status)\<lparr>gc_written := Some (RedirectTo location)\<rparr>))"

section \<open>What the services promise\<close>

text \<open>
  Every service keeps a reflexive and transitive relation between the states before and after a
  call. Then so does every request, whichever handler it reaches and however it ends.
\<close>

locale routed_services =
  fixes R :: "'s \<Rightarrow> 's \<Rightarrow> bool" and we :: "('s, 'f) web_environment" and rd :: "('s, 'f) router_dependencies"
  assumes R_refl: "R s s" and R_trans: "R s t \<Longrightarrow> R t u \<Longrightarrow> R s u"
    and prometheus_kept: "we_prometheus we s r = (s', x) \<Longrightarrow> R s s'"
    and list_kept: "rd_list_products rd s = (s', ps) \<Longrightarrow> R s s'"
    and get_kept: "rd_get_product rd s pid = (s', p) \<Longrightarrow> R s s'"
    and alternatives_kept: "rd_alternatives rd s pid = (s', rs) \<Longrightarrow> R s s'"
    and join_kept: "rd_join rd s pid user key = (s', j) \<Longrightarrow> R s s'"
    and current_kept: "rd_current rd s pid user = (s', c) \<Longrightarrow> R s s'"
    and active_kept: "rd_active rd s user = (s', cs) \<Longrightarrow> R s s'"
    and leave_kept: "rd_leave rd s pid user = (s', l) \<Longrightarrow> R s s'"
    and checkout_kept: "rd_start_checkout rd s aid user = (s', a) \<Longrightarrow> R s s'"
    and demo_kept: "rd_demo_payment rd s pid aid user key = (s', d) \<Longrightarrow> R s s'"
    and users_kept: "rd_demo_users rd s = (s', us) \<Longrightarrow> R s s'"
    and stock_kept: "rd_stock rd = Some stock \<Longrightarrow> stock s cmd = (s', sa) \<Longrightarrow> R s s'"
    and payment_kept: "rd_payment rd = Some payment \<Longrightarrow> payment s provider event attempt outcome ref = (s', pt) \<Longrightarrow> R s s'"
begin

lemma queue_handlers_kept:
  "R s (fst (join_handler ext (rd_join rd) s req))"
  "R s (fst (current_handler ext (rd_current rd) s req))"
  "R s (fst (active_handler ext (rd_active rd) s req))"
  "R s (fst (leave_handler ext (rd_leave rd) s req))"
  "R s (fst (start_checkout_handler ext (rd_start_checkout rd) s req))"
  "R s (fst (demo_payment_handler ext (rd_demo_payment rd) s req))"
  by (auto simp: join_handler_def current_handler_def active_handler_def leave_handler_def start_checkout_handler_def
        demo_payment_handler_def Let_def R_refl split: sum.split prod.split option.split
      dest: join_kept current_kept active_kept leave_kept checkout_kept demo_kept)

lemma internal_handlers_kept:
  "rd_stock rd = Some stock \<Longrightarrow> R s (fst (adjust_stock_handler ext stock s req body))"
  "rd_payment rd = Some payment \<Longrightarrow> R s (fst (payment_event_handler ext payment s event_body))"
  by (auto simp: adjust_stock_handler_def payment_event_handler_def Let_def R_refl
      split: sum.split prod.split option.split dest: stock_kept payment_kept)

lemma reading_handlers_kept:
  "R s (fst (product_list_handler ext (rd_list_products rd) s))"
  "R s (fst (product_get_handler ext (rd_get_product rd) s req))"
  "R s (fst (alternatives_handler ext (rd_alternatives rd) s req))"
  "R s (fst (demo_user_list_handler (rd_demo_users rd) s))"
  by (auto simp: product_list_handler_def product_get_handler_def alternatives_handler_def demo_user_list_handler_def
        R_refl split: sum.split prod.split option.split dest: list_kept get_kept alternatives_kept users_kept)

lemma scalar_query_kept: "scalar_query fo lib (we_prometheus we) client now query s = (s', x) \<Longrightarrow> R s s'"
  by (auto simp: scalar_query_def Let_def R_refl split: if_splits prod.splits option.splits dest: prometheus_kept)

lemma query_each_kept: "query_each fo lib (we_prometheus we) client now qs s = (s', x) \<Longrightarrow> R s s'"
  by (induction qs arbitrary: s s' x)
     (auto simp: R_refl split: prod.splits sum.splits dest!: scalar_query_kept intro: R_trans)

lemma metrics_handlers_kept:
  "R s (fst (request_success_handler fo lib (we_prometheus we) pointer now window s))"
  "R s (fst (purchase_success_handler fo lib (we_prometheus we) pointer now window s))"
proof -
  have requests: "R s s'" if "query_request_stats fo lib (we_prometheus we) client now window s = (s', x)" for client s' x
    using that by (auto simp: query_request_stats_def Let_def split: prod.splits sum.splits
        dest!: scalar_query_kept intro: R_trans)
  have purchases: "R s s'" if "query_purchase_stats fo lib (we_prometheus we) client now window s = (s', x)" for client s' x
    using that by (auto simp: query_purchase_stats_def Let_def split: prod.splits sum.splits dest: query_each_kept)
  show "R s (fst (request_success_handler fo lib (we_prometheus we) pointer now window s))"
    by (auto simp: request_success_handler_def R_refl split: option.split prod.split sum.split dest: requests)
  show "R s (fst (purchase_success_handler fo lib (we_prometheus we) pointer now window s))"
    by (auto simp: purchase_success_handler_def Let_def R_refl split: option.split prod.split sum.split dest: purchases)
qed

lemma run_endpoint_kept: "R s (fst (run_endpoint we rd e q req s))"
  by (cases e) (simp_all add: run_endpoint_def Let_def R_refl queue_handlers_kept internal_handlers_kept
      reading_handlers_kept metrics_handlers_kept split: option.split)

lemma handler_flow_kept: "R (ws_store s) (ws_store (fst (fst (handler_flow (run_endpoint we rd e q req) s c))))"
  using run_endpoint_kept [of "ws_store s" e q req]
  by (auto simp: handler_flow_def split: prod.split handler_end.split web_body.split http_body.split)

end

text \<open>The middlewares leave the store to the handler.\<close>

lemma middleware_store [simp]:
  "ws_store (fst (fst (metrics_middleware q route next s c))) = ws_store (fst (fst (next s c)))"
  "ws_store (fst (fst (recovery_middleware next s c))) = ws_store (fst (fst (next s c)))"
  "ws_store (fst (fst (error_middleware next s c))) = ws_store (fst (fst (next s c)))"
  "ws_store (fst (fst (access_log_middleware q next s c))) = ws_store (fst (fst (next s c)))"
  by (auto simp: metrics_middleware_def recovery_middleware_def error_middleware_def access_log_middleware_def
      split: prod.split bool.split option.split)

lemma middleware_chain_store:
  assumes "\<And>c. P (ws_store (fst (fst (handler s c))))" and "P (ws_store s)"
  shows "P (ws_store (fst (fst (middleware_chain rd fresh_id q route handler s c))))"
  using assms by (simp add: middleware_chain_def request_id_middleware_def cors_middleware_def Let_def)

context routed_services
begin

lemma request_kept: "R (ws_store s) (ws_store (fst (serve_request gin we rd fresh_id q s)))"
proof (cases "gin (registered_routes rd) (wq_method q) (wq_path q)")
  case (Matched route e product_param attempt_param)
  then show ?thesis
    by (simp add: serve_request_def)
       (rule middleware_chain_store [where P = "R (ws_store s)"], rule handler_flow_kept, rule R_refl)
next
  case Unmatched
  then show ?thesis
    using middleware_chain_store [where P = "R (ws_store s)" and handler = "\<lambda>s c. ((s, c), False)" and s = s
        and rd = rd and fresh_id = fresh_id and q = q and route = "[]" and c = "fresh_context 404"] R_refl
    by (auto simp: serve_request_def split: prod.split)
qed (simp add: serve_request_def R_refl)

end

end
