(* ===== verification/Router_Properties.thy ===== *)
theory Router_Properties
  imports Router
begin

text \<open>
  What happens to one request between the router and its handler: which middleware answers, what
  is logged and counted, and what a panic becomes.
\<close>

section \<open>Response headers\<close>

definition header_of :: "string \<Rightarrow> 'f gin_context \<Rightarrow> string option" where
  "header_of name c = map_of (gc_headers c) name"

lemma map_of_other_headers: "map_of (filter (\<lambda>h. fst h \<noteq> name) hs) k = (if k = name then None else map_of hs k)"
  by (induction hs) auto

lemma header_of_set_header [simp]:
  "header_of k (set_header name value c) = (if k = name then Some value else header_of k c)"
  by (auto simp: header_of_def set_header_def map_of_other_headers map_add_def split: option.splits)

lemma set_header_simps [simp]:
  "gc_status (set_header name value c) = gc_status c" "gc_written (set_header name value c) = gc_written c"
  "gc_error (set_header name value c) = gc_error c" "gc_request_id (set_header name value c) = gc_request_id c"
  by (simp_all add: set_header_def)

lemma set_cors_headers_simps [simp]:
  "gc_status (set_cors_headers origin c) = gc_status c" "gc_written (set_cors_headers origin c) = gc_written c"
  "gc_error (set_cors_headers origin c) = gc_error c" "gc_request_id (set_cors_headers origin c) = gc_request_id c"
  "header_of ''Access-Control-Allow-Origin'' (set_cors_headers origin c) = Some origin"
  "header_of ''Access-Control-Allow-Methods'' (set_cors_headers origin c) = Some ''GET, POST, DELETE, OPTIONS''"
  "header_of ''X-Request-ID'' (set_cors_headers origin c) = header_of ''X-Request-ID'' c"
  by (simp_all add: set_cors_headers_def)

lemma header_of_updates [simp]:
  "header_of k (c\<lparr>gc_status := st\<rparr>) = header_of k c" "header_of k (c\<lparr>gc_written := b\<rparr>) = header_of k c"
  "header_of k (c\<lparr>gc_error := e\<rparr>) = header_of k c" "header_of k (c\<lparr>gc_request_id := i\<rparr>) = header_of k c"
  "header_of k (fresh_context st) = None"
  by (simp_all add: header_of_def fresh_context_def)

section \<open>What a handler's end becomes\<close>

definition sent_body :: "'f gin_context \<Rightarrow> 'f web_body" where
  "sent_body c = (case gc_written c of None \<Rightarrow> Empty | Some body \<Rightarrow> body)"

definition response_of :: "'f handler_end \<Rightarrow> int \<times> 'f web_body" where
  "response_of ending = (case ending of
     Answered status (QueueJson NoBody) \<Rightarrow> (status, Empty)
   | Answered status body \<Rightarrow> (status, body)
   | Failed (status, body) \<Rightarrow> (status, QueueJson body)
   | Panicked \<Rightarrow> (500, QueueJson (ErrorBody ''internal_error'' ''internal server error'')))"

text \<open>The status under which the metrics middleware counts a request; a panic passes it by.\<close>

definition counted_status :: "'f handler_end \<Rightarrow> int option" where
  "counted_status ending = (case ending of Answered status body \<Rightarrow> Some status | Failed e \<Rightarrow> Some 200 | Panicked \<Rightarrow> None)"

lemma internal_error_response [simp]:
  "map_http_error (Wrapped [Sentinel ErrInternal]) = (500, ErrorBody ''internal_error'' ''internal server error'')"
  by (simp add: map_http_error_def public_error_def)

lemma map_http_error_status: "400 \<le> fst (map_http_error e)"
  by (simp add: map_http_error_def public_error_def)

lemma handler_flow_core:
  assumes "handler (ws_store s) = (store, ending)" and "gc_status c = 200" "gc_written c = None" "gc_error c = None"
  obtains c' where "error_middleware (recovery_middleware (if counting then metrics_middleware q route (handler_flow handler)
        else handler_flow handler)) s c =
      ((s\<lparr>ws_store := store, ws_counted := ws_counted s @ (case counted_status ending of
           Some status \<Rightarrow> if counting \<and> counted_route route then [(wq_method q, route, status)] else []
         | None \<Rightarrow> [])\<rparr>, c'), False)"
    and "(gc_status c', sent_body c') = response_of ending" and "gc_headers c' = gc_headers c"
    and "gc_request_id c' = gc_request_id c"
proof -
  show ?thesis
  proof (cases ending)
    case (Answered status body)
    show ?thesis
    proof (cases "body = QueueJson NoBody")
      case True
      then show ?thesis
        using assms Answered
        by (intro that [of "c\<lparr>gc_status := status\<rparr>"])
           (auto simp: error_middleware_def recovery_middleware_def metrics_middleware_def handler_flow_def
              counted_status_def response_of_def sent_body_def)
    next
      case False
      then have flow: "handler_flow handler s c =
          ((s\<lparr>ws_store := store\<rparr>, c\<lparr>gc_status := status, gc_written := Some body\<rparr>), False)"
        using assms(1) Answered by (auto simp: handler_flow_def split: web_body.splits http_body.splits)
      have "response_of ending = (status, body)"
        using False Answered by (auto simp: response_of_def split: web_body.splits http_body.splits)
      then show ?thesis
        using assms(2-) Answered flow
        by (intro that [of "c\<lparr>gc_status := status, gc_written := Some body\<rparr>"])
           (auto simp: error_middleware_def recovery_middleware_def metrics_middleware_def
              counted_status_def sent_body_def)
    qed
  next
    case (Failed e)
    then show ?thesis
      using assms
      by (cases e, intro that [of "c\<lparr>gc_error := Some e, gc_status := fst e, gc_written := Some (QueueJson (snd e))\<rparr>"])
         (auto simp: error_middleware_def recovery_middleware_def metrics_middleware_def handler_flow_def
            counted_status_def response_of_def sent_body_def)
  next
    case Panicked
    then show ?thesis
      using assms
      by (intro that [of "c\<lparr>gc_error := Some (map_http_error (Wrapped [Sentinel ErrInternal])), gc_status := 500,
             gc_written := Some (QueueJson (ErrorBody ''internal_error'' ''internal server error''))\<rparr>"])
         (auto simp: error_middleware_def recovery_middleware_def metrics_middleware_def handler_flow_def
            counted_status_def response_of_def sent_body_def)
  qed
qed

text \<open>The errors of every handler come from \<open>MapError\<close>.\<close>

lemma map_http_error_bound: "map_http_error e = (status, body) \<Longrightarrow> 400 \<le> status"
  using map_http_error_status [of e] by simp

lemma queue_handlers_error_status:
  "join_handler ext svc1 s req = (s', status, ErrorBody code message) \<Longrightarrow> 400 \<le> status"
  "current_handler ext svc2 s req = (s', status, ErrorBody code message) \<Longrightarrow> 400 \<le> status"
  "active_handler ext svc3 s req = (s', status, ErrorBody code message) \<Longrightarrow> 400 \<le> status"
  "leave_handler ext svc4 s req = (s', status, ErrorBody code message) \<Longrightarrow> 400 \<le> status"
  "start_checkout_handler ext svc5 s req = (s', status, ErrorBody code message) \<Longrightarrow> 400 \<le> status"
  "demo_payment_handler ext svc6 s req = (s', status, ErrorBody code message) \<Longrightarrow> 400 \<le> status"
  "adjust_stock_handler ext svc7 s req stock_body = (s', status, ErrorBody code message) \<Longrightarrow> 400 \<le> status"
  "payment_event_handler ext svc8 s payment_body = (s', status, ErrorBody code message) \<Longrightarrow> 400 \<le> status"
  by (auto simp: join_handler_def current_handler_def active_handler_def leave_handler_def start_checkout_handler_def
        demo_payment_handler_def adjust_stock_handler_def payment_event_handler_def Let_def
      split: sum.splits prod.splits option.splits if_splits dest: map_http_error_bound)

lemma reading_handlers_error_status:
  "product_list_handler ext svc1 s = (s', Inl e) \<Longrightarrow> 400 \<le> fst e"
  "product_get_handler ext svc2 s req = (s', Inl e) \<Longrightarrow> 400 \<le> fst e"
  "alternatives_handler ext svc3 s req = (s', Inl e) \<Longrightarrow> 400 \<le> fst e"
  "demo_user_list_handler svc4 s = (s', Inl e) \<Longrightarrow> 400 \<le> fst e"
  "request_success_handler fo lib service pointer now window w = (w', Some (Inl e)) \<Longrightarrow> 400 \<le> fst e"
  "purchase_success_handler fo lib service pointer now window w = (w', Some (Inl e)) \<Longrightarrow> 400 \<le> fst e"
  using map_http_error_status
  by (auto simp: product_list_handler_def product_get_handler_def alternatives_handler_def demo_user_list_handler_def
        request_success_handler_def purchase_success_handler_def Let_def split: sum.splits prod.splits option.splits)

lemma of_response_failed: "of_response r = Failed e \<Longrightarrow> \<exists>status code message. r = (status, ErrorBody code message) \<and> e = r"
  by (cases r rule: of_response.cases) auto

lemma of_answer_failed: "of_answer render r = Failed e \<Longrightarrow> r = Inl e"
  by (cases "(render, r)" rule: of_answer.cases) auto

lemma of_reader_failed: "of_reader render r = Failed e \<Longrightarrow> r = Some (Inl e)"
  by (cases r) (auto dest: of_answer_failed)

lemma run_endpoint_failed:
  assumes "run_endpoint we rd e q req s = (s', Failed r)" and "\<And>p s. we_page we p s \<noteq> Failed r"
  shows "400 \<le> fst r"
proof (cases e)
  case MetricsPage then show ?thesis using assms by (simp add: run_endpoint_def)
next
  case DocsPages then show ?thesis using assms by (simp add: run_endpoint_def)
qed (use assms(1) in \<open>auto simp: run_endpoint_def health_handler_def ready_handler_def adaptive_status_handler_def Let_def
       map_prod_def split: prod.splits if_splits option.splits
       dest!: of_response_failed of_answer_failed of_reader_failed
       dest: queue_handlers_error_status reading_handlers_error_status\<close>)

section \<open>One request\<close>

text \<open>What remains of a request once the request identifier and the CORS headers are set.\<close>

definition opened_context :: "int \<Rightarrow> ('s, 'f) router_dependencies \<Rightarrow> string \<Rightarrow> wire_request \<Rightarrow> 'f gin_context" where
  "opened_context status rd fresh_id q =
     (let request_id = (if wq_request_id q = [] then fresh_id else wq_request_id q);
          c = set_header ''X-Request-ID'' request_id ((fresh_context status)\<lparr>gc_request_id := request_id\<rparr>)
      in if wq_origin q \<in> set (rd_cors_origins rd) then set_cors_headers (wq_origin q) c else c)"

lemma opened_context_simps [simp]:
  "gc_status (opened_context status rd fresh_id q) = status" "gc_written (opened_context status rd fresh_id q) = None"
  "gc_error (opened_context status rd fresh_id q) = None"
  "gc_request_id (opened_context status rd fresh_id q) = (if wq_request_id q = [] then fresh_id else wq_request_id q)"
  "header_of ''X-Request-ID'' (opened_context status rd fresh_id q) =
     Some (if wq_request_id q = [] then fresh_id else wq_request_id q)"
  "header_of ''Access-Control-Allow-Origin'' (opened_context status rd fresh_id q) =
     (if wq_origin q \<in> set (rd_cors_origins rd) then Some (wq_origin q) else None)"
  "header_of ''Access-Control-Allow-Methods'' (opened_context status rd fresh_id q) =
     (if wq_origin q \<in> set (rd_cors_origins rd) then Some ''GET, POST, DELETE, OPTIONS'' else None)"
  by (auto simp: opened_context_def Let_def) (simp_all add: fresh_context_def header_of_def set_header_def)

text \<open>A preflight ends in the CORS middleware, every other request goes on from there.\<close>

definition preflight_status :: "('s, 'f) router_dependencies \<Rightarrow> wire_request \<Rightarrow> int" where
  "preflight_status rd q = (if wq_origin q = [] \<or> wq_origin q \<in> set (rd_cors_origins rd) then 204 else 403)"

lemma chain_opened:
  "fst (middleware_chain rd fresh_id q route handler s (fresh_context status)) =
     (if wq_method q = ''OPTIONS''
      then (s, abort_with_status (preflight_status rd q) (opened_context status rd fresh_id q))
      else fst (access_log_middleware q (error_middleware (recovery_middleware (if rd_metrics_middleware rd
          then metrics_middleware q route handler else handler))) s (opened_context status rd fresh_id q)))"
  by (auto simp: middleware_chain_def request_id_middleware_def cors_middleware_def opened_context_def
      preflight_status_def Let_def)

lemma no_options_route: "(''OPTIONS'', route, e) \<notin> set (registered_routes rd)"
  by (simp add: registered_routes_def)

text \<open>A path that matches no route goes through the middlewares too, to the answer 404.\<close>

lemma unmatched_request:
  assumes served: "serve_request gin we rd fresh_id q s = (s', c)"
    and unmatched: "gin (registered_routes rd) (wq_method q) (wq_path q) = Unmatched" and "wq_method q \<noteq> ''OPTIONS''"
  shows "ws_store s' = ws_store s \<and> ws_counted s' = ws_counted s \<and>
     ws_log s' = ws_log s @ [\<lparr>al_method = wq_method q, al_path = wq_path q, al_status = 404,
       al_request_id = gc_request_id (opened_context 404 rd fresh_id q)\<rparr>] \<and>
     c = (opened_context 404 rd fresh_id q)\<lparr>gc_written := Some (ForeignPage ''404 page not found'')\<rparr>"
  using assms
  by (cases "rd_metrics_middleware rd")
     (auto simp: serve_request_def chain_opened access_log_middleware_def error_middleware_def recovery_middleware_def
        metrics_middleware_def counted_route_def)

lemma matched_request:
  assumes served: "serve_request gin we rd fresh_id q s = (s', c)"
    and matched: "gin (registered_routes rd) (wq_method q) (wq_path q) = Matched route e product_param attempt_param"
    and get: "wq_method q \<noteq> ''OPTIONS''"
    and run: "run_endpoint we rd e q (http_request_of q product_param attempt_param) (ws_store s) = (store, ending)"
  shows "s' = s\<lparr>ws_store := store, ws_counted := ws_counted s @ (case counted_status ending of
           Some status \<Rightarrow> if rd_metrics_middleware rd \<and> counted_route route then [(wq_method q, route, status)] else []
         | None \<Rightarrow> []), ws_log := ws_log s @ [\<lparr>al_method = wq_method q, al_path = wq_path q,
           al_status = gc_status c, al_request_id = gc_request_id c\<rparr>]\<rparr> \<and>
     (gc_status c, sent_body c) = response_of ending \<and> gc_headers c = gc_headers (opened_context 200 rd fresh_id q) \<and>
     gc_request_id c = gc_request_id (opened_context 200 rd fresh_id q)"
proof -
  let ?run = "run_endpoint we rd e q (http_request_of q product_param attempt_param)"
  let ?inner = "error_middleware (recovery_middleware (if rd_metrics_middleware rd
        then metrics_middleware q route (handler_flow ?run) else handler_flow ?run))"
  have "(s', c) = fst (access_log_middleware q ?inner s (opened_context 200 rd fresh_id q))"
    using served matched get by (simp add: serve_request_def chain_opened)
  moreover obtain c' where "?inner s (opened_context 200 rd fresh_id q) =
      ((s\<lparr>ws_store := store, ws_counted := ws_counted s @ (case counted_status ending of
           Some status \<Rightarrow> if rd_metrics_middleware rd \<and> counted_route route then [(wq_method q, route, status)] else []
         | None \<Rightarrow> [])\<rparr>, c'), False)"
    and "(gc_status c', sent_body c') = response_of ending"
      "gc_headers c' = gc_headers (opened_context 200 rd fresh_id q)"
      "gc_request_id c' = gc_request_id (opened_context 200 rd fresh_id q)"
    by (rule handler_flow_core [where handler = ?run and s = s and c = "opened_context 200 rd fresh_id q" and q = q
          and route = route and counting = "rd_metrics_middleware rd", OF run]) simp_all
  ultimately show ?thesis by (simp add: access_log_middleware_def)
qed

lemma preflight_request:
  assumes served: "serve_request gin we rd fresh_id q s = (s', c)" and options: "wq_method q = ''OPTIONS''"
    and unmatched: "gin (registered_routes rd) (wq_method q) (wq_path q) = Unmatched"
  shows "s' = s \<and> c = abort_with_status (preflight_status rd q) (opened_context 404 rd fresh_id q)"
  using served unmatched options
  by (auto simp: serve_request_def chain_opened abort_with_status_def split: if_splits)

text \<open>
  C39. Every request is answered once. No route is registered for OPTIONS, so a preflight reaches
  the middlewares as an unmatched path; it ends in the CORS middleware, touches nothing and is
  answered 204, or 403 when its origin is not configured. A request to a registered route runs its
  handler on the store once; the client gets what the handler wrote, the response of \<open>MapError\<close>
  for the error it left, or the response 500 when it panicked. Any other path is answered 404 and
  leaves the store, or gin redirects it to the path with or without its trailing slash before any
  middleware. The access log gets one line for every request that is neither a preflight nor
  redirected, with the status of its response, and the client its own request identifier, or else a
  new one; its origin and the methods are allowed exactly when the origin is configured. The
  metrics count a request of an API route that did not panic under the status that its handler
  set, and so every error under status 200. About gin it is assumed that its lookup finds only
  registered routes, for their own method, and redirects only methods that have routes.
\<close>

theorem request_outcome:
  assumes served: "serve_request gin we rd fresh_id q s = (s', c)"
    and table: "\<And>route e pp ap. gin (registered_routes rd) (wq_method q) (wq_path q) = Matched route e pp ap \<Longrightarrow>
      (wq_method q, route, e) \<in> set (registered_routes rd)"
    and redirects: "\<And>status location. gin (registered_routes rd) (wq_method q) (wq_path q) = SlashRedirect status location \<Longrightarrow>
      wq_method q \<in> fst ` set (registered_routes rd)"
    and pages: "\<And>page store r. we_page we page store \<noteq> Failed r"
  shows "let allowed = wq_origin q \<in> set (rd_cors_origins rd); found = gin (registered_routes rd) (wq_method q) (wq_path q);
       line = \<lparr>al_method = wq_method q, al_path = wq_path q, al_status = gc_status c, al_request_id = gc_request_id c\<rparr> in
     (if wq_method q = ''OPTIONS''
      then s' = s \<and> sent_body c = Empty \<and> gc_status c = (if wq_origin q = [] \<or> allowed then 204 else 403)
      else case found of
        Matched route e pp ap \<Rightarrow>
          (case run_endpoint we rd e q (http_request_of q pp ap) (ws_store s) of (store, ending) \<Rightarrow>
             ws_store s' = store \<and> (gc_status c, sent_body c) = response_of ending \<and> ws_log s' = ws_log s @ [line] \<and>
             ws_counted s' = ws_counted s @ (case counted_status ending of
               Some status \<Rightarrow> if rd_metrics_middleware rd \<and> counted_route route then [(wq_method q, route, status)] else []
             | None \<Rightarrow> []) \<and>
             (\<forall>r. ending = Failed r \<longrightarrow> 400 \<le> gc_status c \<and> counted_status ending = Some 200))
      | Unmatched \<Rightarrow> ws_store s' = ws_store s \<and> ws_counted s' = ws_counted s \<and> ws_log s' = ws_log s @ [line] \<and>
          gc_status c = 404 \<and> sent_body c = ForeignPage ''404 page not found''
      | SlashRedirect status location \<Rightarrow> s' = s \<and> gc_status c = status \<and> sent_body c = RedirectTo location) \<and>
     ((\<forall>status location. found \<noteq> SlashRedirect status location) \<longrightarrow>
        gc_request_id c = (if wq_request_id q = [] then fresh_id else wq_request_id q) \<and>
        header_of ''X-Request-ID'' c = Some (gc_request_id c) \<and>
        header_of ''Access-Control-Allow-Origin'' c = (if allowed then Some (wq_origin q) else None) \<and>
        header_of ''Access-Control-Allow-Methods'' c = (if allowed then Some ''GET, POST, DELETE, OPTIONS'' else None))"
proof (cases "gin (registered_routes rd) (wq_method q) (wq_path q)")
  case (Matched route e pp ap)
  then have get: "wq_method q \<noteq> ''OPTIONS''" using table no_options_route by metis
  obtain store ending where run: "run_endpoint we rd e q (http_request_of q pp ap) (ws_store s) = (store, ending)" by fastforce
  note M = matched_request [OF served Matched get run]
  have errors: "400 \<le> gc_status c \<and> counted_status ending = Some 200" if "ending = Failed r" for r
    using run_endpoint_failed [of we rd e q _ "ws_store s" store r] run pages M that
    by (cases r) (auto simp: response_of_def counted_status_def)
  have headers: "header_of k c = header_of k (opened_context 200 rd fresh_id q)" for k
    using M by (simp add: header_of_def)
  show ?thesis using Matched get run M errors headers by (simp add: Let_def)
next
  case Unmatched
  show ?thesis
  proof (cases "wq_method q = ''OPTIONS''")
    case True
    then show ?thesis using preflight_request [OF served True Unmatched] Unmatched
      by (simp add: Let_def abort_with_status_def preflight_status_def sent_body_def)
  next
    case False
    then show ?thesis using unmatched_request [OF served Unmatched False] Unmatched
      by (simp add: Let_def sent_body_def)
  qed
next
  case (SlashRedirect status location)
  then have "wq_method q \<noteq> ''OPTIONS''" using redirects no_options_route by force
  then show ?thesis using served SlashRedirect
    by (auto simp: Let_def serve_request_def fresh_context_def sent_body_def)
qed

end
