(* ===== verification/Application.thy ===== *)
theory Application
  imports Router Worker Mock
begin

text \<open>
  The application (\<open>internal/app/app.go\<close>): how the configuration decides what the server is made
  of, in both of its modes, and the life of \<open>Application.Run\<close>: it starts the workers and the HTTP
  server, waits for a signal or a failure, and shuts both down before it closes the database.

  Opening the database is the answer of a library and a parameter; so are the advisory lock, the
  embeddings API, the clocks and the identifiers a request uses, in \<open>request_inputs\<close>.
\<close>

section \<open>The parts of the server\<close>

datatype app_error =
    UnsupportedMode string
  | DatabaseNotOpened string
  | EmbedderNotConfigured go_error
  | ControllerNotConfigured string

datatype app_mode = MockMode | PostgresMode

definition choose_mode :: "app_config \<Rightarrow> app_error + app_mode" where
  "choose_mode cfg =
     (let mode = sv_mode (cf_server cfg) in
      if mode = mode_mock then Inr MockMode
      else if mode = mode_postgres \<or> mode = [] then Inr PostgresMode
      else Inl (UnsupportedMode mode))"

text \<open>Durations of the configuration are nanoseconds, times of the database microseconds.\<close>

definition micros :: "int \<Rightarrow> time" where "micros duration = duration div 1000"

definition worker_config_of :: "app_config \<Rightarrow> worker_config" where
  "worker_config_of cfg = (let q = cf_queue cfg in
     \<lparr>wc_interval = micros (qc_worker_interval q), wc_batch_size = qc_batch_size q,
      wc_max_products = nat (qc_max_products q), wc_max_outbox = nat (qc_max_outbox q),
      wc_lease = micros (qc_lease q), wc_retry_base = micros (qc_retry_base q),
      wc_retry_max = micros (qc_retry_max q), wc_publisher_timeout = micros (qc_publisher_timeout q)\<rparr>)"

record 'f postgres_application =
  pa_embedder :: "(string \<times> string \<times> string) option"
  pa_loadtest_metrics :: "prometheus_client option"
  pa_controller :: "'f controller"
  pa_worker :: worker_config

text \<open>
  The result says whether the database was left open. \<open>loadtestMetrics\<close> is a pointer that may be
  nil, but as the reader of the controller it is an interface that holds this pointer, and such an
  interface is never nil.
\<close>

definition new_postgres_application ::
  "'f float_ops \<Rightarrow> string option \<Rightarrow> app_config \<Rightarrow> bool \<times> (app_error + 'f postgres_application)" where
  "new_postgres_application fo open_error cfg = (case open_error of
     Some message \<Rightarrow> (False, Inl (DatabaseNotOpened message))
   | None \<Rightarrow>
       let services = cf_services cfg;
           percent = qc_waiting_buffer (cf_queue cfg);
           embedder = (if se_ai_enabled services
             then (case new_embedder (se_api_key services) (se_embedding_model services) (se_base_url services) True of
                Inl e \<Rightarrow> Inl e | Inr provider \<Rightarrow> Inr (Some provider))
             else Inr None)
       in case embedder of
         Inl e \<Rightarrow> (False, Inl (EmbedderNotConfigured e))
       | Inr provider \<Rightarrow>
           let metrics = (if se_prometheus_url services \<noteq> []
             then Some (new_prometheus_client (se_prometheus_url services)) else None)
           in case new_controller fo (adaptive_config_of fo cfg) True (Some percent) of
             Inl message \<Rightarrow> (False, Inl (ControllerNotConfigured message))
           | Inr controller \<Rightarrow>
               (True, Inr \<lparr>pa_embedder = provider, pa_loadtest_metrics = metrics, pa_controller = controller,
                  pa_worker = worker_config_of cfg\<rparr>))"

section \<open>The router of the PostgreSQL server\<close>

text \<open>
  The state of the server: the database, the cached embeddings, the controller with the percentage
  that every repository reads, and the demo users of the migrations.
\<close>

record 'f server_state =
  ss_catalogue :: catalogue
  ss_controller :: "'f controller"
  ss_users :: "(uuid \<times> string) list"

record ('w, 'n, 'f) request_inputs =
  ri_ext :: externals
  ri_numbers :: "('w, 'n, 'f) sql_numbers"
  ri_ping :: bool
  ri_env :: env
  ri_second_env :: env
  ri_listing_envs :: "env list"
  ri_payment_envs :: payment_envs
  ri_lock :: "go_error + bool"
  ri_embeddings :: "'w embeddings_api"

definition current_percent :: "'f server_state \<Rightarrow> int" where
  "current_percent st = ct_source (ss_controller st)"

definition server_repo :: "app_config \<Rightarrow> 'f server_state \<Rightarrow> repo" where
  "server_repo cfg st = \<lparr>rp_invitation_ttl = micros (qc_invitation_ttl (cf_queue cfg)),
     rp_checkout_ttl = micros (qc_checkout_ttl (cf_queue cfg)), rp_buffer_percent = current_percent st\<rparr>"

definition on_catalogue :: "(catalogue \<Rightarrow> catalogue \<times> 'r) \<Rightarrow> 'f server_state \<Rightarrow> 'f server_state \<times> 'r" where
  "on_catalogue f st = (case f (ss_catalogue st) of (s', r) \<Rightarrow> (st\<lparr>ss_catalogue := s'\<rparr>, r))"

definition on_store :: "(db \<Rightarrow> db \<times> 'r) \<Rightarrow> 'f server_state \<Rightarrow> 'f server_state \<times> 'r" where
  "on_store f = on_catalogue (\<lambda>s. case f (ca_db s) of (d', r) \<Rightarrow> (s\<lparr>ca_db := d'\<rparr>, r))"

definition server_attempts ::
  "app_config \<Rightarrow> ('w, 'n, 'f) request_inputs \<Rightarrow> 'f server_state \<Rightarrow> db attempt_repository" where
  "server_attempts cfg ri st =
     store_attempts (server_repo cfg st) (ri_env ri) (ri_second_env ri) (ri_listing_envs ri)"

definition server_payments ::
  "app_config \<Rightarrow> ('w, 'n, 'f) request_inputs \<Rightarrow> 'f server_state \<Rightarrow> db payment_processor" where
  "server_payments cfg ri st = store_payments (server_repo cfg st) (ri_payment_envs ri)"

definition embedder_of ::
  "'f postgres_application \<Rightarrow> ('w, 'n, 'f) request_inputs \<Rightarrow> 'w embedding_provider option" where
  "embedder_of app ri = (case pa_embedder app of None \<Rightarrow> None
     | Some (api_key, model, base_url) \<Rightarrow> Some \<lparr>ep_model = model, ep_embed = embed (ri_embeddings ri) model\<rparr>)"

definition postgres_dependencies ::
  "app_config \<Rightarrow> 'f postgres_application \<Rightarrow> ('w, 'n::linorder, 'f::linorder) request_inputs \<Rightarrow>
     ('f server_state, 'f) router_dependencies" where
  "postgres_dependencies cfg app ri =
     \<lparr>rd_ping = (\<lambda>st. ri_ping ri),
      rd_list_products = (\<lambda>st. on_catalogue (\<lambda>s. (s, list_products (current_percent st) (ca_db s))) st),
      rd_get_product = (\<lambda>st pid. on_catalogue (\<lambda>s. (s, get_product (current_percent st) (ca_db s) pid)) st),
      rd_alternatives = (\<lambda>st pid. on_catalogue (\<lambda>s.
        use_alternatives (\<lambda>s pid. (s, get_product (current_percent st) (ca_db s) pid))
          (store_recommendations (ri_ext ri) (ri_numbers ri) (current_percent st) (ri_lock ri))
          (embedder_of app ri) s pid) st),
      rd_join = (\<lambda>st pid user key. on_store (\<lambda>d. use_join (Some (server_attempts cfg ri st)) d pid user key) st),
      rd_current = (\<lambda>st pid user. on_store (\<lambda>d. use_current (Some (server_attempts cfg ri st)) d pid user) st),
      rd_active = (\<lambda>st user. on_store (\<lambda>d. use_active (Some (server_attempts cfg ri st)) d user) st),
      rd_leave = (\<lambda>st pid user. on_store (\<lambda>d. use_leave (Some (server_attempts cfg ri st)) d pid user) st),
      rd_start_checkout = (\<lambda>st aid user. on_store (\<lambda>d. use_start_checkout (Some (server_attempts cfg ri st)) d aid user) st),
      rd_demo_payment = (\<lambda>st pid aid user key. on_store (\<lambda>d. complete_demo (ri_ext ri) (Some (server_payments cfg ri st))
        (Some (server_attempts cfg ri st)) d pid aid user key) st),
      rd_demo_users = (\<lambda>st. (st, list_demo_users (ri_ext ri) (ss_users st))),
      rd_stock = Some (\<lambda>st cmd. on_store (\<lambda>d. use_adjust_stock (server_attempts cfg ri st) d cmd) st),
      rd_payment = Some (\<lambda>st provider event attempt outcome reference. on_store (\<lambda>d.
        use_process_payment (ri_ext ri) (server_payments cfg ri st) d provider event attempt outcome reference) st),
      rd_unsafe_stock = qc_unsafe_stock (cf_queue cfg), rd_unsafe_payment = qc_unsafe_payment (cf_queue cfg),
      rd_loadtest_metrics = Some (pa_loadtest_metrics app), rd_success_window = se_success_window (cf_services cfg),
      rd_adaptive = Some (\<lambda>st. ct_snapshot (ss_controller st)),
      rd_cors_origins = sv_cors_origins (cf_server cfg),
      rd_metrics_handler = True, rd_metrics_middleware = True\<rparr>"

section \<open>The router of the mock server\<close>

text \<open>Times and the identifier of a new attempt are those of the call.\<close>

definition mock_dependencies ::
  "app_config \<Rightarrow> externals \<Rightarrow> (int \<Rightarrow> 'f) \<Rightarrow> time \<Rightarrow> uuid \<Rightarrow> (mock_state, 'f) router_dependencies" where
  "mock_dependencies cfg ext score now fresh =
     \<lparr>rd_ping = (\<lambda>s. True), rd_list_products = mock_list, rd_get_product = mock_get,
      rd_alternatives = mock_alternatives ext score, rd_join = mock_join (now, fresh), rd_current = mock_current,
      rd_active = mock_active, rd_leave = mock_leave now, rd_start_checkout = mock_start now,
      rd_demo_payment = mock_complete_demo now, rd_demo_users = mock_list_users,
      rd_stock = None, rd_payment = None, rd_unsafe_stock = False, rd_unsafe_payment = False,
      rd_loadtest_metrics = None, rd_success_window = 0, rd_adaptive = None,
      rd_cors_origins = sv_cors_origins (cf_server cfg), rd_metrics_handler = True, rd_metrics_middleware = True\<rparr>"

section \<open>The server in operation\<close>

text \<open>
  One request sees Prometheus, another process, as a function of the query: the queries of one
  request differ, so no answers are excluded, and the state of the server is not touched.
\<close>

definition request_environment ::
  "externals \<Rightarrow> 'f float_ops \<Rightarrow> 'f prometheus_library \<Rightarrow>
     (string \<times> (string \<times> string) list \<Rightarrow> prometheus_reply option) \<Rightarrow> (endpoint \<Rightarrow> 's \<Rightarrow> 'f handler_end) \<Rightarrow> time \<Rightarrow>
     ('s, 'f) web_environment" where
  "request_environment ext fo lib reply page now =
     \<lparr>we_externals = ext, we_floats = fo, we_library = lib, we_prometheus = (\<lambda>s r. (s, reply r)), we_page = page,
      we_now = (\<lambda>s. now)\<rparr>"

text \<open>
  What happens to the running server: a request is served; the controller refreshes the percentage;
  a transaction of the worker commits, or one of a request that is cut into its transactions by
  others. \<open>possible\<close> restricts the inputs that requests see.
\<close>

definition store_of :: "'f server_state web_state \<Rightarrow> db" where
  "store_of s = ca_db (ss_catalogue (ws_store s))"

definition with_store :: "db \<Rightarrow> 'f server_state web_state \<Rightarrow> 'f server_state web_state" where
  "with_store d s = (let st = ws_store s in s\<lparr>ws_store := st\<lparr>ss_catalogue := (ss_catalogue st)\<lparr>ca_db := d\<rparr>\<rparr>\<rparr>)"

definition with_controller :: "'f controller \<Rightarrow> 'f server_state web_state \<Rightarrow> 'f server_state web_state" where
  "with_controller c s = s\<lparr>ws_store := (ws_store s)\<lparr>ss_controller := c\<rparr>\<rparr>"

inductive server_moves ::
  "gin_match \<Rightarrow> 'f float_ops \<Rightarrow> app_config \<Rightarrow> 'f postgres_application \<Rightarrow>
     (('w, 'n::linorder, 'f::linorder) request_inputs \<Rightarrow> bool) \<Rightarrow>
     'f server_state web_state \<Rightarrow> 'f server_state web_state \<Rightarrow> bool"
  for gin fo cfg app possible where
  request_served: "possible ri \<Longrightarrow> server_moves gin fo cfg app possible s
     (fst (serve_request gin (request_environment ext fo lib reply page now) (postgres_dependencies cfg app ri) fresh_id q s))"
| percentage_refreshed: "server_moves gin fo cfg app possible s
     (with_controller (refresh fo metrics now (ss_controller (ws_store s))) s)"
| transaction_committed: "server_step (server_repo cfg (ws_store s)) (store_of s) d' \<Longrightarrow>
     server_moves gin fo cfg app possible s (with_store d' s)"

section \<open>The life of the application\<close>

text \<open>
  \<open>Application.Run\<close> waits in one place after the other. The goroutines beside it are the runners of
  the worker group, of which the state counts those that have not returned, and the HTTP server,
  whose result waits in the channel \<open>serverErrors\<close>. The errors collected so far are kept in order;
  \<open>errors.Join\<close> of none is nil.
\<close>

datatype serve_exit = ServerClosed | ServeError string

datatype run_phase =
    NotStarted
  | Waiting_for_end
  | Stopping "string list"
  | ShuttingDown "string list"
  | JoiningWorkers "string list"
  | ClosingDatabase "string list"
  | Returned_errors "string list"

record application_run =
  ap_started :: bool
  ap_phase :: run_phase
  ap_workers_left :: nat
  ap_cancelled :: bool
  ap_served :: "serve_exit option"
  ap_closed :: bool

definition new_run :: application_run where
  "new_run = \<lparr>ap_started = False, ap_phase = NotStarted, ap_workers_left = 0, ap_cancelled = False,
     ap_served = None, ap_closed = False\<rparr>"

text \<open>The runners: the supervisor and the controller, or the one of the mock server.\<close>

fun worker_group :: "app_mode \<Rightarrow> nat" where
  "worker_group PostgresMode = 2"
| "worker_group MockMode = 1"

text \<open>A call of \<open>Run\<close>: only the first one starts anything.\<close>

definition call_run :: "nat \<Rightarrow> application_run \<Rightarrow> string + application_run" where
  "call_run runners a =
     (if ap_started a then Inl ''application may only be run once''
      else Inr (a\<lparr>ap_started := True, ap_phase := Waiting_for_end, ap_workers_left := runners\<rparr>))"

definition serve_errors :: "serve_exit \<Rightarrow> string list" where
  "serve_errors result = (case result of ServerClosed \<Rightarrow> [] | ServeError message \<Rightarrow> [''serve HTTP: '' @ message])"

definition join_error :: string where "join_error = ''wait for workers: context deadline exceeded''"

inductive run_step :: "application_run \<Rightarrow> application_run \<Rightarrow> bool" where
  serve_returns: "ap_started a \<Longrightarrow> ap_served a = None \<Longrightarrow> run_step a (a\<lparr>ap_served := Some result\<rparr>)"
| runner_returns: "ap_workers_left a = Suc n \<Longrightarrow> run_step a (a\<lparr>ap_workers_left := n\<rparr>)"
| select_server: "ap_phase a = Waiting_for_end \<Longrightarrow> ap_served a = Some result \<Longrightarrow>
    run_step a (a\<lparr>ap_phase := Stopping (serve_errors result)\<rparr>)"
| select_signal: "ap_phase a = Waiting_for_end \<Longrightarrow> run_step a (a\<lparr>ap_phase := Stopping []\<rparr>)"
| cancel_workers: "ap_phase a = Stopping errors \<Longrightarrow>
    run_step a (a\<lparr>ap_phase := ShuttingDown errors, ap_cancelled := True\<rparr>)"
| shutdown_returns: "ap_phase a = ShuttingDown errors \<Longrightarrow>
    run_step a (a\<lparr>ap_phase := JoiningWorkers (errors @ (case result of None \<Rightarrow> [] | Some message \<Rightarrow> [message]))\<rparr>)"
| workers_joined: "ap_phase a = JoiningWorkers errors \<Longrightarrow> ap_workers_left a = 0 \<Longrightarrow>
    run_step a (a\<lparr>ap_phase := ClosingDatabase errors\<rparr>)"
| join_timed_out: "ap_phase a = JoiningWorkers errors \<Longrightarrow>
    run_step a (a\<lparr>ap_phase := Returned_errors (errors @ [join_error])\<rparr>)"
| database_closed: "ap_phase a = ClosingDatabase errors \<Longrightarrow>
    run_step a (a\<lparr>ap_phase := Returned_errors (errors @ (case result of None \<Rightarrow> [] | Some message \<Rightarrow> [message])),
      ap_closed := True\<rparr>)"

inductive_cases run_stepE: "run_step a a'"

inductive run_reaches :: "nat \<Rightarrow> application_run \<Rightarrow> bool" for runners where
  run_called: "call_run runners new_run = Inr a \<Longrightarrow> run_reaches runners a"
| run_moves: "run_reaches runners a \<Longrightarrow> run_step a a' \<Longrightarrow> run_reaches runners a'"

end
