(* ===== verification/Application_Properties.thy ===== *)
theory Application_Properties
  imports Application Router_Properties Catalogue_Properties Mock_Properties Control_Properties
begin

text \<open>
  The server as a whole: requests, refreshes of the controller and calls of the worker in any order
  keep what the repositories promise; a run of the application ends, and closes its database only
  after its workers.
\<close>

section \<open>Every service of the PostgreSQL server is a sound step\<close>

lemma find_active_sound: "db_inv d \<Longrightarrow> sound_step d (fst (find_active_by_user rp envs d user))"
  unfolding find_active_by_user_def by (rule find_current_each_sound)

lemma store_services_sound:
  assumes "db_inv d"
  shows "sound_step d (fst (use_join (Some (store_attempts rp env env' envs)) d pid user key))"
    and "sound_step d (fst (use_current (Some (store_attempts rp env env' envs)) d pid user))"
    and "sound_step d (fst (use_active (Some (store_attempts rp env env' envs)) d user))"
    and "sound_step d (fst (use_leave (Some (store_attempts rp env env' envs)) d pid user))"
    and "sound_step d (fst (use_start_checkout (Some (store_attempts rp env env' envs)) d aid user))"
    and "sound_step d (fst (use_adjust_stock (store_attempts rp env env' envs) d cmd))"
  using join_sound [OF assms] find_current_sound [OF assms] find_active_sound [OF assms] cancel_sound [OF assms]
    start_checkout_sound [OF assms] adjust_stock_sound [OF assms]
  by (auto simp: use_join_def use_current_def use_active_def use_leave_def use_start_checkout_def use_adjust_stock_def
      store_attempts_def split: prod.split) (metis fst_conv)

lemma store_payment_sound:
  assumes "db_inv d"
  shows "sound_step d (fst (use_process_payment ext (store_payments rp penvs) d provider event attempt outcome ref))"
  using process_payment_sound [OF assms] sound_step_refl [OF assms]
  by (auto simp: use_process_payment_def store_payments_def split: sum.split)

lemma complete_demo_sound:
  assumes inv: "db_inv d"
  shows "sound_step d (fst (complete_demo ext (Some (store_payments rp penvs)) (Some (store_attempts rp env env' envs))
     d pid aid user key))"
proof -
  let ?find = "\<lambda>k d. ar_find_current (store_attempts rp env env' envs) k d pid user"
  have find: "sound_step d1 d2" if "db_inv d1" "?find k d1 = (d2, r)" for d1 d2 k r
    using find_current_sound [OF that(1)] that(2) by (auto simp: store_attempts_def split: if_splits) (metis fst_conv)+
  have pay: "sound_step d1 d2" if "db_inv d1"
    "use_process_payment ext (store_payments rp penvs) d1 a b c e f = (d2, r)" for d1 d2 a b c e f r
    using store_payment_sound [OF that(1)] that(2) by (metis fst_conv)
  have inv': "db_inv d2" if "sound_step d1 d2" for d1 d2 using that by (simp add: sound_step_def)
  obtain d1 current e where first: "?find 0 d = (d1, current, e)" by (metis prod_cases3)
  have s1: "sound_step d d1" using find [OF inv first] .
  have s2: "sound_step d d2" if "use_process_payment ext (store_payments rp penvs) d1 a b c e f = (d2, r)" for d2 a b c e f r
    using sound_step_trans [OF s1 pay [OF inv' [OF s1] that]] .
  have s3: "sound_step d d3" if "use_process_payment ext (store_payments rp penvs) d1 a b c e f = (d2, r)"
      "?find k d2 = (d3, r')" for d2 a b c e f r d3 r' k
    using sound_step_trans [OF s2 [OF that(1)] find [OF inv' [OF s2 [OF that(1)]] that(2)]] .
  show ?thesis
    using s1 by (auto simp: complete_demo_def first Let_def split: option.split sum.split prod.split dest: s2 s3)
qed

lemma refresh_embeddings_store:
  "ca_db (fst (refresh_embeddings (store_recommendations ext nm percent lock) embedder s)) = ca_db s"
  by (auto simp: refresh_embeddings_def store_recommendations_def try_acquire_embedding_refresh_def Let_def
      upsert_embeddings_def split: sum.split prod.split option.split)

lemma use_alternatives_store:
  "ca_db (fst (use_alternatives (\<lambda>s pid. (s, get s pid)) (store_recommendations ext nm percent lock) embedder s pid)) = ca_db s"
  using refresh_embeddings_store [of ext nm percent lock _ s]
  by (auto simp: use_alternatives_def split: prod.split option.split) (metis fst_conv)+

section \<open>The PostgreSQL server behind the router\<close>

definition server_kept :: "'f server_state \<Rightarrow> 'f server_state \<Rightarrow> bool" where
  "server_kept st st' \<longleftrightarrow> ss_controller st' = ss_controller st \<and> ss_users st' = ss_users st \<and>
     (store_inv (ca_db (ss_catalogue st)) \<longrightarrow> sound_step (ca_db (ss_catalogue st)) (ca_db (ss_catalogue st')))"

lemma server_kept_refl: "server_kept st st"
  by (simp add: server_kept_def sound_step_refl store_inv_def)

lemma server_kept_trans: "server_kept st st' \<Longrightarrow> server_kept st' st'' \<Longrightarrow> server_kept st st''"
  unfolding server_kept_def using sound_step_store_inv sound_step_trans by metis

lemma on_store_kept:
  assumes "on_store f st = (st', r)" and "\<And>d. db_inv d \<Longrightarrow> sound_step d (fst (f d))"
  shows "server_kept st st'"
  using assms by (auto simp: on_store_def on_catalogue_def server_kept_def store_inv_def split: prod.splits) (metis fst_conv)

lemma on_catalogue_kept:
  assumes "on_catalogue f st = (st', r)" and "\<And>s. ca_db (fst (f s)) = ca_db s"
  shows "server_kept st st'"
  using assms sound_step_refl
  by (auto simp: on_catalogue_def server_kept_def store_inv_def split: prod.splits) (metis fst_conv)

interpretation postgres: routed_services server_kept "request_environment ext fo lib reply page now"
    "postgres_dependencies cfg app ri" for ext fo lib reply page now cfg app ri
proof
  show "server_kept s s" for s :: "'a server_state" by (rule server_kept_refl)
qed (auto simp: postgres_dependencies_def request_environment_def server_kept_refl server_attempts_def server_payments_def
    intro: server_kept_trans elim!: on_store_kept on_catalogue_kept
    intro!: store_services_sound store_payment_sound complete_demo_sound use_alternatives_store)

lemma served_store:
  assumes "store_inv (store_of s)"
    and "s' = fst (serve_request gin (request_environment ext fo lib reply page now) (postgres_dependencies cfg app ri) fresh_id q s)"
  shows "sound_step (store_of s) (store_of s')" and "ss_controller (ws_store s') = ss_controller (ws_store s)"
  using postgres.request_kept [of s gin ext fo lib reply page now cfg app ri fresh_id q] assms
  by (simp_all add: server_kept_def store_of_def)

section \<open>The mock server behind the router\<close>

lemma mock_reachable_step: "mock_step s s' \<Longrightarrow> mock_reachable s s'"
  by (rule mock_next [OF mock_start])

lemma mock_reachable_trans:
  assumes "mock_reachable s t" and "mock_reachable t u"
  shows "mock_reachable s u"
  using assms(2,1) by induction (auto intro: mock_next)

lemma mock_calls:
  "mock_join i s pid user key = (s', j) \<Longrightarrow> mock_reachable s s'"
  "mock_leave now s pid user = (s', l) \<Longrightarrow> mock_reachable s s'"
  "mock_start now s aid user = (s', a) \<Longrightarrow> mock_reachable s s'"
  "mock_complete_demo now s pid aid user key = (s', d) \<Longrightarrow> mock_reachable s s'"
  using mock_step_join mock_step_leave mock_step_start mock_step_pay mock_reachable_step by (metis fst_conv)+

interpretation mock: routed_services mock_reachable "request_environment ext fo lib reply page now"
    "mock_dependencies cfg ext' score now' fresh" for ext fo lib reply page now cfg ext' score now' fresh
  by unfold_locales
     (auto simp: mock_dependencies_def request_environment_def mock_list_def mock_get_def mock_list_users_def
        mock_alternatives_def mock_current_def mock_active_def Let_def
      split: option.splits intro: mock_start mock_reachable_trans dest: mock_calls)

section \<open>The server in operation\<close>

lemma server_kept_moves:
  assumes move: "server_moves gin fo cfg app possible s s'" and inv: "store_inv (store_of s)"
    and ok: "controller_ok fo (ss_controller (ws_store s))"
  shows "store_inv (store_of s') \<and> sound_step (store_of s) (store_of s') \<and>
     controller_ok fo (ss_controller (ws_store s')) \<and>
     ct_config (ss_controller (ws_store s')) = ct_config (ss_controller (ws_store s))"
  using move
proof cases
  case (request_served ri ext lib reply page now fresh_id q)
  then show ?thesis
    using served_store [OF inv request_served(1)] sound_step_store_inv [OF inv] ok by simp
next
  case (percentage_refreshed metrics now)
  then show ?thesis
    using refresh_percent [OF ok refl, of metrics now] inv sound_step_refl [of "store_of s"]
    by (simp add: with_controller_def store_of_def store_inv_def)
next
  case (transaction_committed d')
  then show ?thesis
    using server_step_sound [OF transaction_committed(2) inv] sound_step_store_inv [OF inv] ok
    by (simp add: with_store_def store_of_def Let_def)
qed

lemma server_kept_run:
  assumes "(server_moves gin fo cfg app possible)\<^sup>*\<^sup>* s s'" and "store_inv (store_of s)"
    and "controller_ok fo (ss_controller (ws_store s))"
  shows "store_inv (store_of s') \<and> sound_step (store_of s) (store_of s') \<and>
     controller_ok fo (ss_controller (ws_store s')) \<and>
     ct_config (ss_controller (ws_store s')) = ct_config (ss_controller (ws_store s))"
  using assms
proof (induction rule: rtranclp_induct)
  case (step s1 s2)
  then show ?case using server_kept_moves [OF step.hyps(2)] sound_step_trans by metis
qed (simp add: sound_step_refl store_inv_def)

lemma built_controller:
  assumes "load_from gl lookup = Inr cfg" and "new_postgres_application fo None cfg = (True, Inr app)"
  shows "controller_ok fo (pa_controller app) \<and> ct_config (pa_controller app) = adaptive_config_of fo cfg"
proof -
  have base: "ac_base (adaptive_config_of fo cfg) = qc_waiting_buffer (cf_queue cfg)"
    by (simp add: adaptive_config_of_def)
  have "new_controller fo (adaptive_config_of fo cfg) True (Some (ac_base (adaptive_config_of fo cfg))) = Inr (pa_controller app)"
    using assms(2) by (auto simp: new_postgres_application_def base Let_def split: sum.splits if_splits)
  moreover have "2 * ac_maximum (adaptive_config_of fo cfg) \<le> max_int64"
    using load_adaptive_Inr [OF load_from_Inr(4) [OF assms(1)]] by (simp add: adaptive_config_of_def max_int64_def)
  ultimately show ?thesis using new_controller_ok by blast
qed

text \<open>
  C1. The server as a whole keeps the promises of its parts. Start the PostgreSQL server with any
  configuration it accepts on a fresh catalogue; then, whatever requests arrive on whatever routes
  with whatever inputs, however often the controller refreshes the percentage, and whichever
  transactions of the worker and of interrupted requests commit in between, the database satisfies
  its invariant, no product is oversold, stock is conserved up to the recorded adjustments, and the
  percentage that every Join reads lies between the configured bounds.
\<close>

theorem server_keeps_promises:
  assumes load: "load_from gl lookup = Inr cfg" and built: "new_postgres_application fo None cfg = (True, Inr app)"
    and start: "fresh_catalogue (store_of s0)" "ss_controller (ws_store s0) = pa_controller app"
    and run: "(server_moves gin fo cfg app possible)\<^sup>*\<^sup>* s0 s"
  shows "store_inv (store_of s) \<and>
     (\<forall>p\<in>set (db_products (store_of s)). 0 \<le> pr_reserved p \<and> pr_reserved p \<le> pr_stock p \<and>
        pr_reserved p = int (length (filter (\<lambda>a. qa_product a = pr_id p \<and> reserves_stock (qa_state a))
          (db_attempts (store_of s))))) \<and>
     (\<forall>pid. stock_of pid (db_products (store_of s)) + purchased_in pid (db_attempts (store_of s)) =
        stock_of pid (db_products (store_of s0)) + ledger pid (db_adjustments (store_of s))) \<and>
     ad_min_buffer (cf_adaptive cfg) \<le> current_percent (ws_store s) \<and>
     current_percent (ws_store s) \<le> ad_max_buffer (cf_adaptive cfg) \<and> ad_max_buffer (cf_adaptive cfg) \<le> 500"
proof -
  note K = server_kept_run [OF run fresh_catalogue_inv [OF start(1)]]
  have C: "controller_ok fo (ss_controller (ws_store s0))"
    "ct_config (ss_controller (ws_store s0)) = adaptive_config_of fo cfg"
    using built_controller [OF load built] start(2) by simp_all
  have inv: "store_inv (store_of s)" and moved: "sound_step (store_of s0) (store_of s)" using K [OF C(1)] by blast+
  have percent: "ad_min_buffer (cf_adaptive cfg) \<le> current_percent (ws_store s)"
    "current_percent (ws_store s) \<le> ad_max_buffer (cf_adaptive cfg)"
    using K [OF C(1)] C(2) by (auto simp: controller_ok_def current_percent_def adaptive_config_of_def)
  have ledger: "stock_of pid (db_products (store_of s)) + purchased_in pid (db_attempts (store_of s)) =
      stock_of pid (db_products (store_of s0)) + ledger pid (db_adjustments (store_of s))" for pid
  proof -
    have "balance pid (store_of s) = balance pid (store_of s0)" using moved by (simp add: sound_step_def)
    then show ?thesis using start(1) by (simp add: balance_def fresh_catalogue_def purchased_in_def ledger_def)
  qed
  have "0 \<le> pr_reserved p \<and> pr_reserved p \<le> pr_stock p \<and>
      pr_reserved p = int (length (filter (\<lambda>a. qa_product a = pr_id p \<and> reserves_stock (qa_state a))
        (db_attempts (store_of s))))" if "p \<in> set (db_products (store_of s))" for p
  proof -
    have "product_ok p" "product_counts (db_attempts (store_of s)) p"
      using inv that by (simp_all add: store_inv_def db_inv_def)
    then show ?thesis by (simp add: product_ok_def product_counts_def reserved_in_def)
  qed
  then show ?thesis
    using inv ledger percent load_adaptive_Inr [OF load_from_Inr(4) [OF load]] by blast
qed

text \<open>A request to join, served by the server of the default configuration on the example store.\<close>

definition whole_ops :: "int float_ops" where
  "whole_ops = \<lparr>fo_of_int = id, fo_less = (<), fo_less_eq = (\<le>), fo_add = (+), fo_sub = (-),
     fo_mul = (*), fo_div = (div), fo_round = id, fo_ceil = id, fo_to_int = id\<rparr>"

definition demo_inputs :: "(nat, int, int) request_inputs" where
  "demo_inputs = \<lparr>ri_ext = demo_externals, ri_numbers = demo_numbers, ri_ping = True, ri_env = demo_env 1,
     ri_second_env = demo_env 2, ri_listing_envs = [],
     ri_payment_envs = \<lparr>pe_claim = demo_env 3, pe_apply = demo_env 4, pe_compensate = demo_env 5, pe_retry = demo_env 6\<rparr>,
     ri_lock = Inr True,
     ri_embeddings = (\<lambda>model inputs. Inl (Wrapped []))\<rparr>"

definition demo_prometheus :: "int prometheus_library" where
  "demo_prometheus = \<lparr>pl_seconds = (\<lambda>t. t div 1000000000), pl_format_time = show_int, pl_url_parses = (\<lambda>u. True),
     pl_request_builds = (\<lambda>u. True), pl_json_string = Some, pl_parse_float = (\<lambda>s. Some (int (read_nat s))),
     pl_is_nan = (\<lambda>x. False), pl_is_inf = (\<lambda>x. False), pl_duration_string = show_int\<rparr>"

definition demo_web_environment :: "('s, int) web_environment" where
  "demo_web_environment = request_environment demo_externals whole_ops demo_prometheus (\<lambda>r. None)
     (\<lambda>page s. Answered 200 (ForeignPage [])) 0"

definition demo_join_request :: wire_request where
  "demo_join_request = \<lparr>wq_method = ''POST'', wq_path = ''/api/v1/products/7/queue-entries'', wq_origin = [],
     wq_request_id = ''r1'', wq_user = ''11'', wq_key = ''k1'', wq_stock_body = None, wq_payment_body = None\<rparr>"

definition demo_gin :: "endpoint \<Rightarrow> string \<Rightarrow> gin_match" where
  "demo_gin e pattern routes http_method path =
     (if (http_method, pattern, e) \<in> set routes then Matched pattern e ''7'' [] else Unmatched)"

lemma default_application:
  obtains cfg and app :: "int postgres_application" where "load_from plain_library plain_environment = Inr cfg"
    and "new_postgres_application whole_ops None cfg = (True, Inr app)" and "se_prometheus_url (cf_services cfg) = []"
proof -
  obtain cfg where c: "load_from plain_library plain_environment = Inr cfg" "se_prometheus_url (cf_services cfg) = []"
    "\<not> se_ai_enabled (cf_services cfg)" by (rule plain_load)
  have "\<forall>i. 0 \<le> i \<and> i \<le> 100 \<longrightarrow> \<not> fo_less whole_ops (fo_of_int whole_ops i) (fo_of_int whole_ops 0) \<and>
      \<not> fo_less whole_ops (fo_of_int whole_ops 100) (fo_of_int whole_ops i)" by (simp add: whole_ops_def)
  from loaded_controller [OF c(1) this, of True] obtain ct where
    "new_controller whole_ops (adaptive_config_of whole_ops cfg) True (Some (qc_waiting_buffer (cf_queue cfg))) = Inr ct"
    by auto
  then show thesis using that c by (simp add: new_postgres_application_def Let_def)
qed

definition demo_server :: "int postgres_application \<Rightarrow> int server_state web_state" where
  "demo_server app = \<lparr>ws_store = \<lparr>ss_catalogue = \<lparr>ca_db = demo_db, ca_embeddings = []\<rparr>, ss_controller = pa_controller app,
     ss_users = []\<rparr>, ws_counted = [], ws_log = []\<rparr>"

lemma server_keeps_promises_witness:
  "\<exists>cfg app s c. load_from plain_library plain_environment = Inr cfg \<and>
     new_postgres_application whole_ops None cfg = (True, Inr app) \<and>
     serve_request (demo_gin QueueJoin ''/api/v1/products/:productID/queue-entries'') demo_web_environment
       (postgres_dependencies cfg app demo_inputs) ''id'' demo_join_request (demo_server app) = (s, c) \<and>
     store_inv (store_of s) \<and> current_percent (ws_store s) \<le> 500 \<and>
     stock_of 7 (db_products (store_of s)) + purchased_in 7 (db_attempts (store_of s)) =
       1 + ledger 7 (db_adjustments (store_of s))"
proof -
  obtain cfg and app :: "int postgres_application" where built: "load_from plain_library plain_environment = Inr cfg"
    "new_postgres_application whole_ops None cfg = (True, Inr app)" by (rule default_application)
  let ?gin = "demo_gin QueueJoin ''/api/v1/products/:productID/queue-entries''"
  obtain s c where served: "serve_request ?gin demo_web_environment (postgres_dependencies cfg app demo_inputs) ''id''
      demo_join_request (demo_server app) = (s, c)" by fastforce
  have store: "store_of (demo_server app) = demo_db" "ss_controller (ws_store (demo_server app)) = pa_controller app"
    by (simp_all add: store_of_def demo_server_def)
  have "server_moves ?gin whole_ops cfg app (\<lambda>ri. ri = demo_inputs) (demo_server app) s"
    using request_served [of "\<lambda>ri. ri = demo_inputs" demo_inputs ?gin whole_ops cfg app "demo_server app"] served
    by (simp add: demo_web_environment_def) (metis fst_conv)
  then have run: "(server_moves ?gin whole_ops cfg app (\<lambda>ri. ri = demo_inputs))\<^sup>*\<^sup>* (demo_server app) s" by simp
  have "stock_of 7 (db_products demo_db) = 1" by (simp add: demo_db_def demo_product_def stock_of_def)
  with server_keeps_promises [OF built _ store(2) run] show ?thesis
    using built served demo_fresh store(1) by (intro exI [of _ cfg] exI [of _ app] exI [of _ s] exI [of _ c]) auto
qed

section \<open>The life of the application\<close>

fun phase_rank_of :: "run_phase \<Rightarrow> nat" where
  "phase_rank_of NotStarted = 7"
| "phase_rank_of Waiting_for_end = 6"
| "phase_rank_of (Stopping errors) = 5"
| "phase_rank_of (ShuttingDown errors) = 4"
| "phase_rank_of (JoiningWorkers errors) = 3"
| "phase_rank_of (ClosingDatabase errors) = 2"
| "phase_rank_of (Returned_errors errors) = 1"

definition run_rank :: "application_run \<Rightarrow> nat" where
  "run_rank a = phase_rank_of (ap_phase a) + ap_workers_left a + (if ap_served a = None then 1 else 0)"

definition run_ok :: "application_run \<Rightarrow> bool" where
  "run_ok a \<longleftrightarrow> ap_started a \<and>
     (case ap_phase a of
        NotStarted \<Rightarrow> False
      | Waiting_for_end \<Rightarrow> \<not> ap_closed a
      | Stopping errors \<Rightarrow> \<not> ap_closed a
      | ShuttingDown errors \<Rightarrow> \<not> ap_closed a \<and> ap_cancelled a
      | JoiningWorkers errors \<Rightarrow> \<not> ap_closed a \<and> ap_cancelled a
      | ClosingDatabase errors \<Rightarrow> \<not> ap_closed a \<and> ap_cancelled a \<and> ap_workers_left a = 0
      | Returned_errors errors \<Rightarrow> ap_cancelled a \<and>
          (if ap_closed a then ap_workers_left a = 0 else errors \<noteq> [] \<and> last errors = join_error))"

lemma run_reaches_ok: "run_reaches runners a \<Longrightarrow> run_ok a \<and> run_rank a \<le> runners + 7"
proof (induction rule: run_reaches.induct)
  case (run_called a)
  then show ?case by (auto simp: call_run_def new_run_def run_ok_def run_rank_def)
next
  case (run_moves a a')
  have "run_ok a' \<and> run_rank a' < run_rank a"
    using run_moves.hyps(2) run_moves.IH
    by (cases rule: run_step.cases) (auto simp: run_ok_def run_rank_def split: run_phase.splits if_splits)
  then show ?case using run_moves.IH by simp
qed

text \<open>
  C40. Shutting down is orderly and always ends: in every state of \<open>Application.Run\<close> the database
  is closed only after the workers were told to stop and every one of them has returned; \<open>Run\<close>
  returns without closing it only with the error of a join that timed out, and so a nil error means
  that it is closed; a second call of \<open>Run\<close> is refused. Every step brings the end nearer, so at
  most \<open>runners + 7\<close> steps follow the call, and only the wait for a signal or a failure of the
  server can keep it from taking the next one.
\<close>

theorem database_closed_last:
  assumes "run_reaches runners a"
  shows "(ap_closed a \<longrightarrow> ap_cancelled a \<and> ap_workers_left a = 0) \<and>
     (\<forall>errors. ap_phase a = Returned_errors errors \<longrightarrow> ap_closed a \<or> errors \<noteq> [] \<and> last errors = join_error) \<and>
     call_run again a = Inl ''application may only be run once'' \<and>
     run_rank a \<le> runners + 7 \<and> (\<forall>a'. run_step a a' \<longrightarrow> run_rank a' < run_rank a) \<and>
     ((\<exists>errors. ap_phase a = Returned_errors errors) \<or> ap_phase a = Waiting_for_end \<or>
        (\<exists>a'. run_step a a' \<and> ap_phase a' \<noteq> ap_phase a))"
proof -
  have ok: "run_ok a" "run_rank a \<le> runners + 7" using run_reaches_ok [OF assms] by auto
  have down: "run_rank a' < run_rank a" if "run_step a a'" for a'
    using that by (cases rule: run_step.cases) (auto simp: run_rank_def)
  have "\<exists>a'. run_step a a' \<and> ap_phase a' \<noteq> ap_phase a"
    if "\<And>errors. ap_phase a \<noteq> Returned_errors errors" "ap_phase a \<noteq> Waiting_for_end"
  proof (cases "ap_phase a")
    case (Stopping errors)
    then show ?thesis using cancel_workers [OF Stopping] by (intro exI conjI) (assumption, simp)
  next
    case (ShuttingDown errors)
    then show ?thesis using shutdown_returns [OF ShuttingDown, of None] by (intro exI conjI) (assumption, simp)
  next
    case (JoiningWorkers errors)
    then show ?thesis using join_timed_out [OF JoiningWorkers] by (intro exI conjI) (assumption, simp)
  next
    case (ClosingDatabase errors)
    then show ?thesis using database_closed [OF ClosingDatabase, of None] by (intro exI conjI) (assumption, simp)
  qed (use that ok(1) in \<open>auto simp: run_ok_def\<close>)
  then show ?thesis
    using ok down by (auto simp: run_ok_def call_run_def split: run_phase.splits if_splits)
qed

text \<open>A signal arrives, both workers return, and the database is closed without an error.\<close>

lemma database_closed_last_witness:
  "\<exists>a. run_reaches (worker_group PostgresMode) a \<and> ap_phase a = Returned_errors [] \<and> ap_closed a \<and> ap_workers_left a = 0 \<and>
     call_run 1 a = Inl ''application may only be run once''"
proof -
  let ?a = "\<lparr>ap_started = True, ap_phase = Waiting_for_end, ap_workers_left = 2, ap_cancelled = False,
     ap_served = None, ap_closed = False\<rparr>"
  have r0: "run_reaches 2 ?a" by (rule run_called) (simp add: call_run_def new_run_def)
  have r1: "run_reaches 2 (?a\<lparr>ap_phase := Stopping []\<rparr>)" by (rule run_moves [OF r0 select_signal]) simp
  have r2: "run_reaches 2 (?a\<lparr>ap_phase := ShuttingDown [], ap_cancelled := True\<rparr>)"
    using run_moves [OF r1 cancel_workers [of _ "[]"]] by simp
  have r3: "run_reaches 2 (?a\<lparr>ap_phase := JoiningWorkers [], ap_cancelled := True\<rparr>)"
    using run_moves [OF r2 shutdown_returns [of _ "[]" None]] by simp
  have r4: "run_reaches 2 (?a\<lparr>ap_phase := JoiningWorkers [], ap_cancelled := True, ap_workers_left := 1\<rparr>)"
    using run_moves [OF r3 runner_returns [of _ 1]] by simp
  have r5: "run_reaches 2 (?a\<lparr>ap_phase := JoiningWorkers [], ap_cancelled := True, ap_workers_left := 0\<rparr>)"
    using run_moves [OF r4 runner_returns [of _ 0]] by simp
  have r6: "run_reaches 2 (?a\<lparr>ap_phase := ClosingDatabase [], ap_cancelled := True, ap_workers_left := 0\<rparr>)"
    using run_moves [OF r5 workers_joined [of _ "[]"]] by simp
  have r7: "run_reaches 2 (?a\<lparr>ap_phase := Returned_errors [], ap_cancelled := True, ap_workers_left := 0, ap_closed := True\<rparr>)"
    using run_moves [OF r6 database_closed [of _ "[]" None]] by simp
  show ?thesis
    using database_closed_last [OF r7, of 1] r7 by (intro exI [of _ "?a\<lparr>ap_phase := Returned_errors [], ap_cancelled := True,
        ap_workers_left := 0, ap_closed := True\<rparr>"]) simp
qed

section \<open>The metrics routes without a Prometheus server\<close>

text \<open>
  Without \<open>GOODQUEUE_LOADTEST_PROMETHEUS_URL\<close> the pointer \<open>loadtestMetrics\<close> is nil, but the interface
  the router tests is not: the routes of the load-test statistics are registered, and their
  handlers panic, where the router's test expects 404.
\<close>

lemma unset_prometheus_url:
  assumes "new_postgres_application fo open_error cfg = (left_open, Inr app)" and "se_prometheus_url (cf_services cfg) = []"
  shows "(''GET'', ''/internal/v1/loadtest/request-success-rate'', RequestSuccessRate)
      \<in> set (registered_routes (postgres_dependencies cfg app ri))"
    and "run_endpoint we (postgres_dependencies cfg app ri) RequestSuccessRate q req st = (st, Panicked)"
    and "run_endpoint we (postgres_dependencies cfg app ri) PurchaseSuccessRate q req st = (st, Panicked)"
proof -
  have "pa_loadtest_metrics app = None"
    using assms by (auto simp: new_postgres_application_def Let_def split: option.splits sum.splits if_splits)
  then show "(''GET'', ''/internal/v1/loadtest/request-success-rate'', RequestSuccessRate)
      \<in> set (registered_routes (postgres_dependencies cfg app ri))"
    and "run_endpoint we (postgres_dependencies cfg app ri) RequestSuccessRate q req st = (st, Panicked)"
    and "run_endpoint we (postgres_dependencies cfg app ri) PurchaseSuccessRate q req st = (st, Panicked)"
    by (simp_all add: postgres_dependencies_def registered_routes_def run_endpoint_def request_success_handler_def
        purchase_success_handler_def Let_def)
qed

text \<open>
  A request to join without an identity: the client gets 401, the metrics count a 200. The preflight
  of the same path matches no route and is answered 204.
\<close>

lemma request_outcome_witness:
  "\<exists>cfg app s c s2 c2. new_postgres_application whole_ops None cfg = (True, Inr app) \<and>
     serve_request (demo_gin QueueJoin ''/api/v1/products/:productID/queue-entries'') demo_web_environment
       (postgres_dependencies cfg app demo_inputs) ''id'' (demo_join_request\<lparr>wq_user := []\<rparr>) (demo_server app) = (s, c) \<and>
     gc_status c = 401 \<and> ws_counted s = [(''POST'', ''/api/v1/products/:productID/queue-entries'', 200)] \<and>
     header_of ''X-Request-ID'' c = Some ''r1'' \<and>
     serve_request (demo_gin QueueJoin ''/api/v1/products/:productID/queue-entries'') demo_web_environment
       (postgres_dependencies cfg app demo_inputs) ''id'' (demo_join_request\<lparr>wq_method := ''OPTIONS''\<rparr>) s = (s2, c2) \<and>
     s2 = s \<and> gc_status c2 = 204"
proof -
  obtain cfg and app :: "int postgres_application" where built: "new_postgres_application whole_ops None cfg = (True, Inr app)"
    by (rule default_application)
  let ?q = "demo_join_request\<lparr>wq_user := []\<rparr>" and ?rd = "postgres_dependencies cfg app demo_inputs"
  let ?gin = "demo_gin QueueJoin ''/api/v1/products/:productID/queue-entries''"
  obtain s c where served: "serve_request ?gin demo_web_environment ?rd ''id'' ?q (demo_server app) = (s, c)" by fastforce
  obtain s2 c2 where preflight: "serve_request ?gin demo_web_environment ?rd ''id''
      (demo_join_request\<lparr>wq_method := ''OPTIONS''\<rparr>) s = (s2, c2)" by fastforce
  have unauthorized: "run_endpoint demo_web_environment ?rd QueueJoin ?q (http_request_of ?q ''7'' []) (ws_store (demo_server app)) =
      (ws_store (demo_server app), Failed (401, ErrorBody ''invalid_identity'' ''a valid X-User-ID header is required''))"
    by (simp add: run_endpoint_def join_handler_def parse_product_and_identity_def identity_from_context_def
        http_request_of_def map_http_error_def public_error_def Let_def)
  have counted: "rd_metrics_middleware ?rd" "counted_route ''/api/v1/products/:productID/queue-entries''"
    by (simp_all add: postgres_dependencies_def counted_route_def)
  have found: "?gin (registered_routes ?rd) ''POST'' p = Matched ''/api/v1/products/:productID/queue-entries'' QueueJoin ''7'' []" for p
    by (simp add: demo_gin_def registered_routes_def)
  have table: "?gin routes m p = Matched route e pp ap \<Longrightarrow> (m, route, e) \<in> set routes"
      "?gin routes m p \<noteq> SlashRedirect status location" for routes m p route e pp ap status location
    by (simp_all add: demo_gin_def split: if_splits)
  have pages: "we_page demo_web_environment page store \<noteq> Failed r" for page store r
    by (simp add: demo_web_environment_def request_environment_def)
  have "gc_status c = 401 \<and> ws_counted s = [(''POST'', ''/api/v1/products/:productID/queue-entries'', 200)] \<and>
      header_of ''X-Request-ID'' c = Some ''r1''"
    using request_outcome [OF served table(1) _ pages] table(2) found [of "wq_path ?q"] unauthorized counted
    by (simp add: Let_def demo_join_request_def demo_server_def response_of_def counted_status_def)
  moreover have "s2 = s \<and> gc_status c2 = 204"
    using request_outcome [OF preflight table(1) _ pages] table(2) by (simp add: Let_def demo_join_request_def)
  ultimately show ?thesis using built served preflight by blast
qed

end
