(* ===== verification/Spec2Isabelle.thy ===== *)
theory Spec2Isabelle
  imports Store_Properties Queue_Properties Reconcile_Properties Operation_Properties
    Payment_Properties Delivery_Properties Domain_Properties Verifier_Properties Http_Properties
    Catalogue_Properties Mock_Properties Control_Properties Fixtures_Properties Load_Properties
    Runner_Properties Commands Router_Properties Application_Properties
begin

text \<open>
  A verification library for GoodQueue, a server that sells scarce stock through a queue. A
  customer joins the queue of a product; an invitation or a checkout reserves one unit; a payment
  event turns a checkout into a purchase; units that are given back go to the next in line.

  \<^bold>\<open>The program and its model.\<close> The state of the server is its PostgreSQL database. HTTP handlers
  call use cases, which call repositories; every repository call is one transaction that first
  locks the row of its product, so calls on a product are serialised and a call that fails is
  rolled back. A background worker calls the same repositories to expire deadlines, to invite and
  to publish notifications. The model follows these layers, each theory after the code it reads:

  \<^item> \<open>Prelude\<close>, \<open>Go_Strings\<close>: fixed-width integers (\<open>i32\<close>, \<open>i64\<close> wrap like Go's), the error monad of
    a transaction body (\<open>bindE\<close>), \<open>UPDATE\<close> and \<open>INSERT\<close> on a list of rows with immediate
    constraints, \<open>forward\<close> (rows stay in place and evolve), and the parts of \<open>strings\<close>, \<open>strconv\<close>
    and \<open>encoding/binary\<close> that the source uses, on byte strings.
  \<^item> \<open>Domain\<close>, \<open>Canonical\<close> (\<open>internal/pkg/domain\<close>): sentinels and \<open>errors.Is\<close>, attempts, commands and
    their parsers, waiting capacity; length-prefixed canonical hashes and stored JSON bodies.
  \<^item> \<open>Schema\<close> (\<open>migrations\<close>): the rows of the five tables with their CHECK constraints and unique
    indexes, the record \<open>db\<close>.
  \<^item> \<open>Transaction\<close>, \<open>Reconcile\<close>, \<open>Queue_Ops\<close> (\<open>repository/postgres/queue_attempt.go\<close>): the locked
    transaction, every guarded transition, the bounded reconciliation loops, and \<open>join\<close>,
    \<open>start_checkout\<close>, \<open>cancel\<close>, \<open>find_current\<close>, \<open>find_active_by_user\<close>, \<open>adjust_stock\<close>,
    \<open>reconcile_next_product\<close>.
  \<^item> \<open>Payment\<close> (\<open>payment.go\<close>): claiming a payment event under a lease with a fencing generation,
    applying it, compensation, retry. \<open>Outbox\<close> (\<open>notification_outbox.go\<close>): leases and backoff.
  \<^item> \<open>System\<close>: the server as a transition system; a rule per repository call with arbitrary clock
    readings, UUIDs and arguments, and an arbitrary waiting-buffer percentage in every Join.
  \<^item> \<open>Worker\<close> (\<open>internal/worker\<close>), \<open>Use_Cases\<close> (\<open>internal/usecase\<close>), \<open>Http\<close> (\<open>internal/app/http\<close>):
    the callers, over interfaces that are functions or records of functions on the state.
  \<^item> \<open>Catalogue\<close> (\<open>product.go\<close>, \<open>demo_user.go\<close>, \<open>recommendation.go\<close>, \<open>openai/embedder.go\<close>, the product
    use case and handlers): live inventory, recommended alternatives and the embedding cache.
  \<^item> \<open>Mock\<close> (\<open>internal/mockapi/services.go\<close>): the in-memory server with the same HTTP interface.
  \<^item> \<open>Adaptive\<close> (\<open>internal/adaptivequeue/controller.go\<close>), \<open>Config\<close> (\<open>internal/app/config/config.go\<close>):
    the percentage controller and the loading of the configuration.
  \<^item> \<open>Metrics\<close> (\<open>internal/loadtest/prometheus.go\<close>, \<open>handler/loadtest_metrics.go\<close>,
    \<open>internal/observability/metrics.go\<close>): the statistics read from Prometheus, the handlers that show
    them, and the business snapshot. \<open>Router\<close> (\<open>router.go\<close>, \<open>middleware\<close>): the routes, the chain of
    middlewares, and \<open>serve_request\<close>, the HTTP server as one function.
  \<^item> \<open>Application\<close> (\<open>internal/app/app.go\<close>): what the configuration builds in either mode, the running
    server as a transition system on store, percentage and HTTP state, and the life of \<open>Run\<close>.
  \<^item> \<open>Verifier\<close>, \<open>Outcomes\<close> (\<open>internal/loadtest/verify.go\<close>, \<open>outcomes.go\<close>): the checks run after a
    load test and the verdict on a purchase scenario; \<open>Fixtures\<close> (\<open>config.go\<close>, \<open>data.go\<close>): the
    configuration and the generator of a load test; \<open>Load_Store\<close> (\<open>store.go\<close>): the tables of runs
    and logs, seeding, cleaning up, persisting a verdict, and \<open>Verify\<close> as a whole.
  \<^item> \<open>Runner\<close> (\<open>internal/loadtestrunner/runner.go\<close>): the service that starts load-test scripts, one
    at a time: its state under a mutex, the critical sections of its goroutine, its HTTP handlers.
    \<open>Commands\<close> (\<open>cmd/loadtest-seed\<close>, \<open>cmd/loadtest-verify\<close>): the commands those scripts run.
  \<^item> \<open>Example\<close>: a small store on which the properties are instantiated.

  \<^bold>\<open>The lemmas.\<close> \<open>Invariant\<close> states the database invariant \<open>db_inv\<close> (well-formed rows, counters
  that count, sequences and keys unique, one active attempt per customer) and the state machine of
  an attempt, \<open>attempt_step\<close>; \<open>tx_inv\<close> is its form inside a transaction, where the locked rows are
  also held in memory. \<open>Reconcile\<close> specifies one reconciliation as a function on the attempts
  (\<open>reconcile_spec\<close>) and shows that the loops compute it. \<open>Queue_Safety\<close> and \<open>Payment_Safety\<close> show
  that every operation keeps the invariant, changes only its product and conserves stock;
  \<open>System\<close> lifts this to \<open>reachable\<close> databases.

  \<^bold>\<open>The interfaces.\<close> Each locale is interpreted on the definitions of the model:
  \<open>locked_operation\<close> and \<open>conserving_operation\<close> (the closure a locked transaction runs) on the
  bodies of the six product transactions; \<open>reconciler_contract\<close>, \<open>worker_run\<close> and
  \<open>worker_contract\<close> (what a worker cycle relies on) on the store; \<open>join_service\<close> (the service
  behind a POST of a queue entry) and \<open>product_service\<close> (behind the product pages) both on the
  store and on the mock server, so that what a client sees is proved once; \<open>percent_controller\<close> on
  the adaptive controller; \<open>routed_services\<close> (a relation that every service behind the router keeps)
  on the PostgreSQL server and on the mock server.

  \<^bold>\<open>The properties\<close> \<open>C1\<close> to \<open>C40\<close> are grouped by theory. \<open>Store_Properties\<close>: no overselling, the
  stock ledger, one place per customer and one holder per place, the state machine and final rows in every reachable
  database. \<open>Queue_Properties\<close>, \<open>Reconcile_Properties\<close>, \<open>Operation_Properties\<close>: what Join, the
  background pass, StartCheckout, Cancel and AdjustStock answer and commit; queue order; the pass
  refines its specification and settles a product. \<open>Payment_Properties\<close>, \<open>Delivery_Properties\<close>:
  claims exclude each other and are fenced, payments are applied once and never lost (a payment for
  an attempt that exists is sold, compensated, or fails without a change), cycles
  terminate and starve nobody, only standing invitations are published. \<open>Domain_Properties\<close>:
  capacity, digests, storable commands. \<open>Http_Properties\<close>, \<open>Catalogue_Properties\<close>,
  \<open>Mock_Properties\<close>, \<open>Verifier_Properties\<close>, \<open>Control_Properties\<close>: idempotent posts, real demo
  payments, available alternatives, the books of the mock server, no false alarms of the verifier,
  and a bounded waiting room under any sequence of adaptations and any accepted configuration.
  \<open>Fixtures_Properties\<close>, \<open>Load_Properties\<close>, \<open>Runner_Properties\<close>: generated fixtures respect the
  capacities, cleaning up a run keeps the invariants of the rest of the store, and the status the
  runner shows to clients that wait for the end of a run is what the commands of its history
  answered. \<open>Router_Properties\<close>, \<open>Application_Properties\<close>: what becomes of a request between router
  and handler, preflights and unknown paths included; the composed
  server keeps the invariants under any requests, refreshes and worker transactions; the database
  is closed last.

  \<^bold>\<open>Bounds and termination.\<close> Recursion is structural or over an explicit budget: the loops of a
  reconciliation take the number of changes the code allows (\<open>ample_pass_settles\<close> says when this is
  enough), a worker cycle takes \<open>MaxReconciledProducts\<close> or \<open>MaxOutboxItems\<close>, and the endless loop of
  the worker is a \<open>partial_function\<close> that ends when the context is cancelled (\<open>run_loop_ends\<close>). The
  fixture generator retries as often as the code, 1000 times.
  Durations of \<open>Config\<close> and \<open>Mock\<close> are nanoseconds, database times are in one unit, microseconds.

  \<^bold>\<open>Choices.\<close> A transaction is atomic, and infrastructure failures, which roll it back, are not
  modelled further; a driver error without a sentinel is \<open>Wrapped []\<close>, a panic is \<open>Panic\<close>. Text is
  arbitrary bytes, lengths are in bytes. Rows locked by others (SKIP LOCKED) and the advisory lock
  are arbitrary. SHA-256, UUIDs, JSON decoding, float and \<open>numeric\<close> arithmetic, vector distance, the
  embeddings API, the Prometheus service, gin's path lookup, duration and URL parsing are parameters, with their
  documented properties as named hypotheses where a theorem needs them. The outbox payload is kept
  structured, \<open>last_error\<close> of the inbox as an error value. Where Go iterates over a map, the order
  is an argument.

  \<^bold>\<open>Not modelled.\<close> Foreign keys of the server's own statements, which never delete a row, and the
  legacy tables; log lines other than the access log, durations of worker cycles; gin's lookup of a
  path, the swagger pages and the text format of the Prometheus library, which are parameters or left
  out; the logger, the connection pool and the other \<open>main\<close> functions, which call libraries and the
  modelled operations; the gauges of the load-test runner; generated code (OpenAPI document, SQL
  builders); the web client.
\<close>

end
